(* ===== verification/Prelude.thy ===== *)
theory Prelude
  imports Main "HOL-Library.Word"
begin

text \<open>
  Shared vocabulary of the development: the machine integer types of the sources, the
  collections of rewrite rules the component theories extend, and generic lemmas on words
  and sorted lists.
\<close>

unbundle bit_operations_syntax

section \<open>Machine integers\<close>

type_synonym u8 = "8 word"
type_synonym u16 = "16 word"
type_synonym u32 = "32 word"
type_synonym u64 = "64 word"

text \<open>The guest addresses of MemCheck (\<^verbatim>\<open>Addr32.h\<close>) are 32-bit unsigned integers.\<close>

type_synonym Addr32 = u32
type_synonym Word32 = u32

section \<open>Rule collections\<close>

named_theorems shadow_simps \<open>unfolding of the shadow memory operations\<close>
named_theorems interval_simps \<open>reading 32-bit interval keys as natural numbers\<close>
named_theorems memcheck_simps \<open>frame rules of the MemCheck state\<close>

section \<open>Words\<close>

lemma unat_add_no_wrap32:
  "unat (a :: u32) + unat b < 2 ^ 32 \<Longrightarrow> unat (a + b) = unat a + unat b"
  by (simp add: unat_word_ariths)

lemma unat_sub_le32:
  "b \<le> a \<Longrightarrow> unat ((a :: u32) - b) = unat a - unat b"
  by (simp add: unat_sub)

lemma unat_pos_iff: "(0 < unat (w :: 'a :: len word)) = (w \<noteq> 0)"
  by (simp add: unat_gt_0)

lemma unat_inject [simp]: "(unat (a :: 'a :: len word) = unat b) = (a = b)"
  by (simp flip: word_unat_eq_iff)

lemma unat_zero_iff [simp]: "(unat (w :: 'a :: len word) = 0) = (w = 0)"
  by (simp add: unat_eq_zero)

lemma unat_less_pow32: "unat (w :: u32) < 2 ^ 32"
  using unsigned_less [of w] by simp

section \<open>Sorted lists\<close>

lemma sorted_wrt_append_iff:
  "sorted_wrt P (xs @ ys) \<longleftrightarrow>
     sorted_wrt P xs \<and> sorted_wrt P ys \<and> (\<forall>x\<in>set xs. \<forall>y\<in>set ys. P x y)"
  by (rule sorted_wrt_append)

end
