(* ===== verification/LittleEndian.thy ===== *)
theory LittleEndian
  imports Prelude
begin

text \<open>
  Byte-addressed memory and the accessors of \<^verbatim>\<open>cpu-all.h\<close> for a little-endian target. The
  portable and the x86 variants in the header compute the same values; the definitions follow
  the portable one, byte by byte.
\<close>

unbundle bit_operations_syntax

type_synonym mem = "u32 \<Rightarrow> u8"

definition ldub_p :: "mem \<Rightarrow> u32 \<Rightarrow> u32" where
  "ldub_p m p = ucast (m p)"

definition ldsb_p :: "mem \<Rightarrow> u32 \<Rightarrow> u32" where
  "ldsb_p m p = scast (m p)"

definition lduw_le_p :: "mem \<Rightarrow> u32 \<Rightarrow> u32" where
  "lduw_le_p m p = ucast (m p) OR push_bit 8 (ucast (m (p + 1)))"

definition ldsw_le_p :: "mem \<Rightarrow> u32 \<Rightarrow> u32" where
  "ldsw_le_p m p = scast (ucast (m p) OR push_bit 8 (ucast (m (p + 1))) :: u16)"

definition ldl_le_p :: "mem \<Rightarrow> u32 \<Rightarrow> u32" where
  "ldl_le_p m p = ucast (m p) OR push_bit 8 (ucast (m (p + 1))) OR
     push_bit 16 (ucast (m (p + 2))) OR push_bit 24 (ucast (m (p + 3)))"

definition ldq_le_p :: "mem \<Rightarrow> u32 \<Rightarrow> u64" where
  "ldq_le_p m p = ucast (ldl_le_p m p) OR push_bit 32 (ucast (ldl_le_p m (p + 4)))"

definition stb_p :: "u32 \<Rightarrow> u32 \<Rightarrow> mem \<Rightarrow> mem" where
  "stb_p p v m = m(p := ucast v)"

definition stw_le_p :: "u32 \<Rightarrow> u32 \<Rightarrow> mem \<Rightarrow> mem" where
  "stw_le_p p v m = m(p := ucast v, p + 1 := ucast (drop_bit 8 v))"

definition stl_le_p :: "u32 \<Rightarrow> u32 \<Rightarrow> mem \<Rightarrow> mem" where
  "stl_le_p p v m = m(p := ucast v, p + 1 := ucast (drop_bit 8 v),
     p + 2 := ucast (drop_bit 16 v), p + 3 := ucast (drop_bit 24 v))"

definition stq_le_p :: "u32 \<Rightarrow> u64 \<Rightarrow> mem \<Rightarrow> mem" where
  "stq_le_p p v m = stl_le_p (p + 4) (ucast (drop_bit 32 v)) (stl_le_p p (ucast v) m)"

text \<open>A value is read back from where it was written.\<close>

lemma ldub_stb: "ldub_p (stb_p p v m) p = take_bit 8 v"
  by (rule bit_word_eqI) (auto simp: ldub_p_def stb_p_def bit_simps)

lemma lduw_stw: "lduw_le_p (stw_le_p p v m) p = take_bit 16 v"
  by (rule bit_word_eqI) (auto simp: lduw_le_p_def stw_le_p_def bit_simps)

lemma ldl_stl [simp]: "ldl_le_p (stl_le_p p v m) p = v"
proof (rule bit_word_eqI)
  fix n assume "n < LENGTH(32)"
  then consider "n < 8" | "8 \<le> n" "n < 16" | "16 \<le> n" "n < 24" | "24 \<le> n" "n < 32" by fastforce
  then show "bit (ldl_le_p (stl_le_p p v m) p) n = bit v n"
    by cases (auto simp: ldl_le_p_def stl_le_p_def bit_simps)
qed

text \<open>An access elsewhere is not affected.\<close>

abbreviation bytes4 :: "u32 \<Rightarrow> u32 set" where
  "bytes4 p \<equiv> {p, p + 1, p + 2, p + 3}"

lemma stl_other: "q \<notin> bytes4 p \<Longrightarrow> stl_le_p p v m q = m q"
  by (simp add: stl_le_p_def)

lemma ldl_cong: "(\<And>a. a \<in> bytes4 q \<Longrightarrow> m a = m' a) \<Longrightarrow> ldl_le_p m q = ldl_le_p m' q"
  by (simp add: ldl_le_p_def)

lemma ldl_stl_other: "bytes4 p \<inter> bytes4 q = {} \<Longrightarrow> ldl_le_p (stl_le_p p v m) q = ldl_le_p m q"
  by (rule ldl_cong, rule stl_other) blast

lemma ldq_stq: "ldq_le_p (stq_le_p p v m) p = v"
proof -
  have d: "bytes4 (p + 4) \<inter> bytes4 p = {}" by (simp add: add.assoc)
  have "ldl_le_p (stq_le_p p v m) p = ucast v"
    unfolding stq_le_p_def ldl_stl_other [OF d] by simp
  moreover have "ldl_le_p (stq_le_p p v m) (p + 4) = ucast (drop_bit 32 v)"
    by (simp add: stq_le_p_def)
  ultimately show ?thesis
    by (intro bit_word_eqI) (auto simp: ldq_le_p_def bit_simps)
qed

end
