(* ===== verification/Pages.thy ===== *)
theory Pages
  imports LittleEndian
begin

text \<open>Pages of 4096 bytes: the page and the offset of a 32-bit address.\<close>

abbreviation TARGET_PAGE_MASK :: u32 where "TARGET_PAGE_MASK \<equiv> 0xfffff000"
abbreviation TARGET_PAGE_SIZE :: nat where "TARGET_PAGE_SIZE \<equiv> 4096"
abbreviation page_bits :: "u32 \<Rightarrow> u32" where "page_bits a \<equiv> a AND TARGET_PAGE_MASK"
abbreviation offset_bits :: "u32 \<Rightarrow> u32" where "offset_bits a \<equiv> a AND 0xfff"

lemma offset_less: "unat (offset_bits a) < TARGET_PAGE_SIZE"
proof -
  have "offset_bits a \<le> 0xfff" by (rule word_and_le1)
  then show ?thesis by (simp add: word_le_nat_alt)
qed

lemma unat_offset: "unat (offset_bits a) = unat a mod 4096"
proof -
  have "(0xfff :: u32) = mask 12" by (simp add: mask_eq_exp_minus_1)
  then have "a AND 0xfff = take_bit 12 a" by (simp only: take_bit_eq_mask)
  then show ?thesis by (simp add: take_bit_eq_mod unat_mod)
qed

lemma unat_page: "unat (drop_bit 12 a :: u32) = unat a div 4096"
  by (simp add: drop_bit_eq_div unat_div)

lemma page_mask: "(0xfffff000 :: u32) = NOT (mask 12)" "(0xfff :: u32) = mask 12"
  by (simp_all add: mask_eq_exp_minus_1)

lemma page_plus_offset: "page_bits a + offset_bits a = a"
proof -
  have "a AND NOT (mask 12) = push_bit 12 (drop_bit 12 a)"
    by (rule bit_word_eqI) (auto simp: bit_simps)
  moreover have "a AND mask 12 = take_bit 12 a" by (simp add: take_bit_eq_mask)
  ultimately show ?thesis by (simp only: page_mask bits_ident)
qed

lemma unat_page_bits: "unat (page_bits a) = unat a - unat a mod 4096"
proof -
  have le: "offset_bits a \<le> a" by (simp add: word_and_le2)
  have "page_bits a = a - offset_bits a" using page_plus_offset [of a] by (simp add: eq_diff_eq)
  then show ?thesis using le by (simp add: unat_sub unat_offset)
qed

lemma in_page:
  assumes "unat (offset_bits a) + i < 4096"
  shows "unat (a + of_nat i) = unat a + i" "page_bits (a + of_nat i) = page_bits a"
    "offset_bits (a + of_nat i) = offset_bits a + of_nat i" "drop_bit 12 (a + of_nat i) = drop_bit 12 a"
proof -
  have d: "unat a mod 4096 + i < 4096" using assms by (simp only: unat_offset)
  have "unat a < 1048576 * 4096" using unat_less_pow32 [of a] by simp
  then have "unat a div 4096 < 1048576" by (rule less_mult_imp_div_less)
  then have "unat a + i < 4096 * 1048576"
    using d div_mult_mod_eq [of "unat a" 4096] by linarith
  then have i: "unat (of_nat i :: u32) = i" "unat a + i < 2 ^ 32" using d by (simp_all add: unat_of_nat)
  then show u: "unat (a + of_nat i) = unat a + i" by (simp add: unat_add_no_wrap32)
  have m: "(unat a + i) mod 4096 = unat a mod 4096 + i"
    using d by (metis mod_add_left_eq mod_less)
  have dv: "(unat a + i) div 4096 = unat a div 4096"
    using d by (simp add: div_add1_eq [of "unat a" i])
  show "page_bits (a + of_nat i) = page_bits a"
    by (rule word_unat_eq_iff [THEN iffD2]) (simp add: unat_page_bits u m)
  show "drop_bit 12 (a + of_nat i) = drop_bit 12 a"
    by (rule word_unat_eq_iff [THEN iffD2]) (simp only: unat_page u dv)
  have "unat (offset_bits a + of_nat i) = unat a mod 4096 + i"
    using d i by (simp add: unat_add_no_wrap32 unat_offset)
  then show "offset_bits (a + of_nat i) = offset_bits a + of_nat i"
    by (intro word_unat_eq_iff [THEN iffD2]) (simp only: unat_offset u m)
qed

end
