(* ===== verification/ExecPhys.thy ===== *)
theory ExecPhys
  imports Pages
begin

text \<open>
  The emulator's physical memory (\<^verbatim>\<open>exec.c\<close>, system emulation of a 32-bit little-endian
  target on a 32-bit host with one CPU): the table of page descriptors, the accessors for
  physical addresses, and the debug access through the virtual address space that MemCheck
  reads the guest with.
\<close>

section \<open>State\<close>

text \<open>
  \<open>l1_phys_map\<close> is the first level of the descriptor table; an entry that is not \<open>NULL\<close>
  points to 1024 descriptors. Host memory is \<open>phys_ram\<close>, addressed by the offset from
  \<open>phys_ram_base\<close>. Later theories extend the record by the TLB and the CPU.
\<close>

record phys =
  l1_phys_map :: "nat \<rightharpoonup> (nat \<Rightarrow> u32)"
  phys_ram_base :: u32
  phys_ram :: mem
  phys_ram_dirty :: "u32 \<Rightarrow> u8"

text \<open>
  What lies outside: the functions that devices have installed in \<^verbatim>\<open>io_mem_read\<close> and
  \<^verbatim>\<open>io_mem_write\<close> (with their opaque pointer), by region number and width index, and the
  invalidation of translated code.
\<close>

record 'q board =
  io_mem_read :: "nat \<Rightarrow> nat \<Rightarrow> u32 \<Rightarrow> 'q \<Rightarrow> u32 \<times> 'q"
  io_mem_write :: "nat \<Rightarrow> nat \<Rightarrow> u32 \<Rightarrow> u32 \<Rightarrow> 'q \<Rightarrow> 'q"
  tb_invalidate_phys_page_range :: "u32 \<Rightarrow> u32 \<Rightarrow> bool \<Rightarrow> 'q \<Rightarrow> 'q"

abbreviation IO_MEM_RAM :: u32 where "IO_MEM_RAM \<equiv> 0"
abbreviation IO_MEM_ROM :: u32 where "IO_MEM_ROM \<equiv> 0x10"
abbreviation IO_MEM_UNASSIGNED :: u32 where "IO_MEM_UNASSIGNED \<equiv> 0x20"
abbreviation IO_MEM_NOTDIRTY :: u32 where "IO_MEM_NOTDIRTY \<equiv> 0x40"
abbreviation IO_MEM_ROMD :: u32 where "IO_MEM_ROMD \<equiv> 1"
abbreviation CODE_DIRTY_FLAG :: u8 where "CODE_DIRTY_FLAG \<equiv> 2"

section \<open>Page descriptors\<close>

definition phys_page_find :: "u32 \<Rightarrow> 'a phys_scheme \<Rightarrow> u32 option" where
  "phys_page_find index q =
     (case l1_phys_map q (unat (drop_bit 10 index AND 0x3ff)) of
        None \<Rightarrow> None
      | Some pd \<Rightarrow> Some (pd (unat (index AND 0x3ff))))"

text \<open>With \<open>alloc\<close>, a missing second-level table is created with every page unassigned.\<close>

definition phys_page_find_alloc :: "u32 \<Rightarrow> 'a phys_scheme \<Rightarrow> 'a phys_scheme" where
  "phys_page_find_alloc index q =
     (case l1_phys_map q (unat (drop_bit 10 index AND 0x3ff)) of
        None \<Rightarrow> q\<lparr>l1_phys_map := (l1_phys_map q)
                  (unat (drop_bit 10 index AND 0x3ff) \<mapsto> (\<lambda>_. IO_MEM_UNASSIGNED))\<rparr>
      | Some _ \<Rightarrow> q)"

definition cpu_get_physical_page_desc :: "u32 \<Rightarrow> 'a phys_scheme \<Rightarrow> u32" where
  "cpu_get_physical_page_desc addr q =
     (case phys_page_find (drop_bit 12 addr) q of
        None \<Rightarrow> IO_MEM_UNASSIGNED
      | Some phys_offset \<Rightarrow> phys_offset)"

definition is_io_read :: "u32 \<Rightarrow> bool" where
  "is_io_read pd \<longleftrightarrow> IO_MEM_ROM < offset_bits pd \<and> pd AND IO_MEM_ROMD = 0"

definition io_region :: "u32 \<Rightarrow> nat" where
  "io_region pd = unat (drop_bit 4 pd AND 0xff)"

definition ram_offset :: "u32 \<Rightarrow> u32 \<Rightarrow> u32" where
  "ram_offset pd addr = page_bits pd + offset_bits addr"

definition cpu_physical_memory_is_dirty :: "u32 \<Rightarrow> 'a phys_scheme \<Rightarrow> bool" where
  "cpu_physical_memory_is_dirty addr q \<longleftrightarrow> phys_ram_dirty q (drop_bit 12 addr) = 0xff"

section \<open>Loads\<close>

definition ldl_phys :: "('a phys_scheme) board \<Rightarrow> u32 \<Rightarrow> 'a phys_scheme \<Rightarrow> u32 \<times> 'a phys_scheme" where
  "ldl_phys B addr q =
     (let pd = cpu_get_physical_page_desc addr q in
      if is_io_read pd then io_mem_read B (io_region pd) 2 addr q
      else (ldl_le_p (phys_ram q) (ram_offset pd addr), q))"

definition ldq_phys :: "('a phys_scheme) board \<Rightarrow> u32 \<Rightarrow> 'a phys_scheme \<Rightarrow> u64 \<times> 'a phys_scheme" where
  "ldq_phys B addr q =
     (let pd = cpu_get_physical_page_desc addr q in
      if is_io_read pd then
        (case io_mem_read B (io_region pd) 2 addr q of
           (lo, q1) \<Rightarrow> case io_mem_read B (io_region pd) 2 (addr + 4) q1 of
             (hi, q2) \<Rightarrow> (ucast lo OR push_bit 32 (ucast hi), q2))
      else (ldq_le_p (phys_ram q) (ram_offset pd addr), q))"

text \<open>The bytes of a value in the buffer, lowest first.\<close>

definition le_bytes :: "nat \<Rightarrow> u32 \<Rightarrow> u8 list" where
  "le_bytes n v = map (\<lambda>i. ucast (drop_bit (8 * i) v)) [0..<n]"

definition le_word :: "u8 list \<Rightarrow> u32" where
  "le_word bs = (\<Sum>i<length bs. ucast (bs ! i) * 2 ^ (8 * i))"

definition chunk :: "u32 \<Rightarrow> nat \<Rightarrow> nat" where
  "chunk addr len = min (TARGET_PAGE_SIZE - unat (offset_bits addr)) len"

lemma chunk_pos: "0 < len \<Longrightarrow> 0 < chunk addr len"
  using offset_less [of addr] by (simp add: chunk_def)

lemma chunk_le: "chunk addr len \<le> len"
  by (simp add: chunk_def)

text \<open>\<^verbatim>\<open>cpu_physical_memory_rw\<close>, reading: the content of the buffer and the state after it.\<close>

function phys_read ::
  "('a phys_scheme) board \<Rightarrow> u32 \<Rightarrow> nat \<Rightarrow> 'a phys_scheme \<Rightarrow> u8 list \<times> 'a phys_scheme" where
  "phys_read B addr len q =
     (if len = 0 then ([], q)
      else
        let l = chunk addr len; pd = cpu_get_physical_page_desc addr q in
        if is_io_read pd then
          let w = (if 4 \<le> l \<and> addr AND 3 = 0 then 2 else if 2 \<le> l \<and> addr AND 1 = 0 then 1 else 0) in
          case io_mem_read B (io_region pd) w addr q of
            (val, q1) \<Rightarrow> case phys_read B (addr + 2 ^ w) (len - 2 ^ w) q1 of
              (bs, q2) \<Rightarrow> (le_bytes (2 ^ w) val @ bs, q2)
        else
          case phys_read B (addr + of_nat l) (len - l) q of
            (bs, q2) \<Rightarrow> (map (\<lambda>i. phys_ram q (ram_offset pd addr + of_nat i)) [0..<l] @ bs, q2))"
  by pat_completeness auto
termination
  by (relation "measure (\<lambda>(B, addr, len, q). len)") (use chunk_pos in auto)

declare phys_read.simps [simp del]

definition ldub_phys :: "('a phys_scheme) board \<Rightarrow> u32 \<Rightarrow> 'a phys_scheme \<Rightarrow> u32 \<times> 'a phys_scheme" where
  "ldub_phys B addr q = (case phys_read B addr 1 q of (bs, q') \<Rightarrow> (le_word bs, q'))"

definition lduw_phys :: "('a phys_scheme) board \<Rightarrow> u32 \<Rightarrow> 'a phys_scheme \<Rightarrow> u32 \<times> 'a phys_scheme" where
  "lduw_phys B addr q = (case phys_read B addr 2 q of (bs, q') \<Rightarrow> (le_word bs, q'))"

section \<open>Stores\<close>

text \<open>\<^verbatim>\<open>memcpy\<close> into host memory at an offset.\<close>

definition ram_copy :: "u32 \<Rightarrow> u8 list \<Rightarrow> mem \<Rightarrow> mem" where
  "ram_copy a bs m = fold (\<lambda>i m. m(a + of_nat i := bs ! i)) [0..<length bs] m"

text \<open>After a store to a page that is not dirty: its code is invalidated, then it is marked.\<close>

definition mark_written ::
  "('a phys_scheme) board \<Rightarrow> u32 \<Rightarrow> u32 \<Rightarrow> 'a phys_scheme \<Rightarrow> 'a phys_scheme" where
  "mark_written B addr1 len q =
     (if cpu_physical_memory_is_dirty addr1 q then q
      else
        let q1 = tb_invalidate_phys_page_range B addr1 (addr1 + len) False q in
        q1\<lparr>phys_ram_dirty := (phys_ram_dirty q1)(drop_bit 12 addr1 :=
             phys_ram_dirty q1 (drop_bit 12 addr1) OR (0xff AND NOT CODE_DIRTY_FLAG))\<rparr>)"

text \<open>\<^verbatim>\<open>cpu_physical_memory_rw\<close>, writing the bytes of the buffer.\<close>

function phys_write ::
  "('a phys_scheme) board \<Rightarrow> u32 \<Rightarrow> u8 list \<Rightarrow> 'a phys_scheme \<Rightarrow> 'a phys_scheme" where
  "phys_write B addr buf q =
     (if buf = [] then q
      else
        let l = chunk addr (length buf); pd = cpu_get_physical_page_desc addr q in
        if offset_bits pd \<noteq> IO_MEM_RAM then
          let w = (if 4 \<le> l \<and> addr AND 3 = 0 then 2 else if 2 \<le> l \<and> addr AND 1 = 0 then 1 else 0) in
          phys_write B (addr + 2 ^ w) (drop (2 ^ w) buf)
            (io_mem_write B (io_region pd) w addr (le_word (take (2 ^ w) buf)) q)
        else
          phys_write B (addr + of_nat l) (drop l buf)
            (mark_written B (ram_offset pd addr) (of_nat l)
               (q\<lparr>phys_ram := ram_copy (ram_offset pd addr) (take l buf) (phys_ram q)\<rparr>)))"
  by pat_completeness auto
termination
  by (relation "measure (\<lambda>(B, addr, buf, q). length buf)") (use chunk_pos in auto)

declare phys_write.simps [simp del]

definition cpu_physical_memory_rw ::
  "('a phys_scheme) board \<Rightarrow> u32 \<Rightarrow> u8 list \<Rightarrow> bool \<Rightarrow> 'a phys_scheme \<Rightarrow> u8 list \<times> 'a phys_scheme" where
  "cpu_physical_memory_rw B addr buf is_write q =
     (if is_write then (buf, phys_write B addr buf q) else phys_read B addr (length buf) q)"

text \<open>Loading of ROM images: RAM, ROM and ROM devices are written, other pages skipped.\<close>

function cpu_physical_memory_write_rom :: "u32 \<Rightarrow> u8 list \<Rightarrow> 'a phys_scheme \<Rightarrow> 'a phys_scheme" where
  "cpu_physical_memory_write_rom addr buf q =
     (if buf = [] then q
      else
        let l = chunk addr (length buf); pd = cpu_get_physical_page_desc addr q in
        cpu_physical_memory_write_rom (addr + of_nat l) (drop l buf)
          (if offset_bits pd \<noteq> IO_MEM_RAM \<and> offset_bits pd \<noteq> IO_MEM_ROM \<and> pd AND IO_MEM_ROMD = 0
           then q
           else q\<lparr>phys_ram := ram_copy (ram_offset pd addr) (take l buf) (phys_ram q)\<rparr>))"
  by pat_completeness auto
termination
  by (relation "measure (\<lambda>(addr, buf, q). length buf)") (use chunk_pos in auto)

declare cpu_physical_memory_write_rom.simps [simp del]

definition stl_phys_notdirty ::
  "('a phys_scheme) board \<Rightarrow> u32 \<Rightarrow> u32 \<Rightarrow> 'a phys_scheme \<Rightarrow> 'a phys_scheme" where
  "stl_phys_notdirty B addr val q =
     (let pd = cpu_get_physical_page_desc addr q in
      if offset_bits pd \<noteq> IO_MEM_RAM then io_mem_write B (io_region pd) 2 addr val q
      else q\<lparr>phys_ram := stl_le_p (ram_offset pd addr) val (phys_ram q)\<rparr>)"

definition stq_phys_notdirty ::
  "('a phys_scheme) board \<Rightarrow> u32 \<Rightarrow> u64 \<Rightarrow> 'a phys_scheme \<Rightarrow> 'a phys_scheme" where
  "stq_phys_notdirty B addr val q =
     (let pd = cpu_get_physical_page_desc addr q in
      if offset_bits pd \<noteq> IO_MEM_RAM then
        io_mem_write B (io_region pd) 2 (addr + 4) (ucast (drop_bit 32 val))
          (io_mem_write B (io_region pd) 2 addr (ucast val) q)
      else q\<lparr>phys_ram := stq_le_p (ram_offset pd addr) val (phys_ram q)\<rparr>)"

definition stl_phys ::
  "('a phys_scheme) board \<Rightarrow> u32 \<Rightarrow> u32 \<Rightarrow> 'a phys_scheme \<Rightarrow> 'a phys_scheme" where
  "stl_phys B addr val q =
     (let pd = cpu_get_physical_page_desc addr q in
      if offset_bits pd \<noteq> IO_MEM_RAM then io_mem_write B (io_region pd) 2 addr val q
      else mark_written B (ram_offset pd addr) 4
             (q\<lparr>phys_ram := stl_le_p (ram_offset pd addr) val (phys_ram q)\<rparr>))"

definition stb_phys :: "('a phys_scheme) board \<Rightarrow> u32 \<Rightarrow> u32 \<Rightarrow> 'a phys_scheme \<Rightarrow> 'a phys_scheme" where
  "stb_phys B addr val q = phys_write B addr (le_bytes 1 val) q"

definition stw_phys :: "('a phys_scheme) board \<Rightarrow> u32 \<Rightarrow> u32 \<Rightarrow> 'a phys_scheme \<Rightarrow> 'a phys_scheme" where
  "stw_phys B addr val q = phys_write B addr (le_bytes 2 val) q"

definition stq_phys :: "('a phys_scheme) board \<Rightarrow> u32 \<Rightarrow> u64 \<Rightarrow> 'a phys_scheme \<Rightarrow> 'a phys_scheme" where
  "stq_phys B addr val q =
     phys_write B addr (le_bytes 4 (ucast val) @ le_bytes 4 (ucast (drop_bit 32 val))) q"

section \<open>Virtual memory access for debugging\<close>

text \<open>
  \<open>gp\<close> is the target's \<^verbatim>\<open>cpu_get_phys_page_debug\<close>. The result is the return value, the
  buffer and the state; a page that is not mapped ends the access and the rest of the buffer
  is left as it was.
\<close>

function cpu_memory_rw_debug ::
  "('a phys_scheme) board \<Rightarrow> (u32 \<Rightarrow> 'a phys_scheme \<Rightarrow> u32 \<times> 'a phys_scheme) \<Rightarrow>
   u32 \<Rightarrow> u8 list \<Rightarrow> bool \<Rightarrow> 'a phys_scheme \<Rightarrow> int \<times> u8 list \<times> 'a phys_scheme" where
  "cpu_memory_rw_debug B gp addr buf is_write q =
     (if buf = [] then (0, [], q)
      else case gp (page_bits addr) q of
        (phys_addr, q1) \<Rightarrow>
          if phys_addr = -1 then (-1, buf, q1)
          else
            let l = chunk addr (length buf) in
            case cpu_physical_memory_rw B (phys_addr + offset_bits addr) (take l buf) is_write q1 of
              (b1, q2) \<Rightarrow>
                case cpu_memory_rw_debug B gp (addr + of_nat l) (drop l buf) is_write q2 of
                  (ret, b2, q3) \<Rightarrow> (ret, b1 @ b2, q3))"
  by pat_completeness auto
termination
  by (relation "measure (\<lambda>(B, gp, addr, buf, w, q). length buf)") (use chunk_pos in auto)

declare cpu_memory_rw_debug.simps [simp del]

end
