(* ===== verification/ExecPhysProps.thy ===== *)
theory ExecPhysProps
  imports ExecPhys
begin

text \<open>
  Physical memory as a map from addresses to bytes: on pages of RAM the chunked accesses of
  \<^verbatim>\<open>cpu_physical_memory_rw\<close> and the debug accesses read and write exactly the bytes of the
  range, whatever pages it spans.
\<close>

section \<open>RAM pages\<close>

definition readable :: "'a phys_scheme \<Rightarrow> u32 \<Rightarrow> bool" where
  "readable q a \<longleftrightarrow> \<not> is_io_read (cpu_get_physical_page_desc a q)"

definition writable :: "'a phys_scheme \<Rightarrow> u32 \<Rightarrow> bool" where
  "writable q a \<longleftrightarrow> offset_bits (cpu_get_physical_page_desc a q) = IO_MEM_RAM"

definition host_addr :: "'a phys_scheme \<Rightarrow> u32 \<Rightarrow> u32" where
  "host_addr q a = ram_offset (cpu_get_physical_page_desc a q) a"

definition ram_byte :: "'a phys_scheme \<Rightarrow> u32 \<Rightarrow> u8" where
  "ram_byte q a = phys_ram q (host_addr q a)"

lemma writable_readable: "writable q a \<Longrightarrow> readable q a"
  by (simp add: writable_def readable_def is_io_read_def)

lemma desc_cong:
  "l1_phys_map q = l1_phys_map q' \<Longrightarrow>
   cpu_get_physical_page_desc a q = cpu_get_physical_page_desc a q'"
  by (simp add: cpu_get_physical_page_desc_def phys_page_find_def)

lemma map_cong_l1:
  assumes "l1_phys_map q = l1_phys_map q'"
  shows "readable q a = readable q' a" "writable q a = writable q' a" "host_addr q a = host_addr q' a"
  using desc_cong [OF assms, of a] by (simp_all add: readable_def writable_def host_addr_def)

lemma in_chunk: "i < chunk a len \<Longrightarrow> unat (offset_bits a) + i < 4096"
  using offset_less [of a] by (auto simp: chunk_def)

lemma desc_in_page:
  "i < chunk a len \<Longrightarrow>
   cpu_get_physical_page_desc (a + of_nat i) q = cpu_get_physical_page_desc a q"
  using in_page(4) [OF in_chunk] by (simp add: cpu_get_physical_page_desc_def)

lemma host_addr_in_page:
  "i < chunk a len \<Longrightarrow> host_addr q (a + of_nat i) = host_addr q a + of_nat i"
  using in_page(3) [OF in_chunk, of i a len] desc_in_page [of i a len q] by (simp add: host_addr_def ram_offset_def)

text \<open>A range is its first chunk and the rest.\<close>

lemma upt_chunk:
  "map f [0..<len] =
   map f [0..<chunk a len] @ map (\<lambda>i. f (chunk a len + i)) [0..<len - chunk a len]"
  by (rule nth_equalityI) (use chunk_le [of a len] in \<open>auto simp: nth_append\<close>)

section \<open>Reading\<close>

lemma phys_read_ram:
  "\<forall>i<len. readable q (addr + of_nat i) \<Longrightarrow>
   phys_read B addr len q = (map (\<lambda>i. ram_byte q (addr + of_nat i)) [0..<len], q)"
proof (induction len arbitrary: addr rule: less_induct)
  case (less len)
  show ?case
  proof (cases "len = 0")
    case True
    then show ?thesis by (simp add: phys_read.simps)
  next
    case False
    let ?l = "chunk addr len" and ?pd = "cpu_get_physical_page_desc addr q"
    have l: "0 < ?l" "?l \<le> len" using False by (simp_all add: chunk_pos chunk_le)
    have rd: "\<not> is_io_read ?pd" using less.prems False by (auto simp: readable_def)
    have rest: "phys_read B (addr + of_nat ?l) (len - ?l) q =
        (map (\<lambda>i. ram_byte q (addr + of_nat (?l + i))) [0..<len - ?l], q)"
    proof -
      have "\<forall>i<len - ?l. readable q (addr + of_nat ?l + of_nat i)"
        using less.prems l by (metis add.assoc less_diff_conv add.commute of_nat_add)
      from less.IH [OF _ this] show ?thesis using l by (simp add: add.assoc)
    qed
    have "map (\<lambda>i. phys_ram q (ram_offset ?pd addr + of_nat i)) [0..<?l] =
        map (\<lambda>i. ram_byte q (addr + of_nat i)) [0..<?l]"
      by (rule map_cong) (simp_all add: ram_byte_def host_addr_in_page, simp add: host_addr_def)
    then show ?thesis
      using False rd rest
      by (subst phys_read.simps) (simp add: upt_chunk [of _ len addr] Let_def)
  qed
qed

section \<open>Writing\<close>

lemma ram_copy_apply:
  assumes "length bs \<le> 2 ^ 32"
  shows "ram_copy a bs m x = (if unat (x - a) < length bs then bs ! unat (x - a) else m x)"
proof -
  have "fold (\<lambda>i m. m(a + of_nat i := bs ! i)) [0..<n] m x =
      (if unat (x - a) < n then bs ! unat (x - a) else m x)" if "n \<le> length bs" for n
    using that
  proof (induction n)
    case 0
    then show ?case by simp
  next
    case (Suc n)
    then have n: "n < 2 ^ 32" using assms by simp
    have "x = a + of_nat n \<longleftrightarrow> unat (x - a) = n"
    proof
      assume "x = a + of_nat n"
      then show "unat (x - a) = n" using n by (simp add: unat_of_nat)
    next
      assume u: "unat (x - a) = n"
      have "of_nat n = x - a" by (simp flip: u)
      then show "x = a + of_nat n" by simp
    qed
    then show ?case using Suc by (auto simp: less_Suc_eq)
  qed
  then show ?thesis by (simp add: ram_copy_def)
qed

text \<open>
  What the memory relies on: invalidating translated code does not touch guest memory and its
  page table.
\<close>

definition tb_frame :: "('a phys_scheme) board \<Rightarrow> bool" where
  "tb_frame B \<longleftrightarrow> (\<forall>s e w q. phys_ram (tb_invalidate_phys_page_range B s e w q) = phys_ram q \<and>
     l1_phys_map (tb_invalidate_phys_page_range B s e w q) = l1_phys_map q)"

lemma mark_written_frame:
  "tb_frame B \<Longrightarrow> phys_ram (mark_written B a n q) = phys_ram q"
  "tb_frame B \<Longrightarrow> l1_phys_map (mark_written B a n q) = l1_phys_map q"
  by (simp_all add: tb_frame_def mark_written_def Let_def)

text \<open>The host bytes of a range, each written once.\<close>

definition distinct_ram :: "'a phys_scheme \<Rightarrow> u32 \<Rightarrow> nat \<Rightarrow> bool" where
  "distinct_ram q addr n \<longleftrightarrow> inj_on (\<lambda>i. host_addr q (addr + of_nat i)) {..<n}"

text \<open>One round of the loop.\<close>

definition write_chunk ::
  "('a phys_scheme) board \<Rightarrow> u32 \<Rightarrow> u8 list \<Rightarrow> 'a phys_scheme \<Rightarrow> 'a phys_scheme" where
  "write_chunk B addr buf q =
     (let l = chunk addr (length buf) in
      mark_written B (host_addr q addr) (of_nat l)
        (q\<lparr>phys_ram := ram_copy (host_addr q addr) (take l buf) (phys_ram q)\<rparr>))"

lemma phys_write_step:
  "buf \<noteq> [] \<Longrightarrow> writable q addr \<Longrightarrow>
   phys_write B addr buf q =
   phys_write B (addr + of_nat (chunk addr (length buf))) (drop (chunk addr (length buf)) buf)
     (write_chunk B addr buf q)"
  by (subst phys_write.simps) (simp add: writable_def write_chunk_def host_addr_def Let_def)

lemma write_chunk_frame:
  assumes "tb_frame B" "length buf \<le> 2 ^ 32" "l = chunk addr (length buf)"
  shows "l1_phys_map (write_chunk B addr buf q) = l1_phys_map q"
    and "i < l \<Longrightarrow> phys_ram (write_chunk B addr buf q) (host_addr q (addr + of_nat i)) = buf ! i"
    and "(\<And>i. i < l \<Longrightarrow> x \<noteq> host_addr q (addr + of_nat i)) \<Longrightarrow>
      phys_ram (write_chunk B addr buf q) x = phys_ram q x"
proof -
  have l: "l \<le> length buf" by (simp add: assms(3) chunk_le)
  have len: "length (take l buf) = l" using l by simp
  show "l1_phys_map (write_chunk B addr buf q) = l1_phys_map q"
    by (simp add: write_chunk_def mark_written_frame [OF assms(1)] Let_def)
  have ram: "phys_ram (write_chunk B addr buf q) x =
      (if unat (x - host_addr q addr) < l then buf ! unat (x - host_addr q addr) else phys_ram q x)" for x
    using ram_copy_apply [of "take l buf" "host_addr q addr"] l assms(2)
    by (simp add: write_chunk_def mark_written_frame [OF assms(1)] Let_def assms(3) [symmetric])
  have at: "host_addr q (addr + of_nat i) = host_addr q addr + of_nat i" if "i < l" for i
    using host_addr_in_page that by (simp add: assms(3))
  show "phys_ram (write_chunk B addr buf q) (host_addr q (addr + of_nat i)) = buf ! i" if "i < l"
    using that l assms(2) by (simp add: ram at unat_of_nat)
  show "phys_ram (write_chunk B addr buf q) x = phys_ram q x"
    if no: "\<And>i. i < l \<Longrightarrow> x \<noteq> host_addr q (addr + of_nat i)"
  proof -
    have "\<not> unat (x - host_addr q addr) < l"
    proof
      assume u: "unat (x - host_addr q addr) < l"
      have "x = host_addr q (addr + of_nat (unat (x - host_addr q addr)))" unfolding at [OF u] by simp
      with no [OF u] show False by blast
    qed
    then show ?thesis by (simp add: ram)
  qed
qed

lemma distinct_ram_shift:
  assumes "distinct_ram q addr (l + n)"
  shows "distinct_ram q (addr + of_nat l) n"
    and "i < l \<Longrightarrow> j < n \<Longrightarrow> host_addr q (addr + of_nat i) \<noteq> host_addr q (addr + of_nat l + of_nat j)"
proof -
  let ?f = "\<lambda>i. host_addr q (addr + of_nat i)"
  have inj: "inj_on ?f {..<l + n}" using assms by (simp add: distinct_ram_def)
  have "inj_on (\<lambda>i. ?f (l + i)) {..<n}"
  proof (rule inj_onI)
    fix x y assume "x \<in> {..<n}" "y \<in> {..<n}" "?f (l + x) = ?f (l + y)"
    then show "x = y" using inj_onD [OF inj, of "l + x" "l + y"] by simp
  qed
  then show "distinct_ram q (addr + of_nat l) n" by (simp add: distinct_ram_def add.assoc)
  show "?f i \<noteq> host_addr q (addr + of_nat l + of_nat j)" if "i < l" "j < n"
    using inj_onD [OF inj, of i "l + j"] that by (auto simp: add.assoc)
qed

definition write_ok :: "('a phys_scheme) board \<Rightarrow> u32 \<Rightarrow> u8 list \<Rightarrow> 'a phys_scheme \<Rightarrow> 'a phys_scheme \<Rightarrow> bool" where
  "write_ok B addr buf q q' \<longleftrightarrow> l1_phys_map q' = l1_phys_map q \<and>
     (\<forall>i<length buf. phys_ram q' (host_addr q (addr + of_nat i)) = buf ! i) \<and>
     (\<forall>x. (\<forall>i<length buf. x \<noteq> host_addr q (addr + of_nat i)) \<longrightarrow> phys_ram q' x = phys_ram q x)"

lemma phys_write_ram:
  "tb_frame B \<Longrightarrow> length buf \<le> 2 ^ 32 \<Longrightarrow> \<forall>i<length buf. writable q (addr + of_nat i) \<Longrightarrow>
   distinct_ram q addr (length buf) \<Longrightarrow> write_ok B addr buf q (phys_write B addr buf q)"
proof (induction "length buf" arbitrary: addr buf q rule: less_induct)
  case less
  show ?case
  proof (cases "buf = []")
    case True
    then show ?thesis by (simp add: phys_write.simps write_ok_def)
  next
    case False
    let ?l = "chunk addr (length buf)" and ?q1 = "write_chunk B addr buf q"
    let ?q' = "phys_write B addr buf q"
    have l: "0 < ?l" "?l \<le> length buf" using False by (simp_all add: chunk_pos chunk_le)
    have sh: "addr + of_nat ?l + of_nat i = addr + of_nat (?l + i)" for i by (simp add: add.assoc)
    have up: "?l + i < length buf" if "i < length buf - ?l" for i using that by simp
    have "writable q (addr + of_nat 0)" using less.prems(3) False by blast
    then have w0: "writable q addr" by simp
    note f = write_chunk_frame [OF less.prems(1,2) refl, where addr = addr and q = q]
    note c = map_cong_l1 [OF f(1)]
    have d: "distinct_ram q addr (?l + (length buf - ?l))" using less.prems(4) l by simp
    note ds = distinct_ram_shift [OF d]
    have "\<forall>i<length buf - ?l. writable ?q1 (addr + of_nat ?l + of_nat i)"
      unfolding sh c(2) using less.prems(3) up by blast
    moreover have "distinct_ram ?q1 (addr + of_nat ?l) (length buf - ?l)"
      using ds(1) by (simp add: distinct_ram_def c(3))
    ultimately have ih: "write_ok B (addr + of_nat ?l) (drop ?l buf) ?q1 ?q'"
      using less.hyps [of "drop ?l buf" ?q1 "addr + of_nat ?l"] less.prems(1,2) l
      by (simp add: phys_write_step [OF False w0])
    have lo: "phys_ram ?q' (host_addr q (addr + of_nat i)) = buf ! i" if "i < ?l" for i
      using ih ds(2) [OF that] f(2) [OF that] by (simp add: write_ok_def c(3))
    have hi: "phys_ram ?q' (host_addr q (addr + of_nat i)) = buf ! i" if i: "?l \<le> i" "i < length buf" for i
    proof -
      define j where "j = i - ?l"
      then have "i = ?l + j" "j < length buf - ?l" using i by simp_all
      moreover have "drop ?l buf ! j = buf ! (?l + j)" using l(2) by simp
      ultimately show ?thesis using ih unfolding write_ok_def sh c(3) by (metis length_drop)
    qed
    have out: "phys_ram ?q' x = phys_ram q x" if x: "\<forall>i<length buf. x \<noteq> host_addr q (addr + of_nat i)" for x
    proof -
      have "\<forall>i<length buf - ?l. x \<noteq> host_addr ?q1 (addr + of_nat ?l + of_nat i)"
        unfolding sh c(3) using x up by blast
      then have "phys_ram ?q' x = phys_ram ?q1 x" using ih by (simp add: write_ok_def)
      also have "\<dots> = phys_ram q x" using f(3) [of x] x l by simp
      finally show ?thesis .
    qed
    have all: "phys_ram ?q' (host_addr q (addr + of_nat i)) = buf ! i" if "i < length buf" for i
      using lo [of i] hi [of i] that by (cases "i < ?l") simp_all
    have "l1_phys_map ?q' = l1_phys_map q" using ih f(1) by (simp add: write_ok_def)
    then show ?thesis using all out by (simp add: write_ok_def)
  qed
qed

end
