(* ===== verification/ExecTLB.thy ===== *)
theory ExecTLB
  imports ExecPhysProps
begin

text \<open>
  The software TLB (\<^verbatim>\<open>cpu-defs.h\<close>, \<^verbatim>\<open>exec.c\<close>): direct-mapped tables of 256 entries for
  the two MMU modes of i386, their maintenance, and the tracking of dirty pages through them.
  The acceleration module kqemu is disabled.
\<close>

section \<open>State\<close>

text \<open>
  The low twelve bits of an address field are zero for RAM; otherwise they hold the number of
  an I/O region. Bit 3 marks an invalid entry.
\<close>

record CPUTLBEntry =
  addr_read :: u32
  addr_write :: u32
  addr_code :: u32
  addend :: u32

record watchpoint =
  wp_vaddr :: u32
  wp_addend :: u32

text \<open>\<open>CPU_COMMON\<close>: pointers to translation blocks are block numbers, \<open>None\<close> is \<open>NULL\<close>.\<close>

record cpu_common = phys +
  current_tb :: "nat option"
  mem_write_pc :: u32
  mem_write_vaddr :: u32
  tlb_table :: "nat \<Rightarrow> nat \<Rightarrow> CPUTLBEntry"
  tb_jmp_cache :: "nat \<Rightarrow> nat option"
  watchpoints :: "watchpoint list"
  io_mem_watch :: u32
  tlb_flush_count :: u32
  last_io_time :: u64

abbreviation TLB_INVALID_MASK :: u32 where "TLB_INVALID_MASK \<equiv> 8"
abbreviation NB_MMU_MODES :: nat where "NB_MMU_MODES \<equiv> 2"
abbreviation CPU_TLB_SIZE :: nat where "CPU_TLB_SIZE \<equiv> 256"
abbreviation PAGE_READ :: u32 where "PAGE_READ \<equiv> 1"
abbreviation PAGE_WRITE :: u32 where "PAGE_WRITE \<equiv> 2"
abbreviation PAGE_EXEC :: u32 where "PAGE_EXEC \<equiv> 4"

definition tlb_index :: "u32 \<Rightarrow> nat" where
  "tlb_index addr = unat (drop_bit 12 addr AND 0xff)"

text \<open>A loop over the entries of all modes, and a change of one entry.\<close>

definition tlb_map :: "(CPUTLBEntry \<Rightarrow> CPUTLBEntry) \<Rightarrow> 'a cpu_common_scheme \<Rightarrow> 'a cpu_common_scheme" where
  "tlb_map f q = q\<lparr>tlb_table := (\<lambda>m i. if m < NB_MMU_MODES \<and> i < CPU_TLB_SIZE
      then f (tlb_table q m i) else tlb_table q m i)\<rparr>"

definition tlb_map_index ::
  "nat \<Rightarrow> (CPUTLBEntry \<Rightarrow> CPUTLBEntry) \<Rightarrow> 'a cpu_common_scheme \<Rightarrow> 'a cpu_common_scheme" where
  "tlb_map_index i f q = q\<lparr>tlb_table := (\<lambda>m j. if m < NB_MMU_MODES \<and> j = i
      then f (tlb_table q m j) else tlb_table q m j)\<rparr>"

section \<open>Flushing\<close>

definition invalid_entry :: "CPUTLBEntry \<Rightarrow> CPUTLBEntry" where
  "invalid_entry te = te\<lparr>addr_read := -1, addr_write := -1, addr_code := -1\<rparr>"

definition tlb_flush :: "'a cpu_common_scheme \<Rightarrow> 'a cpu_common_scheme" where
  "tlb_flush q =
     (let q1 = tlb_map invalid_entry (q\<lparr>current_tb := None\<rparr>) in
      q1\<lparr>tb_jmp_cache := (\<lambda>i. if i < 4096 then None else tb_jmp_cache q1 i),
         tlb_flush_count := tlb_flush_count q1 + 1\<rparr>)"

definition tlb_flush_entry :: "u32 \<Rightarrow> CPUTLBEntry \<Rightarrow> CPUTLBEntry" where
  "tlb_flush_entry addr te =
     (if addr = addr_read te AND (TARGET_PAGE_MASK OR TLB_INVALID_MASK) \<or>
         addr = addr_write te AND (TARGET_PAGE_MASK OR TLB_INVALID_MASK) \<or>
         addr = addr_code te AND (TARGET_PAGE_MASK OR TLB_INVALID_MASK)
      then invalid_entry te else te)"

definition tb_jmp_cache_hash_page :: "u32 \<Rightarrow> nat" where
  "tb_jmp_cache_hash_page pc = unat (drop_bit 6 (pc XOR drop_bit 6 pc) AND 0xfc0)"

definition clear_jmp_page :: "nat \<Rightarrow> 'a cpu_common_scheme \<Rightarrow> 'a cpu_common_scheme" where
  "clear_jmp_page h q =
     q\<lparr>tb_jmp_cache := (\<lambda>i. if h \<le> i \<and> i < h + 64 then None else tb_jmp_cache q i)\<rparr>"

definition tlb_flush_page :: "u32 \<Rightarrow> 'a cpu_common_scheme \<Rightarrow> 'a cpu_common_scheme" where
  "tlb_flush_page addr q =
     (let a = page_bits addr;
          q1 = tlb_map_index (tlb_index a) (tlb_flush_entry a) (q\<lparr>current_tb := None\<rparr>) in
      clear_jmp_page (tb_jmp_cache_hash_page a)
        (clear_jmp_page (tb_jmp_cache_hash_page (a - 0x1000)) q1))"

section \<open>Dirty tracking\<close>

definition tlb_reset_dirty_range :: "u32 \<Rightarrow> u32 \<Rightarrow> CPUTLBEntry \<Rightarrow> CPUTLBEntry" where
  "tlb_reset_dirty_range start len0 te =
     (if offset_bits (addr_write te) = IO_MEM_RAM \<and>
         page_bits (addr_write te) + addend te - start < len0
      then te\<lparr>addr_write := page_bits (addr_write te) OR IO_MEM_NOTDIRTY\<rparr> else te)"

definition TARGET_PAGE_ALIGN :: "u32 \<Rightarrow> u32" where
  "TARGET_PAGE_ALIGN a = page_bits (a + 0xfff)"

definition cpu_physical_memory_reset_dirty ::
  "u32 \<Rightarrow> u32 \<Rightarrow> u8 \<Rightarrow> 'a cpu_common_scheme \<Rightarrow> 'a cpu_common_scheme" where
  "cpu_physical_memory_reset_dirty start0 end0 dirty_flags q =
     (let start = page_bits start0; len0 = TARGET_PAGE_ALIGN end0 - start in
      if len0 = 0 then q
      else
        let first = drop_bit 12 start; len = drop_bit 12 len0 in
        tlb_map (tlb_reset_dirty_range (start + phys_ram_base q) len0)
          (q\<lparr>phys_ram_dirty := (\<lambda>p. if p - first < len
               then phys_ram_dirty q p AND NOT dirty_flags else phys_ram_dirty q p)\<rparr>))"

definition tlb_protect_code :: "u32 \<Rightarrow> 'a cpu_common_scheme \<Rightarrow> 'a cpu_common_scheme" where
  "tlb_protect_code ram_addr q =
     cpu_physical_memory_reset_dirty ram_addr (ram_addr + 0x1000) CODE_DIRTY_FLAG q"

definition tlb_unprotect_code_phys :: "u32 \<Rightarrow> 'a cpu_common_scheme \<Rightarrow> 'a cpu_common_scheme" where
  "tlb_unprotect_code_phys ram_addr q =
     q\<lparr>phys_ram_dirty := (phys_ram_dirty q)(drop_bit 12 ram_addr :=
         phys_ram_dirty q (drop_bit 12 ram_addr) OR CODE_DIRTY_FLAG)\<rparr>"

definition tlb_update_dirty :: "'a cpu_common_scheme \<Rightarrow> CPUTLBEntry \<Rightarrow> CPUTLBEntry" where
  "tlb_update_dirty q te =
     (if offset_bits (addr_write te) = IO_MEM_RAM \<and>
         \<not> cpu_physical_memory_is_dirty (page_bits (addr_write te) + addend te - phys_ram_base q) q
      then te\<lparr>addr_write := addr_write te OR IO_MEM_NOTDIRTY\<rparr> else te)"

definition cpu_tlb_update_dirty :: "'a cpu_common_scheme \<Rightarrow> 'a cpu_common_scheme" where
  "cpu_tlb_update_dirty q = tlb_map (tlb_update_dirty q) q"

definition tlb_set_dirty1 :: "u32 \<Rightarrow> CPUTLBEntry \<Rightarrow> CPUTLBEntry" where
  "tlb_set_dirty1 start te =
     (if offset_bits (addr_write te) = IO_MEM_NOTDIRTY \<and>
         page_bits (addr_write te) + addend te = start
      then te\<lparr>addr_write := page_bits (addr_write te) OR IO_MEM_RAM\<rparr> else te)"

definition tlb_set_dirty :: "u32 \<Rightarrow> u32 \<Rightarrow> 'a cpu_common_scheme \<Rightarrow> 'a cpu_common_scheme" where
  "tlb_set_dirty addr vaddr q = tlb_map_index (tlb_index vaddr) (tlb_set_dirty1 (page_bits addr)) q"

text \<open>
  The callback for stores to pages that are not dirty; \<open>store\<close> is the raw store of the
  width, \<open>fast\<close> the invalidation of the code in the written bytes.
\<close>

definition notdirty_mem_write ::
  "(u32 \<Rightarrow> u32 \<Rightarrow> 'a cpu_common_scheme \<Rightarrow> 'a cpu_common_scheme) \<Rightarrow> u32 \<Rightarrow>
   (u32 \<Rightarrow> u32 \<Rightarrow> mem \<Rightarrow> mem) \<Rightarrow> u32 \<Rightarrow> u32 \<Rightarrow> 'a cpu_common_scheme \<Rightarrow> 'a cpu_common_scheme" where
  "notdirty_mem_write fast len store addr val q =
     (let ram_addr = addr - phys_ram_base q; page = drop_bit 12 ram_addr;
          q1 = (if phys_ram_dirty q page AND CODE_DIRTY_FLAG = 0 then fast ram_addr len q else q);
          q2 = q1\<lparr>phys_ram := store (addr - phys_ram_base q1) val (phys_ram q1)\<rparr>;
          dirty_flags = phys_ram_dirty q1 page OR (0xff AND NOT CODE_DIRTY_FLAG);
          q3 = q2\<lparr>phys_ram_dirty := (phys_ram_dirty q2)(page := dirty_flags)\<rparr> in
      if dirty_flags = 0xff then tlb_set_dirty addr (mem_write_vaddr q3) q3 else q3)"

definition notdirty_mem_writeb ::
  "(u32 \<Rightarrow> u32 \<Rightarrow> 'a cpu_common_scheme \<Rightarrow> 'a cpu_common_scheme) \<Rightarrow> u32 \<Rightarrow> u32 \<Rightarrow>
   'a cpu_common_scheme \<Rightarrow> 'a cpu_common_scheme" where
  "notdirty_mem_writeb fast = notdirty_mem_write fast 1 stb_p"

definition notdirty_mem_writew ::
  "(u32 \<Rightarrow> u32 \<Rightarrow> 'a cpu_common_scheme \<Rightarrow> 'a cpu_common_scheme) \<Rightarrow> u32 \<Rightarrow> u32 \<Rightarrow>
   'a cpu_common_scheme \<Rightarrow> 'a cpu_common_scheme" where
  "notdirty_mem_writew fast = notdirty_mem_write fast 2 stw_le_p"

definition notdirty_mem_writel ::
  "(u32 \<Rightarrow> u32 \<Rightarrow> 'a cpu_common_scheme \<Rightarrow> 'a cpu_common_scheme) \<Rightarrow> u32 \<Rightarrow> u32 \<Rightarrow>
   'a cpu_common_scheme \<Rightarrow> 'a cpu_common_scheme" where
  "notdirty_mem_writel fast = notdirty_mem_write fast 4 stl_le_p"

section \<open>Adding an entry\<close>

text \<open>
  The loop over the watchpoints: a page with a watchpoint is routed through the watch region,
  and the watchpoint remembers how to get back to the physical address.
\<close>

definition watch_page ::
  "u32 \<Rightarrow> u32 \<Rightarrow> u32 \<Rightarrow> u32 \<Rightarrow> nat \<Rightarrow> u32 \<times> u32 \<times> watchpoint list \<Rightarrow> u32 \<times> u32 \<times> watchpoint list" where
  "watch_page iow base vaddr paddr i x =
     (case x of (address, pd, ws) \<Rightarrow>
        if vaddr = page_bits (wp_vaddr (ws ! i)) then
          if offset_bits address \<noteq> 0
          then (vaddr OR iow, pd, ws[i := (ws ! i)\<lparr>wp_addend := 0\<rparr>])
          else (address, page_bits pd OR iow OR IO_MEM_ROMD,
                ws[i := (ws ! i)\<lparr>wp_addend := pd - paddr + base\<rparr>])
        else (address, pd, ws))"

definition set_page_entry ::
  "u32 \<Rightarrow> u32 \<Rightarrow> u32 \<Rightarrow> u32 \<Rightarrow> u32 \<Rightarrow> 'a phys_scheme \<Rightarrow> CPUTLBEntry" where
  "set_page_entry vaddr prot address pd addend0 q =
     \<lparr>addr_read = (if prot AND PAGE_READ \<noteq> 0 then address else -1),
      addr_write =
        (if prot AND PAGE_WRITE \<noteq> 0 then
           if offset_bits pd = IO_MEM_ROM \<or> pd AND IO_MEM_ROMD \<noteq> 0
           then vaddr OR (pd AND NOT (TARGET_PAGE_MASK OR IO_MEM_ROMD))
           else if offset_bits pd = IO_MEM_RAM \<and> \<not> cpu_physical_memory_is_dirty pd q
           then vaddr OR IO_MEM_NOTDIRTY
           else address
         else -1),
      addr_code = (if prot AND PAGE_EXEC \<noteq> 0 then address else -1),
      addend = addend0 - vaddr\<rparr>"

definition set_page_base :: "u32 \<Rightarrow> u32 \<Rightarrow> u32 \<Rightarrow> 'a phys_scheme \<Rightarrow> u32 \<times> u32" where
  "set_page_base vaddr paddr pd q =
     (if is_io_read pd then (vaddr OR pd, paddr) else (vaddr, phys_ram_base q + page_bits pd))"

definition tlb_set_page_exec ::
  "u32 \<Rightarrow> u32 \<Rightarrow> u32 \<Rightarrow> nat \<Rightarrow> 'a cpu_common_scheme \<Rightarrow> int \<times> 'a cpu_common_scheme" where
  "tlb_set_page_exec vaddr paddr prot mmu_idx q =
     (let pd0 = cpu_get_physical_page_desc paddr q;
          (address0, addend0) = set_page_base vaddr paddr pd0 q;
          (address, pd, ws) =
            fold (watch_page (io_mem_watch q) (phys_ram_base q) vaddr paddr)
              [0..<length (watchpoints q)] (address0, pd0, watchpoints q);
          te = set_page_entry vaddr prot address pd addend0 q in
      (0, q\<lparr>watchpoints := ws,
            tlb_table := (\<lambda>m i. if m = mmu_idx \<and> i = tlb_index vaddr then te
                                else tlb_table q m i)\<rparr>))"

end
