(* ===== verification/TLBProps.thy ===== *)
theory TLBProps
  imports ExecTLB
begin

text \<open>
  Dirty tracking: no TLB entry lets a store bypass the dirty bits of a page that is not
  dirty. Every operation on the TLB and on the dirty bits keeps this, so a page that holds
  translated code is never written behind the emulator's back.
\<close>

section \<open>The invariant\<close>

definition write_page :: "u32 \<Rightarrow> CPUTLBEntry \<Rightarrow> u32" where
  "write_page base te = drop_bit 12 (page_bits (addr_write te) + addend te - base)"

definition entry_dirty :: "'a cpu_common_scheme \<Rightarrow> CPUTLBEntry \<Rightarrow> bool" where
  "entry_dirty q te \<longleftrightarrow> (offset_bits (addr_write te) = IO_MEM_RAM \<longrightarrow>
     phys_ram_dirty q (write_page (phys_ram_base q) te) = 0xff)"

definition tlb_dirty_inv :: "'a cpu_common_scheme \<Rightarrow> bool" where
  "tlb_dirty_inv q \<longleftrightarrow>
     (\<forall>m<NB_MMU_MODES. \<forall>i<CPU_TLB_SIZE. entry_dirty q (tlb_table q m i))"

lemma invalid_entry_dirty [simp]: "entry_dirty q (invalid_entry te)"
  by (simp add: entry_dirty_def invalid_entry_def)

lemma tlb_index_less: "tlb_index a < CPU_TLB_SIZE"
proof -
  have "drop_bit 12 a AND 0xff \<le> (0xff :: u32)" by (rule word_and_le1)
  then show ?thesis by (simp add: tlb_index_def word_le_nat_alt)
qed

lemma tlb_map_fields [simp]:
  "phys_ram_dirty (tlb_map f q) = phys_ram_dirty q" "phys_ram_base (tlb_map f q) = phys_ram_base q"
  "phys_ram_dirty (tlb_map_index i f q) = phys_ram_dirty q"
  "phys_ram_base (tlb_map_index i f q) = phys_ram_base q"
  by (simp_all add: tlb_map_def tlb_map_index_def)

text \<open>A change of the dirty bits and of every entry.\<close>

lemma tlb_map_inv:
  assumes "tlb_dirty_inv q"
    and "\<And>te. entry_dirty q te \<Longrightarrow> entry_dirty (q\<lparr>phys_ram_dirty := d\<rparr>) (f te)"
  shows "tlb_dirty_inv (tlb_map f (q\<lparr>phys_ram_dirty := d\<rparr>))"
  using assms by (simp add: tlb_dirty_inv_def tlb_map_def entry_dirty_def)

lemma tlb_map_index_inv:
  assumes "tlb_dirty_inv q" "\<And>te. entry_dirty q te \<Longrightarrow> entry_dirty q (f te)"
  shows "tlb_dirty_inv (tlb_map_index i f q)"
  using assms by (simp add: tlb_dirty_inv_def tlb_map_index_def entry_dirty_def)

lemma dirty_inv_frame:
  "tlb_table q' = tlb_table q \<Longrightarrow> phys_ram_base q' = phys_ram_base q \<Longrightarrow>
   (\<And>p. phys_ram_dirty q p = 0xff \<Longrightarrow> phys_ram_dirty q' p = 0xff) \<Longrightarrow>
   tlb_dirty_inv q \<Longrightarrow> tlb_dirty_inv q'"
  by (simp add: tlb_dirty_inv_def entry_dirty_def)

section \<open>The operations\<close>

lemma tlb_flush_inv: "tlb_dirty_inv (tlb_flush q)"
  by (simp add: tlb_flush_def Let_def tlb_dirty_inv_def tlb_map_def invalid_entry_def entry_dirty_def)

lemma tlb_flush_page_inv: "tlb_dirty_inv q \<Longrightarrow> tlb_dirty_inv (tlb_flush_page a q)"
  by (simp add: tlb_flush_page_def Let_def clear_jmp_page_def tlb_dirty_inv_def tlb_map_index_def
      tlb_flush_entry_def invalid_entry_def entry_dirty_def)

text \<open>
  The range test on host addresses covers the pages whose bits are reset: a page number in
  the range belongs to an address in the range.
\<close>

lemma page_in_range:
  assumes "offset_bits start = 0" "offset_bits n = 0"
    and "drop_bit 12 r - drop_bit 12 start < drop_bit 12 n"
  shows "r - start < n"
proof -
  let ?k = "unat (drop_bit 12 r - drop_bit 12 start)"
  have S: "unat start = 4096 * (unat start div 4096)" and N: "unat n = 4096 * (unat n div 4096)"
    using unat_offset [of start] unat_offset [of n] assms(1,2) by auto
  have k: "?k < unat n div 4096" using assms(3) by (simp add: word_less_nat_alt unat_page)
  have small: "unat x div 4096 < 1048576" for x :: u32
    using unat_less_pow32 [of x] by (intro less_mult_imp_div_less) simp
  have "unat (drop_bit 12 start + (drop_bit 12 r - drop_bit 12 start)) = unat start div 4096 + ?k"
    using k small [of n] small [of start] by (subst unat_add_no_wrap32) (simp_all add: unat_page)
  then have R: "unat r div 4096 = unat start div 4096 + ?k" by (simp add: unat_page)
  have "4096 * (unat r div 4096) \<le> unat r" "unat r < 4096 * (unat r div 4096) + 4096"
    using div_mult_mod_eq [of "unat r" 4096] mod_less_divisor [of 4096 "unat r"] by linarith+
  then have "unat start \<le> unat r" "unat r < unat start + 4096 * Suc ?k"
    using S R by (simp_all add: algebra_simps)
  moreover have "4096 * Suc ?k \<le> unat n" using k N by (metis Suc_leI mult_le_mono2)
  ultimately have "unat r - unat start < unat n" by linarith
  with \<open>unat start \<le> unat r\<close> show ?thesis
    by (simp add: word_less_nat_alt unat_sub_le32 word_le_nat_alt)
qed

lemma page_bits_offset [simp]: "offset_bits (page_bits a) = 0"
  by (simp add: and.assoc)

lemma offset_take_bit: "offset_bits a = take_bit 12 a"
  by (simp only: page_mask take_bit_eq_mask)

lemma offset_zero_iff: "offset_bits a = 0 \<longleftrightarrow> 4096 dvd unat a"
  using unat_offset [of a] by (simp only: dvd_eq_mod_eq_0 unat_zero_iff [symmetric])

lemma offset_diff: "offset_bits a = 0 \<Longrightarrow> offset_bits b = 0 \<Longrightarrow> offset_bits (a - b) = 0"
  unfolding offset_zero_iff unat_sub_if_size by (simp add: word_size dvd_diff_nat)

lemma offset_or: "offset_bits (page_bits a OR c) = offset_bits c"
  by (simp add: word_ao_dist and.assoc)

lemma reset_dirty_inv:
  assumes "tlb_dirty_inv q"
  shows "tlb_dirty_inv (cpu_physical_memory_reset_dirty start0 end0 flags q)"
proof (cases "TARGET_PAGE_ALIGN end0 - page_bits start0 = 0")
  case True
  with assms show ?thesis by (simp add: cpu_physical_memory_reset_dirty_def)
next
  case False
  let ?start = "page_bits start0" and ?n = "TARGET_PAGE_ALIGN end0 - page_bits start0"
  define d where "d = (\<lambda>p. if p - drop_bit 12 ?start < drop_bit 12 ?n
      then phys_ram_dirty q p AND NOT flags else phys_ram_dirty q p)"
  have off: "offset_bits ?start = 0" "offset_bits ?n = 0"
    by (simp_all add: offset_diff TARGET_PAGE_ALIGN_def)
  have "entry_dirty (q\<lparr>phys_ram_dirty := d\<rparr>)
      (tlb_reset_dirty_range (?start + phys_ram_base q) ?n te)" if te: "entry_dirty q te" for te
  proof (cases "offset_bits (addr_write te) = 0 \<and>
      page_bits (addr_write te) + addend te - (?start + phys_ram_base q) < ?n")
    case True
    then show ?thesis
      by (simp add: tlb_reset_dirty_range_def entry_dirty_def offset_or)
  next
    case False
    then have f: "tlb_reset_dirty_range (?start + phys_ram_base q) ?n te = te"
      by (auto simp: tlb_reset_dirty_range_def)
    show ?thesis
    proof (cases "offset_bits (addr_write te) = 0")
      case True
      let ?r = "page_bits (addr_write te) + addend te - phys_ram_base q"
      have eq: "?r - ?start = page_bits (addr_write te) + addend te - (?start + phys_ram_base q)"
        by (simp add: algebra_simps)
      have "\<not> ?r - ?start < ?n" unfolding eq using False True by blast
      then have "\<not> drop_bit 12 ?r - drop_bit 12 ?start < drop_bit 12 ?n"
        using page_in_range [OF off] by blast
      then show ?thesis using te True by (simp add: f entry_dirty_def write_page_def d_def)
    qed (simp add: f entry_dirty_def)
  qed
  then show ?thesis
    using tlb_map_inv [OF assms, of d] False
    by (simp add: cpu_physical_memory_reset_dirty_def Let_def d_def)
qed

lemma protect_code_inv: "tlb_dirty_inv q \<Longrightarrow> tlb_dirty_inv (tlb_protect_code a q)"
  by (simp add: tlb_protect_code_def reset_dirty_inv)

lemma or_full [simp]: "(0xff :: u8) OR x = 0xff"
proof -
  have "(0xff :: u8) = - 1" by simp
  then show ?thesis by (simp only: bit.disj_one_left)
qed

lemma unprotect_code_inv: "tlb_dirty_inv q \<Longrightarrow> tlb_dirty_inv (tlb_unprotect_code_phys a q)"
  by (rule dirty_inv_frame [of _ q]) (auto simp: tlb_unprotect_code_phys_def)

text \<open>\<^verbatim>\<open>cpu_tlb_update_dirty\<close> establishes the invariant in any state.\<close>

lemma update_dirty_inv: "tlb_dirty_inv (cpu_tlb_update_dirty q)"
proof -
  have "offset_bits (x OR 0x40) \<noteq> 0" for x :: u32
    by (simp add: word_ao_dist or_eq_0_iff)
  then show ?thesis
    by (simp add: tlb_dirty_inv_def cpu_tlb_update_dirty_def tlb_map_def tlb_update_dirty_def
        entry_dirty_def write_page_def cpu_physical_memory_is_dirty_def)
qed

lemma drop_page_diff:
  assumes "offset_bits base = 0"
  shows "drop_bit 12 (page_bits a - base) = drop_bit 12 (a - base)"
proof -
  let ?p = "page_bits a - base"
  have o: "offset_bits ?p = 0" by (rule offset_diff) (simp_all add: assms)
  then have "drop_bit 12 (?p + of_nat (unat (offset_bits a))) = drop_bit 12 ?p"
    using in_page(4) [of ?p "unat (offset_bits a)"] offset_less [of a] by simp
  moreover have "?p + offset_bits a = a - base"
    using page_plus_offset [of a] by (metis add.commute add_diff_eq)
  ultimately show ?thesis by simp
qed

lemma set_dirty_inv:
  assumes "tlb_dirty_inv q" "offset_bits (phys_ram_base q) = 0"
    and "phys_ram_dirty q (drop_bit 12 (addr - phys_ram_base q)) = 0xff"
  shows "tlb_dirty_inv (tlb_set_dirty addr vaddr q)"
  unfolding tlb_set_dirty_def
proof (rule tlb_map_index_inv [OF assms(1)])
  fix te assume te: "entry_dirty q te"
  show "entry_dirty q (tlb_set_dirty1 (page_bits addr) te)"
  proof (cases "offset_bits (addr_write te) = IO_MEM_NOTDIRTY \<and>
      page_bits (addr_write te) + addend te = page_bits addr")
    case True
    then show ?thesis
      using assms(3) drop_page_diff [OF assms(2), of addr]
      by (simp add: tlb_set_dirty1_def entry_dirty_def write_page_def and.assoc)
  next
    case False
    then have "tlb_set_dirty1 (page_bits addr) te = te" by (auto simp: tlb_set_dirty1_def)
    with te show ?thesis by simp
  qed
qed

text \<open>
  What the callback relies on: invalidating code keeps the invariant and the place of guest
  memory in the host.
\<close>

definition fast_ok :: "(u32 \<Rightarrow> u32 \<Rightarrow> 'a cpu_common_scheme \<Rightarrow> 'a cpu_common_scheme) \<Rightarrow> bool" where
  "fast_ok fast \<longleftrightarrow> (\<forall>a n q. tlb_dirty_inv q \<longrightarrow>
     tlb_dirty_inv (fast a n q) \<and> phys_ram_base (fast a n q) = phys_ram_base q)"

lemma notdirty_write_inv:
  assumes "fast_ok fast" "tlb_dirty_inv q" "offset_bits (phys_ram_base q) = 0"
  shows "tlb_dirty_inv (notdirty_mem_write fast n store addr val q)"
proof -
  let ?page = "drop_bit 12 (addr - phys_ram_base q)"
  define q1 where "q1 = (if phys_ram_dirty q ?page AND CODE_DIRTY_FLAG = 0
      then fast (addr - phys_ram_base q) n q else q)"
  define fl where "fl = phys_ram_dirty q1 ?page OR (0xff AND NOT CODE_DIRTY_FLAG)"
  define q3 where "q3 = q1\<lparr>phys_ram := store (addr - phys_ram_base q1) val (phys_ram q1),
      phys_ram_dirty := (phys_ram_dirty q1)(?page := fl)\<rparr>"
  have q1: "tlb_dirty_inv q1" "phys_ram_base q1 = phys_ram_base q"
    using assms(1,2) by (simp_all add: q1_def fast_ok_def)
  have q3: "tlb_dirty_inv q3"
    by (rule dirty_inv_frame [of _ q1]) (auto simp: q3_def fl_def q1(1))
  have "notdirty_mem_write fast n store addr val q =
      (if fl = 0xff then tlb_set_dirty addr (mem_write_vaddr q3) q3 else q3)"
    by (simp add: notdirty_mem_write_def Let_def q1_def [symmetric] fl_def q3_def)
  moreover have "tlb_dirty_inv (tlb_set_dirty addr (mem_write_vaddr q3) q3)" if "fl = 0xff"
    using that assms(3) by (intro set_dirty_inv [OF q3]) (simp_all add: q3_def q1(2))
  ultimately show ?thesis using q3 by simp
qed

section \<open>Adding an entry\<close>

text \<open>
  Page descriptors: RAM, or a region number of at least one. The region of the watchpoints is
  registered like any other.
\<close>

definition desc_ok :: "u32 \<Rightarrow> bool" where
  "desc_ok pd \<longleftrightarrow> offset_bits pd = 0 \<or> 0x10 \<le> offset_bits pd"

lemma region_nonzero:
  assumes "0x10 \<le> offset_bits pd"
  shows "pd AND 0xffe \<noteq> 0"
proof
  assume "pd AND 0xffe = 0"
  moreover have "offset_bits pd = (pd AND 0xffe) OR (pd AND 1)"
    by (simp flip: word_ao_dist2)
  ultimately have "offset_bits pd = pd AND 1" by simp
  moreover have "pd AND 1 \<le> 1" by (rule word_and_le1)
  ultimately have "(0x10 :: u32) \<le> 1" using assms by (metis order_trans)
  then show False by (simp add: word_le_nat_alt)
qed

text \<open>
  What the loop over the watchpoints keeps: an address without region bits is still the RAM
  address of the page, and the descriptor is the original one or routes stores to the watch
  region.
\<close>

definition watch_inv :: "u32 \<Rightarrow> u32 \<Rightarrow> u32 \<Rightarrow> u32 \<times> u32 \<times> watchpoint list \<Rightarrow> bool" where
  "watch_inv vaddr pd0 iow x \<longleftrightarrow>
     (case x of (address, pd, ws) \<Rightarrow>
        (offset_bits address = 0 \<longrightarrow> address = vaddr \<and> \<not> is_io_read pd0) \<and>
        (pd = pd0 \<or> pd AND IO_MEM_ROMD \<noteq> 0 \<and> pd AND 0xffe \<noteq> 0))"

lemma watch_page_inv:
  assumes "offset_bits vaddr = 0" "0x10 \<le> offset_bits iow" "watch_inv vaddr pd0 iow x"
  shows "watch_inv vaddr pd0 iow (watch_page iow base vaddr paddr i x)"
proof -
  obtain address pd ws where x: "x = (address, pd, ws)" by (cases x)
  have v: "offset_bits (vaddr OR iow) = offset_bits iow" using assms(1) by (simp add: word_ao_dist)
  have "offset_bits iow \<noteq> 0" using assms(2) by (auto simp: word_le_nat_alt)
  moreover have "(page_bits pd OR iow OR IO_MEM_ROMD) AND IO_MEM_ROMD \<noteq> 0"
    "(page_bits pd OR iow OR IO_MEM_ROMD) AND 0xffe \<noteq> 0"
    using region_nonzero [OF assms(2)] by (simp_all add: word_ao_dist or_eq_0_iff)
  ultimately show ?thesis
    using assms(3) v by (auto simp: x watch_page_def watch_inv_def)
qed

lemma watch_fold_inv:
  assumes "offset_bits vaddr = 0" "0x10 \<le> offset_bits iow" "watch_inv vaddr pd0 iow x"
  shows "watch_inv vaddr pd0 iow (fold (watch_page iow base vaddr paddr) is x)"
  using assms(3) by (induction "is" arbitrary: x) (simp_all add: watch_page_inv [OF assms(1,2)])

lemma is_io_read_ram: "desc_ok pd \<Longrightarrow> \<not> is_io_read pd \<Longrightarrow> pd AND IO_MEM_ROMD = 0 \<Longrightarrow>
  offset_bits pd \<noteq> IO_MEM_ROM \<Longrightarrow> offset_bits pd = IO_MEM_RAM"
  by (auto simp: desc_ok_def is_io_read_def)

lemma romd_offset: "pd AND IO_MEM_ROMD \<noteq> 0 \<Longrightarrow> offset_bits pd \<noteq> 0"
proof
  assume "offset_bits pd = 0" "pd AND IO_MEM_ROMD \<noteq> 0"
  moreover have "pd AND IO_MEM_ROMD = offset_bits pd AND 1" by (simp add: and.assoc)
  ultimately show False by simp
qed

lemma page_id: "offset_bits vaddr = 0 \<Longrightarrow> page_bits vaddr = (vaddr :: u32)"
  using page_plus_offset [of vaddr] by simp

lemma drop_page: "drop_bit 12 (page_bits pd) = (drop_bit 12 pd :: u32)"
  unfolding page_mask by (rule bit_word_eqI) (auto simp: bit_simps dest: bit_imp_le_length)

lemma set_page_entry_dirty:
  assumes v: "offset_bits vaddr = 0" and d: "desc_ok pd0"
    and w: "watch_inv vaddr pd0 iow (address, pd, ws)"
  shows "entry_dirty q (set_page_entry vaddr prot address pd (snd (set_page_base vaddr paddr pd0 q)) q)"
    (is "entry_dirty q ?te")
  unfolding entry_dirty_def
proof
  assume z: "offset_bits (addr_write ?te) = 0"
  have rd: "pd AND 0xffe \<noteq> 0" if "offset_bits pd = IO_MEM_ROM \<or> pd AND IO_MEM_ROMD \<noteq> 0"
    using region_nonzero [of pd] d w that romd_offset [of pd]
    by (auto simp: watch_inv_def desc_ok_def)
  have wr: "prot AND PAGE_WRITE \<noteq> 0" using z by (auto simp: set_page_entry_def)
  have nrom: "\<not> (offset_bits pd = IO_MEM_ROM \<or> pd AND IO_MEM_ROMD \<noteq> 0)"
  proof
    assume r: "offset_bits pd = IO_MEM_ROM \<or> pd AND IO_MEM_ROMD \<noteq> 0"
    moreover have m: "(- 0xfffff002 :: u32) = 0xffe" by simp
    ultimately have "offset_bits (vaddr OR (pd AND 0xffe)) = 0"
      using z wr by (simp only: set_page_entry_def) (simp add: m)
    then show False using rd [OF r] v by (simp add: word_ao_dist and.assoc)
  qed
  have ad: "offset_bits pd = IO_MEM_RAM \<Longrightarrow> cpu_physical_memory_is_dirty pd q"
    using z wr nrom v by (auto simp: set_page_entry_def word_ao_dist split: if_splits)
  then have a: "addr_write ?te = address" using wr nrom by (auto simp: set_page_entry_def)
  then have e: "address = vaddr" "\<not> is_io_read pd0" "pd = pd0"
    using w z nrom by (auto simp: watch_inv_def)
  then have "cpu_physical_memory_is_dirty pd0 q"
    using ad is_io_read_ram [OF d] nrom by simp
  moreover have "addend ?te = phys_ram_base q + page_bits pd0 - vaddr"
    using e(2) by (simp add: set_page_entry_def set_page_base_def)
  then have "page_bits (addr_write ?te) + addend ?te - phys_ram_base q = page_bits pd0"
    using a e(1) page_id [OF v] by (simp only:) simp
  then have "write_page (phys_ram_base q) ?te = drop_bit 12 pd0"
    by (simp only: write_page_def drop_page)
  ultimately show "phys_ram_dirty q (write_page (phys_ram_base q) ?te) = 0xff"
    by (simp add: cpu_physical_memory_is_dirty_def)
qed

lemma set_page_inv:
  assumes inv: "tlb_dirty_inv q" and v: "offset_bits vaddr = 0"
    and d: "desc_ok (cpu_get_physical_page_desc paddr q)"
    and w: "0x10 \<le> offset_bits (io_mem_watch q)"
  shows "tlb_dirty_inv (snd (tlb_set_page_exec vaddr paddr prot mmu_idx q))"
proof -
  define pd0 where "pd0 = cpu_get_physical_page_desc paddr q"
  obtain address0 addend0 where b: "set_page_base vaddr paddr pd0 q = (address0, addend0)"
    by (cases "set_page_base vaddr paddr pd0 q")
  obtain address pd ws where f: "fold (watch_page (io_mem_watch q) (phys_ram_base q) vaddr paddr)
      [0..<length (watchpoints q)] (address0, pd0, watchpoints q) = (address, pd, ws)"
    by (cases "fold (watch_page (io_mem_watch q) (phys_ram_base q) vaddr paddr)
      [0..<length (watchpoints q)] (address0, pd0, watchpoints q)") blast
  have "watch_inv vaddr pd0 (io_mem_watch q) (address0, pd0, watchpoints q)"
    using v d b by (auto simp: watch_inv_def set_page_base_def pd0_def is_io_read_def word_ao_dist
        split: if_splits)
  then have wi: "watch_inv vaddr pd0 (io_mem_watch q) (address, pd, ws)"
    using watch_fold_inv [OF v w] f by metis
  have "entry_dirty q (set_page_entry vaddr prot address pd addend0 q)"
    using set_page_entry_dirty [OF v _ wi, of q prot paddr] d b by (simp add: pd0_def)
  then show ?thesis
    using inv b f by (simp add: tlb_set_page_exec_def pd0_def [symmetric] tlb_dirty_inv_def entry_dirty_def)
qed

section \<open>Runs\<close>

text \<open>
  The operations on the TLB and the dirty bits in any order: the flushes, the protection of
  pages with code, the stores to RAM on the fast path (which change memory only) and on the
  path for pages that are not dirty, and the entries that the MMU adds.
\<close>

inductive tlb_step ::
  "(u32 \<Rightarrow> u32 \<Rightarrow> 'a cpu_common_scheme \<Rightarrow> 'a cpu_common_scheme) \<Rightarrow>
   'a cpu_common_scheme \<Rightarrow> 'a cpu_common_scheme \<Rightarrow> bool"
  for fast where
  flush: "tlb_step fast q (tlb_flush q)"
| flush_page: "tlb_step fast q (tlb_flush_page a q)"
| reset_dirty: "tlb_step fast q (cpu_physical_memory_reset_dirty s e flags q)"
| protect: "tlb_step fast q (tlb_protect_code a q)"
| unprotect: "tlb_step fast q (tlb_unprotect_code_phys a q)"
| update: "tlb_step fast q (cpu_tlb_update_dirty q)"
| ram_store: "tlb_step fast q (q\<lparr>phys_ram := m\<rparr>)"
| write_vaddr: "tlb_step fast q (q\<lparr>mem_write_vaddr := a, mem_write_pc := pc\<rparr>)"
| notdirty_b: "tlb_step fast q (notdirty_mem_writeb fast a v q)"
| notdirty_w: "tlb_step fast q (notdirty_mem_writew fast a v q)"
| notdirty_l: "tlb_step fast q (notdirty_mem_writel fast a v q)"
| set_page: "offset_bits vaddr = 0 \<Longrightarrow> desc_ok (cpu_get_physical_page_desc paddr q) \<Longrightarrow>
    0x10 \<le> offset_bits (io_mem_watch q) \<Longrightarrow>
    tlb_step fast q (snd (tlb_set_page_exec vaddr paddr prot mmu_idx q))"

lemma notdirty_base:
  "fast_ok fast \<Longrightarrow> tlb_dirty_inv q \<Longrightarrow>
   phys_ram_base (notdirty_mem_write fast n store a v q) = phys_ram_base q"
  by (simp add: notdirty_mem_write_def Let_def tlb_set_dirty_def fast_ok_def)

lemma set_page_phys:
  "phys_ram_base (snd (tlb_set_page_exec vaddr paddr prot mmu_idx q)) = phys_ram_base q"
  "l1_phys_map (snd (tlb_set_page_exec vaddr paddr prot mmu_idx q)) = l1_phys_map q"
  "phys_ram (snd (tlb_set_page_exec vaddr paddr prot mmu_idx q)) = phys_ram q"
  by (simp_all add: tlb_set_page_exec_def Let_def split: prod.split)

lemma tlb_flush_frame [simp]:
  "phys_ram_base (tlb_flush q) = phys_ram_base q" "l1_phys_map (tlb_flush q) = l1_phys_map q"
  "phys_ram (tlb_flush q) = phys_ram q" "phys_ram_dirty (tlb_flush q) = phys_ram_dirty q"
  "watchpoints (tlb_flush q) = watchpoints q" "io_mem_watch (tlb_flush q) = io_mem_watch q"
  by (simp_all add: tlb_flush_def Let_def) (simp_all add: tlb_map_def)

lemmas maintenance_defs = tlb_flush_def tlb_flush_page_def clear_jmp_page_def tlb_protect_code_def
  cpu_physical_memory_reset_dirty_def tlb_unprotect_code_phys_def cpu_tlb_update_dirty_def

lemma tlb_step_base:
  "tlb_step fast q q' \<Longrightarrow> fast_ok fast \<Longrightarrow> tlb_dirty_inv q \<Longrightarrow> phys_ram_base q' = phys_ram_base q"
  by (induction rule: tlb_step.induct)
    (simp_all add: set_page_phys notdirty_base notdirty_mem_writeb_def notdirty_mem_writew_def
      notdirty_mem_writel_def, simp_all add: maintenance_defs Let_def)

lemma tlb_step_inv:
  "tlb_step fast q q' \<Longrightarrow> fast_ok fast \<Longrightarrow> offset_bits (phys_ram_base q) = 0 \<Longrightarrow>
   tlb_dirty_inv q \<Longrightarrow> tlb_dirty_inv q'"
  by (induction rule: tlb_step.induct)
    (simp_all add: tlb_flush_inv tlb_flush_page_inv reset_dirty_inv protect_code_inv
      unprotect_code_inv update_dirty_inv notdirty_write_inv set_page_inv
      notdirty_mem_writeb_def notdirty_mem_writew_def notdirty_mem_writel_def,
      simp_all add: tlb_dirty_inv_def entry_dirty_def)

lemma tlb_run_inv:
  "(tlb_step fast)\<^sup>*\<^sup>* q q' \<Longrightarrow> fast_ok fast \<Longrightarrow> offset_bits (phys_ram_base q) = 0 \<Longrightarrow>
   tlb_dirty_inv q \<Longrightarrow> tlb_dirty_inv q' \<and> phys_ram_base q' = phys_ram_base q"
  by (induction rule: rtranclp_induct) (auto dest: tlb_step_inv tlb_step_base simp: tlb_step_base)


definition sample_cpu :: cpu_common where
  "sample_cpu = \<lparr>l1_phys_map = [0 \<mapsto> \<lambda>i. of_nat (4096 * i)], phys_ram_base = 0x1000000,
     phys_ram = (\<lambda>_. 0), phys_ram_dirty = (\<lambda>p. if p = 3 then 0xff else 0),
     current_tb = None, mem_write_pc = 0, mem_write_vaddr = 0,
     tlb_table = (\<lambda>_ _. \<lparr>addr_read = 0, addr_write = 0, addr_code = 0, addend = 0\<rparr>),
     tb_jmp_cache = (\<lambda>_. None), watchpoints = [], io_mem_watch = 0x50,
     tlb_flush_count = 0, last_io_time = 0\<rparr>"


end
