(* ===== verification/X86MMU.thy ===== *)
theory X86MMU
  imports TLBProps
begin

text \<open>
  The i386 MMU (\<^verbatim>\<open>target-i386/helper2.c\<close>, built without \<^verbatim>\<open>TARGET_X86_64\<close>): control
  registers, the page walk behind a TLB miss with its page faults, the walk for debug
  accesses, and \<^verbatim>\<open>tlb_fill\<close>.
\<close>

section \<open>State\<close>

record cpu_x86 = cpu_common +
  regs :: "nat \<Rightarrow> u32"
  eip :: u32
  eflags :: u32
  hflags :: u32
  cr :: "nat \<Rightarrow> u32"
  a20_mask :: u32
  efer :: u64
  vm_vmcb :: u32
  intercept_exceptions :: u32
  exception_index :: int
  error_code :: u32
  interrupt_request :: u32
  interrupt_lock :: bool
  cpuid_features :: u32

abbreviation MMU_USER_IDX :: nat where "MMU_USER_IDX \<equiv> 1"
abbreviation EXCP0E_PAGE :: nat where "EXCP0E_PAGE \<equiv> 14"
abbreviation CPU_INTERRUPT_EXITTB :: u32 where "CPU_INTERRUPT_EXITTB \<equiv> 4"

abbreviation CR0_PE_MASK :: u32 where "CR0_PE_MASK \<equiv> 0x1"
abbreviation CR0_ET_MASK :: u32 where "CR0_ET_MASK \<equiv> 0x10"
abbreviation CR0_WP_MASK :: u32 where "CR0_WP_MASK \<equiv> 0x10000"
abbreviation CR0_PG_MASK :: u32 where "CR0_PG_MASK \<equiv> 0x80000000"
abbreviation CR4_PSE_MASK :: u32 where "CR4_PSE_MASK \<equiv> 0x10"
abbreviation CR4_PAE_MASK :: u32 where "CR4_PAE_MASK \<equiv> 0x20"
abbreviation CR4_PGE_MASK :: u32 where "CR4_PGE_MASK \<equiv> 0x80"
abbreviation CR4_OSFXSR_MASK :: u32 where "CR4_OSFXSR_MASK \<equiv> 0x200"
abbreviation CPUID_SSE :: u32 where "CPUID_SSE \<equiv> 0x2000000"
abbreviation MSR_EFER_NXE :: u64 where "MSR_EFER_NXE \<equiv> 0x800"

abbreviation HF_ADDSEG_MASK :: u32 where "HF_ADDSEG_MASK \<equiv> 0x40"
abbreviation HF_PE_MASK :: u32 where "HF_PE_MASK \<equiv> 0x80"
abbreviation HF_MP_EM_TS_MASK :: u32 where "HF_MP_EM_TS_MASK \<equiv> 0xe00"
abbreviation HF_OSFXSR_MASK :: u32 where "HF_OSFXSR_MASK \<equiv> 0x10000"

text \<open>Bits of a page table entry, of 32 or 64 bits.\<close>

abbreviation PG_PRESENT_MASK :: "'w::len word" where "PG_PRESENT_MASK \<equiv> 1"
abbreviation PG_RW_MASK :: "'w::len word" where "PG_RW_MASK \<equiv> 2"
abbreviation PG_USER_MASK :: "'w::len word" where "PG_USER_MASK \<equiv> 4"
abbreviation PG_ACCESSED_MASK :: "'w::len word" where "PG_ACCESSED_MASK \<equiv> 0x20"
abbreviation PG_DIRTY_MASK :: "'w::len word" where "PG_DIRTY_MASK \<equiv> 0x40"
abbreviation PG_PSE_MASK :: "'w::len word" where "PG_PSE_MASK \<equiv> 0x80"
abbreviation PG_NX_MASK :: u64 where "PG_NX_MASK \<equiv> 0x8000000000000000"

abbreviation PG_ERROR_P_MASK :: u32 where "PG_ERROR_P_MASK \<equiv> 0x01"
abbreviation PG_ERROR_W_MASK :: u32 where "PG_ERROR_W_MASK \<equiv> 0x02"
abbreviation PG_ERROR_U_MASK :: u32 where "PG_ERROR_U_MASK \<equiv> 0x04"
abbreviation PG_ERROR_RSVD_MASK :: u32 where "PG_ERROR_RSVD_MASK \<equiv> 0x08"
abbreviation PG_ERROR_I_D_MASK :: u32 where "PG_ERROR_I_D_MASK \<equiv> 0x10"

section \<open>Control registers\<close>

text \<open>
  \<^verbatim>\<open>cpu_interrupt\<close> of \<^verbatim>\<open>exec.c\<close>; \<open>unlink\<close> is \<^verbatim>\<open>tb_reset_jump_recursive\<close> of the
  translation cache.
\<close>

definition cpu_interrupt ::
  "(nat \<Rightarrow> 'a cpu_x86_scheme \<Rightarrow> 'a cpu_x86_scheme) \<Rightarrow> u32 \<Rightarrow> 'a cpu_x86_scheme \<Rightarrow> 'a cpu_x86_scheme" where
  "cpu_interrupt unlink m q =
     (let q1 = q\<lparr>interrupt_request := interrupt_request q OR m\<rparr> in
      case current_tb q1 of
        None \<Rightarrow> q1
      | Some tb \<Rightarrow>
          if interrupt_lock q1 then q1
          else (unlink tb (q1\<lparr>interrupt_lock := True, current_tb := None\<rparr>))\<lparr>interrupt_lock := False\<rparr>)"

definition cpu_reset_interrupt :: "u32 \<Rightarrow> 'a cpu_x86_scheme \<Rightarrow> 'a cpu_x86_scheme" where
  "cpu_reset_interrupt m q = q\<lparr>interrupt_request := interrupt_request q AND NOT m\<rparr>"

definition cpu_x86_set_a20 ::
  "(nat \<Rightarrow> 'a cpu_x86_scheme \<Rightarrow> 'a cpu_x86_scheme) \<Rightarrow> bool \<Rightarrow> 'a cpu_x86_scheme \<Rightarrow> 'a cpu_x86_scheme" where
  "cpu_x86_set_a20 unlink a20_state q =
     (if of_bool a20_state \<noteq> drop_bit 20 (a20_mask q) AND 1
      then (tlb_flush (cpu_interrupt unlink CPU_INTERRUPT_EXITTB q))
             \<lparr>a20_mask := 0xffefffff OR push_bit 20 (of_bool a20_state)\<rparr>
      else q)"

definition cpu_x86_update_cr0 :: "u32 \<Rightarrow> 'a cpu_x86_scheme \<Rightarrow> 'a cpu_x86_scheme" where
  "cpu_x86_update_cr0 new_cr0 q =
     (let m = CR0_PG_MASK OR CR0_WP_MASK OR CR0_PE_MASK;
          q1 = (if new_cr0 AND m \<noteq> cr q 0 AND m then tlb_flush q else q);
          q2 = q1\<lparr>cr := (cr q1)(0 := new_cr0 OR CR0_ET_MASK)\<rparr>;
          pe_state = cr q2 0 AND CR0_PE_MASK;
          h1 = (hflags q2 AND NOT HF_PE_MASK) OR push_bit 7 pe_state;
          h2 = h1 OR push_bit 6 (pe_state XOR 1);
          h3 = (h2 AND NOT HF_MP_EM_TS_MASK) OR (push_bit 8 new_cr0 AND HF_MP_EM_TS_MASK) in
      q2\<lparr>hflags := h3\<rparr>)"

definition cpu_x86_update_cr3 :: "u32 \<Rightarrow> 'a cpu_x86_scheme \<Rightarrow> 'a cpu_x86_scheme" where
  "cpu_x86_update_cr3 new_cr3 q =
     (let q1 = q\<lparr>cr := (cr q)(3 := new_cr3)\<rparr> in
      if cr q1 0 AND CR0_PG_MASK \<noteq> 0 then tlb_flush q1 else q1)"

definition cpu_x86_update_cr4 :: "u32 \<Rightarrow> 'a cpu_x86_scheme \<Rightarrow> 'a cpu_x86_scheme" where
  "cpu_x86_update_cr4 new_cr4 q =
     (let m = CR4_PGE_MASK OR CR4_PAE_MASK OR CR4_PSE_MASK;
          q1 = (if new_cr4 AND m \<noteq> cr q 4 AND m then tlb_flush q else q);
          v = (if cpuid_features q1 AND CPUID_SSE = 0 then new_cr4 AND NOT CR4_OSFXSR_MASK
               else new_cr4);
          h = (if v AND CR4_OSFXSR_MASK \<noteq> 0 then hflags q1 OR HF_OSFXSR_MASK
               else hflags q1 AND NOT HF_OSFXSR_MASK) in
      q1\<lparr>hflags := h, cr := (cr q1)(4 := v)\<rparr>)"

definition cpu_x86_flush_tlb :: "u32 \<Rightarrow> 'a cpu_x86_scheme \<Rightarrow> 'a cpu_x86_scheme" where
  "cpu_x86_flush_tlb addr q = tlb_flush_page addr q"

section \<open>The page walk\<close>

text \<open>
  The result of the walk, where the function jumps to \<^verbatim>\<open>do_fault\<close> with an error code or
  to the code that fills the TLB with \<^verbatim>\<open>pte\<close>, \<^verbatim>\<open>ptep\<close>, \<^verbatim>\<open>virt_addr\<close> and \<^verbatim>\<open>page_size\<close>.
\<close>

datatype walk = Fault u32 | Page u32 u64 u32 u32

text \<open>The test of user and write rights that sends the walk to \<^verbatim>\<open>do_fault_protect\<close>.\<close>

definition access_denied :: "bool \<Rightarrow> bool \<Rightarrow> u32 \<Rightarrow> u64 \<Rightarrow> bool" where
  "access_denied is_user is_write cr0 ptep =
     (if is_user
      then ptep AND PG_USER_MASK = 0 \<or> is_write \<and> ptep AND PG_RW_MASK = 0
      else cr0 AND CR0_WP_MASK \<noteq> 0 \<and> is_write \<and> ptep AND PG_RW_MASK = 0)"

text \<open>
  Setting the accessed bit, and for a store to the page the dirty bit, in a table entry. Only
  the low word is written back.
\<close>

definition mark_entry ::
  "('a phys_scheme) board \<Rightarrow> bool \<Rightarrow> u32 \<Rightarrow> 'w::len word \<Rightarrow> 'a phys_scheme \<Rightarrow> 'w word \<times> 'a phys_scheme" where
  "mark_entry B is_write a e q =
     (let is_dirty = (is_write \<and> e AND PG_DIRTY_MASK = 0) in
      if e AND PG_ACCESSED_MASK = 0 \<or> is_dirty
      then let e' = e OR PG_ACCESSED_MASK OR (if is_dirty then PG_DIRTY_MASK else 0) in
           (e', stl_phys_notdirty B a (ucast e') q)
      else (e, q))"

text \<open>The physical addresses of the table entries, in the two formats of the tables.\<close>

definition legacy_pde_addr :: "u32 \<Rightarrow> 'a cpu_x86_scheme \<Rightarrow> u32" where
  "legacy_pde_addr addr q = ((cr q 3 AND NOT 0xfff) + (drop_bit 20 addr AND 0xffc)) AND a20_mask q"

definition legacy_pte_addr :: "u32 \<Rightarrow> u32 \<Rightarrow> 'a cpu_x86_scheme \<Rightarrow> u32" where
  "legacy_pte_addr pde addr q = ((pde AND NOT 0xfff) + (drop_bit 10 addr AND 0xffc)) AND a20_mask q"

definition pdpe_addr :: "u32 \<Rightarrow> 'a cpu_x86_scheme \<Rightarrow> u32" where
  "pdpe_addr addr q = ((cr q 3 AND NOT 0x1f) + (drop_bit 27 addr AND 0x18)) AND a20_mask q"

definition pae_pde_addr :: "u32 \<Rightarrow> u32 \<Rightarrow> 'a cpu_x86_scheme \<Rightarrow> u32" where
  "pae_pde_addr pdpe addr q =
     ((pdpe AND 0xfffff000) + push_bit 3 (drop_bit 21 addr AND 0x1ff)) AND a20_mask q"

definition pae_pte_addr :: "u32 \<Rightarrow> u32 \<Rightarrow> 'a cpu_x86_scheme \<Rightarrow> u32" where
  "pae_pte_addr pde addr q =
     ((pde AND 0xfffff000) + push_bit 3 (drop_bit 12 addr AND 0x1ff)) AND a20_mask q"

text \<open>Two levels of 32-bit entries, with 4 MB pages.\<close>

definition legacy_walk ::
  "('a cpu_x86_scheme) board \<Rightarrow> u32 \<Rightarrow> bool \<Rightarrow> bool \<Rightarrow> 'a cpu_x86_scheme \<Rightarrow> walk \<times> 'a cpu_x86_scheme" where
  "legacy_walk B addr is_user is_write q =
     (let pde_addr = legacy_pde_addr addr q in
      case ldl_phys B pde_addr q of (pde, q1) \<Rightarrow>
        if pde AND PG_PRESENT_MASK = 0 then (Fault 0, q1)
        else if pde AND PG_PSE_MASK \<noteq> 0 \<and> cr q1 4 AND CR4_PSE_MASK \<noteq> 0 then
          if access_denied is_user is_write (cr q1 0) (ucast pde) then (Fault PG_ERROR_P_MASK, q1)
          else case mark_entry B is_write pde_addr pde q1 of (pde1, q2) \<Rightarrow>
            let pte = pde1 AND NOT 0x3ff000 in
            (Page pte (ucast pte) (addr AND NOT 0x3fffff) 0x400000, q2)
        else case mark_entry B False pde_addr pde q1 of (pde1, q2) \<Rightarrow>
          let pte_addr = legacy_pte_addr pde1 addr q2 in
          case ldl_phys B pte_addr q2 of (pte, q3) \<Rightarrow>
            if pte AND PG_PRESENT_MASK = 0 then (Fault 0, q3)
            else
              let ptep = ucast (pte AND pde1) in
              if access_denied is_user is_write (cr q3 0) ptep then (Fault PG_ERROR_P_MASK, q3)
              else case mark_entry B is_write pte_addr pte q3 of (pte1, q4) \<Rightarrow>
                (Page pte1 ptep (addr AND NOT 0xfff) 0x1000, q4))"

text \<open>
  Physical address extension: four page directory pointers, two levels of 64-bit entries with
  the no-execute bit, 2 MB pages. The walk collects the rights with the no-execute bit
  inverted, so that combining levels is a conjunction.
\<close>

definition nx_reserved :: "u64 \<Rightarrow> 'a cpu_x86_scheme \<Rightarrow> bool" where
  "nx_reserved e q \<longleftrightarrow> efer q AND MSR_EFER_NXE = 0 \<and> e AND PG_NX_MASK \<noteq> 0"

definition pae_denied :: "nat \<Rightarrow> bool \<Rightarrow> u32 \<Rightarrow> u64 \<Rightarrow> bool" where
  "pae_denied is_write1 is_user cr0 ptep \<longleftrightarrow>
     ptep AND PG_NX_MASK \<noteq> 0 \<and> is_write1 = 2 \<or> access_denied is_user (odd is_write1) cr0 ptep"

definition pae_leaf ::
  "('a cpu_x86_scheme) board \<Rightarrow> u32 \<Rightarrow> nat \<Rightarrow> bool \<Rightarrow> u64 \<Rightarrow> u64 \<Rightarrow> 'a cpu_x86_scheme \<Rightarrow>
   walk \<times> 'a cpu_x86_scheme" where
  "pae_leaf B addr is_write1 is_user pde ptep1 q =
     (let pte_addr = pae_pte_addr (ucast pde) addr q in
      case ldq_phys B pte_addr q of (pte, q1) \<Rightarrow>
        if pte AND PG_PRESENT_MASK = 0 then (Fault 0, q1)
        else if nx_reserved pte q1 then (Fault PG_ERROR_RSVD_MASK, q1)
        else
          let ptep = (ptep1 AND (pte XOR PG_NX_MASK)) XOR PG_NX_MASK in
          if pae_denied is_write1 is_user (cr q1 0) ptep then (Fault PG_ERROR_P_MASK, q1)
          else case mark_entry B (odd is_write1) pte_addr pte q1 of (pte1, q2) \<Rightarrow>
            (Page (ucast (pte1 AND 0xffffffff)) ptep (addr AND NOT 0xfff) 0x1000, q2))"

definition pae_walk ::
  "('a cpu_x86_scheme) board \<Rightarrow> u32 \<Rightarrow> nat \<Rightarrow> bool \<Rightarrow> 'a cpu_x86_scheme \<Rightarrow> walk \<times> 'a cpu_x86_scheme" where
  "pae_walk B addr is_write1 is_user q =
     (let pdpe_a = pdpe_addr addr q in
      case ldq_phys B pdpe_a q of (pdpe, q1) \<Rightarrow>
        if pdpe AND PG_PRESENT_MASK = 0 then (Fault 0, q1)
        else
          let pde_addr = pae_pde_addr (ucast pdpe) addr q1 in
          case ldq_phys B pde_addr q1 of (pde, q2) \<Rightarrow>
            if pde AND PG_PRESENT_MASK = 0 then (Fault 0, q2)
            else if nx_reserved pde q2 then (Fault PG_ERROR_RSVD_MASK, q2)
            else
              let ptep1 = (PG_NX_MASK OR PG_USER_MASK OR PG_RW_MASK) AND (pde XOR PG_NX_MASK) in
              if pde AND PG_PSE_MASK \<noteq> 0 then
                let ptep = ptep1 XOR PG_NX_MASK in
                if pae_denied is_write1 is_user (cr q2 0) ptep then (Fault PG_ERROR_P_MASK, q2)
                else case mark_entry B (odd is_write1) pde_addr pde q2 of (pde1, q3) \<Rightarrow>
                  (Page (ucast (pde1 AND 0xffe00fff)) ptep (addr AND NOT 0x1fffff) 0x200000, q3)
              else case mark_entry B False pde_addr pde q2 of (pde1, q3) \<Rightarrow>
                pae_leaf B addr is_write1 is_user pde1 ptep1 q3)"

section \<open>Page faults\<close>

text \<open>The protection for the TLB: stores only once the entry is dirty.\<close>

definition mmu_prot :: "bool \<Rightarrow> u32 \<Rightarrow> u32 \<Rightarrow> u64 \<Rightarrow> u32" where
  "mmu_prot is_user cr0 pte ptep =
     PAGE_READ OR (if ptep AND PG_NX_MASK = 0 then PAGE_EXEC else 0) OR
     (if pte AND PG_DIRTY_MASK \<noteq> 0 \<and>
         (if is_user then ptep AND PG_RW_MASK \<noteq> 0
          else cr0 AND CR0_WP_MASK = 0 \<or> ptep AND PG_RW_MASK \<noteq> 0)
      then PAGE_WRITE else 0)"

definition do_mapping ::
  "u32 \<Rightarrow> u32 \<Rightarrow> u32 \<Rightarrow> u32 \<Rightarrow> u32 \<Rightarrow> nat \<Rightarrow> 'a cpu_x86_scheme \<Rightarrow> int \<times> 'a cpu_x86_scheme" where
  "do_mapping addr pte0 virt_addr page_size prot mmu_idx q =
     (let pte = pte0 AND a20_mask q;
          page_offset = page_bits addr AND (page_size - 1);
          paddr = page_bits pte + page_offset;
          vaddr = virt_addr + page_offset in
      tlb_set_page_exec vaddr paddr prot mmu_idx q)"

definition do_fault ::
  "('a cpu_x86_scheme) board \<Rightarrow> u32 \<Rightarrow> nat \<Rightarrow> bool \<Rightarrow> u32 \<Rightarrow> 'a cpu_x86_scheme \<Rightarrow> int \<times> 'a cpu_x86_scheme" where
  "do_fault B addr is_write1 is_user code q =
     (let e1 = code OR (if odd is_write1 then PG_ERROR_W_MASK else 0);
          e2 = (if is_user then e1 OR PG_ERROR_U_MASK else e1);
          e3 = (if is_write1 = 2 \<and> efer q AND MSR_EFER_NXE \<noteq> 0 \<and> cr q 4 AND CR4_PAE_MASK \<noteq> 0
                then e2 OR PG_ERROR_I_D_MASK else e2);
          q1 = (if intercept_exceptions q AND push_bit EXCP0E_PAGE 1 \<noteq> 0
                then stq_phys B (vm_vmcb q + 0x80) (ucast addr) q
                else q\<lparr>cr := (cr q)(2 := addr)\<rparr>);
          q2 = q1\<lparr>error_code := e3, exception_index := int EXCP0E_PAGE\<rparr> in
      (if intercept_exceptions q2 AND push_bit EXCP0E_PAGE 1 \<noteq> 0 then 2 else 1, q2))"

definition cpu_x86_handle_mmu_fault ::
  "('a cpu_x86_scheme) board \<Rightarrow> u32 \<Rightarrow> nat \<Rightarrow> nat \<Rightarrow> 'a cpu_x86_scheme \<Rightarrow> int \<times> 'a cpu_x86_scheme" where
  "cpu_x86_handle_mmu_fault B addr is_write1 mmu_idx q =
     (let is_user = (mmu_idx = MMU_USER_IDX) in
      if cr q 0 AND CR0_PG_MASK = 0 then
        do_mapping addr addr (page_bits addr) 0x1000 (PAGE_READ OR PAGE_WRITE OR PAGE_EXEC) mmu_idx q
      else
        case (if cr q 4 AND CR4_PAE_MASK \<noteq> 0 then pae_walk B addr is_write1 is_user q
              else legacy_walk B addr is_user (odd is_write1) q) of
          (Fault code, q1) \<Rightarrow> do_fault B addr is_write1 is_user code q1
        | (Page pte ptep virt_addr page_size, q1) \<Rightarrow>
            do_mapping addr pte virt_addr page_size (mmu_prot is_user (cr q1 0) pte ptep) mmu_idx q1)"

section \<open>The walk for debug accesses\<close>

text \<open>Both branches return \<^verbatim>\<open>pte\<close> and \<^verbatim>\<open>page_size\<close>; \<open>None\<close> is the early return of -1.\<close>

definition debug_pae ::
  "('a cpu_x86_scheme) board \<Rightarrow> u32 \<Rightarrow> 'a cpu_x86_scheme \<Rightarrow> (u32 \<times> u32) option \<times> 'a cpu_x86_scheme" where
  "debug_pae B addr q =
     (let pdpe_a = pdpe_addr addr q in
      case ldl_phys B pdpe_a q of (pdpe, q1) \<Rightarrow>
        if pdpe AND PG_PRESENT_MASK = 0 then (None, q1)
        else
          let pde_addr = pae_pde_addr pdpe addr q1 in
          case ldl_phys B pde_addr q1 of (pde, q2) \<Rightarrow>
            if pde AND PG_PRESENT_MASK = 0 then (None, q2)
            else if pde AND PG_PSE_MASK \<noteq> 0 then (Some (pde AND NOT 0x1ff000, 0x200000), q2)
            else
              let pte_addr = pae_pte_addr pde addr q2 in
              case ldl_phys B pte_addr q2 of (pte, q3) \<Rightarrow> (Some (pte, 0x1000), q3))"

definition debug_legacy ::
  "('a cpu_x86_scheme) board \<Rightarrow> u32 \<Rightarrow> 'a cpu_x86_scheme \<Rightarrow> (u32 \<times> u32) option \<times> 'a cpu_x86_scheme" where
  "debug_legacy B addr q =
     (if cr q 0 AND CR0_PG_MASK = 0 then (Some (addr AND a20_mask q, 0x1000), q)
      else
        let pde_addr = legacy_pde_addr addr q in
        case ldl_phys B pde_addr q of (pde, q1) \<Rightarrow>
          if pde AND PG_PRESENT_MASK = 0 then (None, q1)
          else if pde AND PG_PSE_MASK \<noteq> 0 \<and> cr q1 4 AND CR4_PSE_MASK \<noteq> 0
          then (Some (pde AND NOT 0x3ff000 AND a20_mask q1, 0x400000), q1)
          else
            let pte_addr = legacy_pte_addr pde addr q1 in
            case ldl_phys B pte_addr q1 of (pte, q2) \<Rightarrow>
              if pte AND PG_PRESENT_MASK = 0 then (None, q2)
              else (Some (pte AND a20_mask q2, 0x1000), q2))"

definition cpu_get_phys_page_debug ::
  "('a cpu_x86_scheme) board \<Rightarrow> u32 \<Rightarrow> 'a cpu_x86_scheme \<Rightarrow> u32 \<times> 'a cpu_x86_scheme" where
  "cpu_get_phys_page_debug B addr q =
     (case (if cr q 4 AND CR4_PAE_MASK \<noteq> 0 then debug_pae B addr q else debug_legacy B addr q) of
        (None, q1) \<Rightarrow> (-1, q1)
      | (Some (pte, page_size), q1) \<Rightarrow>
          (page_bits pte + (page_bits addr AND (page_size - 1)), q1))"

section \<open>Filling the TLB\<close>

text \<open>
  \<^verbatim>\<open>tlb_fill\<close> returns normally or raises the exception that the MMU has left in the CPU
  state; \<open>restore\<close> stands for \<^verbatim>\<open>tb_find_pc\<close> and \<^verbatim>\<open>cpu_restore_state\<close>, which bring the guest
  registers up to date when the host return address lies in translated code. The flag of the
  exception tells that the call came from translated code.
\<close>

datatype cpu_exception = Raised bool int u32

definition tlb_fill ::
  "('a cpu_x86_scheme) board \<Rightarrow> (u32 \<Rightarrow> 'a cpu_x86_scheme \<Rightarrow> 'a cpu_x86_scheme) \<Rightarrow>
   u32 \<Rightarrow> nat \<Rightarrow> nat \<Rightarrow> u32 \<Rightarrow> 'a cpu_x86_scheme \<Rightarrow> cpu_exception option \<times> 'a cpu_x86_scheme" where
  "tlb_fill B restore addr is_write mmu_idx retaddr q =
     (case cpu_x86_handle_mmu_fault B addr is_write mmu_idx q of
        (ret, q1) \<Rightarrow>
          if ret \<noteq> 0 then
            let q2 = (if retaddr \<noteq> 0 then restore retaddr q1 else q1) in
            (Some (Raised (retaddr \<noteq> 0) (exception_index q2) (error_code q2)), q2)
          else (None, q1))"

end
