(* ===== verification/OrderedMap.thy ===== *)
theory OrderedMap
  imports Prelude "HOL-Library.Tree"
begin

text \<open>
  The part of the C++ standard library the sources use for keyed data:
  \<^verbatim>\<open>std::map\<close> and \<^verbatim>\<open>std::set\<close> with a user-supplied comparator. A map is the list of
  its entries in iteration order. The first section gives the operations; the second shows
  that the search on the list is the search libstdc++ performs on its binary tree; the third
  is the contract of comparators that order keys as disjoint intervals, proved once and
  interpreted by the shadow memory, the symbol table and plain address keys.
\<close>

section \<open>Operations\<close>

text \<open>
  \<^verbatim>\<open>find(k)\<close>: the lower bound of \<open>k\<close> (the first entry that is not less than
  \<open>k\<close>), unless \<open>k\<close> is less than it.
\<close>

fun map_find :: "('k \<Rightarrow> 'k \<Rightarrow> bool) \<Rightarrow> 'k \<Rightarrow> ('k \<times> 'v) list \<Rightarrow> ('k \<times> 'v) option" where
  "map_find lt k [] = None"
| "map_find lt k (e # m) =
     (if lt (fst e) k then map_find lt k m
      else if lt k (fst e) then None else Some e)"

text \<open>
  \<^verbatim>\<open>insert\<close>: libstdc++ looks for the last entry that \<open>k\<close> is not less than; if that
  entry is less than \<open>k\<close> the new entry goes right after it, otherwise it blocks the insertion
  and is what the returned iterator points to. \<open>prev\<close> is the entry seen last.
\<close>

fun map_insert_after ::
  "('k \<Rightarrow> 'k \<Rightarrow> bool) \<Rightarrow> 'k \<Rightarrow> 'v \<Rightarrow> ('k \<times> 'v) option \<Rightarrow> ('k \<times> 'v) list \<Rightarrow>
   ('k \<times> 'v) option \<times> ('k \<times> 'v) list" where
  "map_insert_after lt k v prev [] =
     (case prev of
        None \<Rightarrow> (None, [(k, v)])
      | Some p \<Rightarrow> if lt (fst p) k then (None, [(k, v)]) else (Some p, []))"
| "map_insert_after lt k v prev (e # m) =
     (if lt k (fst e) then
        (case prev of
           None \<Rightarrow> (None, (k, v) # e # m)
         | Some p \<Rightarrow> if lt (fst p) k then (None, (k, v) # e # m) else (Some p, e # m))
      else (case map_insert_after lt k v (Some e) m of (b, m') \<Rightarrow> (b, e # m')))"

definition map_insert ::
  "('k \<Rightarrow> 'k \<Rightarrow> bool) \<Rightarrow> 'k \<Rightarrow> 'v \<Rightarrow> ('k \<times> 'v) list \<Rightarrow> ('k \<times> 'v) option \<times> ('k \<times> 'v) list" where
  "map_insert lt k v m = map_insert_after lt k v None m"

text \<open>\<^verbatim>\<open>erase(pos)\<close>: removes the entry an iterator points to.\<close>

fun map_erase :: "'k \<Rightarrow> ('k \<times> 'v) list \<Rightarrow> ('k \<times> 'v) list" where
  "map_erase k [] = []"
| "map_erase k (e # m) = (if fst e = k then m else e # map_erase k m)"

text \<open>\<^verbatim>\<open>m[k] = v\<close>: assigns to the entry equivalent to \<open>k\<close>, inserting it if there is none.\<close>

definition map_assign :: "('k \<Rightarrow> 'k \<Rightarrow> bool) \<Rightarrow> 'k \<Rightarrow> 'v \<Rightarrow> ('k \<times> 'v) list \<Rightarrow> ('k \<times> 'v) list" where
  "map_assign lt k v m =
     (case map_find lt k m of
        None \<Rightarrow> snd (map_insert lt k v m)
      | Some e \<Rightarrow> map (\<lambda>e'. if fst e' = fst e then (fst e', v) else e') m)"

section \<open>The search on the tree\<close>

text \<open>
  The loop of libstdc++'s \<^verbatim>\<open>_M_lower_bound\<close>: descend to the left below a node that is
  not less than \<open>k\<close> and remember it, to the right otherwise.
\<close>

fun tree_lower_bound ::
  "('k \<Rightarrow> 'k \<Rightarrow> bool) \<Rightarrow> 'k \<Rightarrow> ('k \<times> 'v) option \<Rightarrow> ('k \<times> 'v) tree \<Rightarrow> ('k \<times> 'v) option" where
  "tree_lower_bound lt k y \<langle>\<rangle> = y"
| "tree_lower_bound lt k y \<langle>l, x, r\<rangle> =
     (if \<not> lt (fst x) k then tree_lower_bound lt k (Some x) l
      else tree_lower_bound lt k y r)"

definition tree_find :: "('k \<Rightarrow> 'k \<Rightarrow> bool) \<Rightarrow> 'k \<Rightarrow> ('k \<times> 'v) tree \<Rightarrow> ('k \<times> 'v) option" where
  "tree_find lt k t =
     (case tree_lower_bound lt k None t of
        None \<Rightarrow> None
      | Some e \<Rightarrow> if lt k (fst e) then None else Some e)"

text \<open>
  The entries less than \<open>k\<close> form a prefix of the iteration order: the condition under which
  a binary search for \<open>k\<close> is meaningful.
\<close>

definition partitioned :: "('k \<Rightarrow> 'k \<Rightarrow> bool) \<Rightarrow> 'k \<Rightarrow> ('k \<times> 'v) list \<Rightarrow> bool" where
  "partitioned lt k m = sorted_wrt (\<lambda>x y. lt (fst y) k \<longrightarrow> lt (fst x) k) m"

fun list_lower_bound ::
  "('k \<Rightarrow> 'k \<Rightarrow> bool) \<Rightarrow> 'k \<Rightarrow> ('k \<times> 'v) option \<Rightarrow> ('k \<times> 'v) list \<Rightarrow> ('k \<times> 'v) option" where
  "list_lower_bound lt k y [] = y"
| "list_lower_bound lt k y (e # m) = (if lt (fst e) k then list_lower_bound lt k y m else Some e)"

lemma list_lower_bound_append:
  "list_lower_bound lt k y (xs @ ys) =
     list_lower_bound lt k (list_lower_bound lt k y ys) xs"
  by (induction xs) auto

lemma list_lower_bound_all_less:
  "\<forall>e\<in>set m. lt (fst e) k \<Longrightarrow> list_lower_bound lt k y m = y"
  by (induction m) auto

lemma tree_lower_bound_inorder:
  "partitioned lt k (inorder t) \<Longrightarrow>
   tree_lower_bound lt k y t = list_lower_bound lt k y (inorder t)"
proof (induction t arbitrary: y)
  case Leaf
  then show ?case by simp
next
  case (Node l x r)
  then have "partitioned lt k (inorder l)" "partitioned lt k (inorder r)"
    by (auto simp: partitioned_def sorted_wrt_append_iff)
  moreover have "\<forall>e\<in>set (inorder l). lt (fst e) k" if "lt (fst x) k"
    using Node.prems that by (auto simp: partitioned_def sorted_wrt_append_iff)
  ultimately show ?case
    using Node.IH by (auto simp: list_lower_bound_append list_lower_bound_all_less)
qed

lemma map_find_lower_bound:
  "map_find lt k m =
     (case list_lower_bound lt k None m of
        None \<Rightarrow> None
      | Some e \<Rightarrow> if lt k (fst e) then None else Some e)"
  by (induction m) auto

lemma tree_find_inorder:
  "partitioned lt k (inorder t) \<Longrightarrow> tree_find lt k t = map_find lt k (inorder t)"
  by (simp add: tree_find_def map_find_lower_bound tree_lower_bound_inorder)

section \<open>Keys that are intervals\<close>

text \<open>
  \<open>lo\<close> and \<open>hi\<close> read a key as the half-open interval \<open>[lo, hi)\<close>; a \<open>proper\<close> key is one
  on which the comparator means that the interval ends before the other key starts.
\<close>

locale interval_key =
  fixes lt :: "'k \<Rightarrow> 'k \<Rightarrow> bool"
    and lo :: "'k \<Rightarrow> nat"
    and hi :: "'k \<Rightarrow> nat"
    and proper :: "'k \<Rightarrow> bool"
  assumes lo_less_hi: "lo x < hi x"
    and lt_iff: "proper x \<Longrightarrow> lt x y \<longleftrightarrow> hi x \<le> lo y"
begin

definition keys_ok :: "('k \<times> 'v) list \<Rightarrow> bool" where
  "keys_ok m \<longleftrightarrow> (\<forall>e\<in>set m. proper (fst e)) \<and> sorted_wrt (\<lambda>x y. hi (fst x) \<le> lo (fst y)) m"

definition covered :: "('k \<times> 'v) list \<Rightarrow> nat set" where
  "covered m = (\<Union>e\<in>set m. {lo (fst e)..<hi (fst e)})"

definition overlaps :: "'k \<Rightarrow> 'k \<Rightarrow> bool" where
  "overlaps x y \<longleftrightarrow> lo x < hi y \<and> lo y < hi x"

lemma overlaps_iff: "overlaps x y \<longleftrightarrow> {lo x..<hi x} \<inter> {lo y..<hi y} \<noteq> {}"
proof
  assume "overlaps x y"
  then have "max (lo x) (lo y) \<in> {lo x..<hi x} \<inter> {lo y..<hi y}"
    using lo_less_hi [of x] lo_less_hi [of y] by (auto simp: overlaps_def)
  then show "{lo x..<hi x} \<inter> {lo y..<hi y} \<noteq> {}" by blast
qed (auto simp: overlaps_def)

lemma keys_ok_Nil [simp]: "keys_ok []"
  by (simp add: keys_ok_def)

lemma keys_ok_Cons:
  "keys_ok (e # m) \<longleftrightarrow>
     proper (fst e) \<and> (\<forall>x\<in>set m. hi (fst e) \<le> lo (fst x)) \<and> keys_ok m"
  by (auto simp: keys_ok_def)

lemma keys_ok_append:
  "keys_ok (m @ m') \<longleftrightarrow>
     keys_ok m \<and> keys_ok m' \<and> (\<forall>x\<in>set m. \<forall>y\<in>set m'. hi (fst x) \<le> lo (fst y))"
  by (auto simp: keys_ok_def sorted_wrt_append)

lemma covered_Nil [simp]: "covered [] = {}"
  by (simp add: covered_def)

lemma covered_Cons: "covered (e # m) = {lo (fst e)..<hi (fst e)} \<union> covered m"
  by (simp add: covered_def)

lemma covered_append: "covered (m @ m') = covered m \<union> covered m'"
  by (auto simp: covered_def)

lemma keys_ok_partitioned: "keys_ok m \<Longrightarrow> partitioned lt k m"
proof (induction m)
  case Nil
  then show ?case by (simp add: partitioned_def)
next
  case (Cons e m)
  have "lt (fst e) k" if "x \<in> set m" "lt (fst x) k" for x
    using that Cons.prems lo_less_hi [of "fst x"]
    by (fastforce simp: keys_ok_def lt_iff)
  with Cons show ?case by (auto simp: partitioned_def keys_ok_Cons)
qed

text \<open>Every tree with these entries is searched to the same result as the list.\<close>

lemma tree_find_keys_ok: "keys_ok (inorder t) \<Longrightarrow> tree_find lt k t = map_find lt k (inorder t)"
  by (simp add: keys_ok_partitioned tree_find_inorder)

lemma find_SomeD:
  "keys_ok m \<Longrightarrow> proper k \<Longrightarrow> map_find lt k m = Some e \<Longrightarrow> e \<in> set m \<and> overlaps (fst e) k"
  by (induction m) (auto simp: keys_ok_Cons lt_iff overlaps_def split: if_splits)

lemma find_None_iff:
  "keys_ok m \<Longrightarrow> proper k \<Longrightarrow>
   map_find lt k m = None \<longleftrightarrow> (\<forall>e\<in>set m. \<not> overlaps (fst e) k)"
proof (induction m)
  case Nil
  then show ?case by simp
next
  case (Cons e m)
  have "\<not> overlaps (fst x) k" if "x \<in> set m" "hi k \<le> lo (fst e)" for x
    using that Cons.prems lo_less_hi [of "fst e"] by (fastforce simp: keys_ok_Cons overlaps_def)
  with Cons show ?case
    by (auto simp: keys_ok_Cons lt_iff overlaps_def)
qed

lemma covered_overlaps:
  "{lo k..<hi k} \<inter> covered m = {} \<longleftrightarrow> (\<forall>e\<in>set m. \<not> overlaps (fst e) k)"
proof -
  have "{lo k..<hi k} \<inter> covered m = (\<Union>e\<in>set m. {lo (fst e)..<hi (fst e)} \<inter> {lo k..<hi k})"
    by (auto simp: covered_def)
  then show ?thesis by (simp only: overlaps_iff) blast
qed

lemma find_None_covered:
  "keys_ok m \<Longrightarrow> proper k \<Longrightarrow>
   map_find lt k m = None \<longleftrightarrow> {lo k..<hi k} \<inter> covered m = {}"
  by (simp add: find_None_iff covered_overlaps)

text \<open>A search for a single point finds exactly the interval that holds it.\<close>

lemma find_point_iff:
  assumes "keys_ok m" "proper k" "hi k = Suc (lo k)"
  shows "map_find lt k m = Some e \<longleftrightarrow> e \<in> set m \<and> lo (fst e) \<le> lo k \<and> lo k < hi (fst e)"
  using assms
proof (induction m)
  case Nil
  then show ?case by simp
next
  case (Cons d m)
  have "\<not> (lo (fst x) \<le> lo k)" if "x \<in> set m" "lo k < hi (fst d)" for x
    using that Cons.prems by (fastforce simp: keys_ok_Cons)
  with Cons show ?case
    by (auto simp: keys_ok_Cons lt_iff)
qed

lemma erase_split:
  "keys_ok m \<Longrightarrow> e \<in> set m \<Longrightarrow>
   \<exists>xs ys. m = xs @ e # ys \<and> map_erase (fst e) m = xs @ ys"
proof (induction m)
  case Nil
  then show ?case by simp
next
  case (Cons d m)
  show ?case
  proof (cases "fst d = fst e")
    case True
    have "d = e"
    proof (rule ccontr)
      assume "d \<noteq> e"
      with Cons.prems have "hi (fst d) \<le> lo (fst e)" by (auto simp: keys_ok_Cons)
      with True lo_less_hi [of "fst e"] show False by simp
    qed
    then show ?thesis by (intro exI [of _ "[]"] exI [of _ m]) auto
  next
    case False
    with Cons obtain xs ys where "m = xs @ e # ys" "map_erase (fst e) m = xs @ ys"
      by (auto simp: keys_ok_Cons)
    with False show ?thesis by (intro exI [of _ "d # xs"] exI [of _ ys]) auto
  qed
qed

lemma covered_disjoint:
  "(\<forall>x\<in>set m. hi (fst x) \<le> lo (fst e) \<or> hi (fst e) \<le> lo (fst x)) \<Longrightarrow>
   {lo (fst e)..<hi (fst e)} \<inter> covered m = {}"
  by (auto simp: covered_overlaps overlaps_def)

lemma erase_covered:
  assumes "keys_ok m" "e \<in> set m"
  shows "covered (map_erase (fst e) m) = covered m - {lo (fst e)..<hi (fst e)}"
proof -
  obtain xs ys where m: "m = xs @ e # ys" "map_erase (fst e) m = xs @ ys"
    using erase_split [OF assms] by blast
  with assms(1) have "{lo (fst e)..<hi (fst e)} \<inter> covered xs = {}"
      "{lo (fst e)..<hi (fst e)} \<inter> covered ys = {}"
    by (simp_all add: keys_ok_append keys_ok_Cons covered_disjoint)
  with m show ?thesis by (auto simp: covered_append covered_Cons)
qed

lemma erase_keys_ok: "keys_ok m \<Longrightarrow> e \<in> set m \<Longrightarrow> keys_ok (map_erase (fst e) m)"
  using erase_split [of m e] by (auto simp: keys_ok_append keys_ok_Cons)

lemma insert_after_free:
  assumes "keys_ok m" "proper k" "\<forall>e\<in>set m. \<not> overlaps (fst e) k"
    and "\<forall>p. prev = Some p \<longrightarrow> proper (fst p) \<and> hi (fst p) \<le> lo k"
  shows "\<exists>xs ys. m = xs @ ys \<and> map_insert_after lt k v prev m = (None, xs @ (k, v) # ys) \<and>
           (\<forall>x\<in>set xs. hi (fst x) \<le> lo k) \<and> (\<forall>y\<in>set ys. hi k \<le> lo (fst y))"
  using assms
proof (induction m arbitrary: prev)
  case Nil
  then show ?case by (auto simp: lt_iff split: option.splits)
next
  case (Cons e m)
  show ?case
  proof (cases "lt k (fst e)")
    case True
    have "\<forall>y\<in>set (e # m). hi k \<le> lo (fst y)"
      using True Cons.prems lo_less_hi [of "fst e"] by (fastforce simp: keys_ok_Cons lt_iff)
    with True Cons.prems show ?thesis
      by (intro exI [of _ "[]"] exI [of _ "e # m"]) (auto simp: lt_iff split: option.splits)
  next
    case False
    with Cons.prems have e: "hi (fst e) \<le> lo k"
      by (auto simp: lt_iff overlaps_def)
    then obtain xs ys where "m = xs @ ys"
      "map_insert_after lt k v (Some e) m = (None, xs @ (k, v) # ys)"
      "\<forall>x\<in>set xs. hi (fst x) \<le> lo k" "\<forall>y\<in>set ys. hi k \<le> lo (fst y)"
      using Cons.IH [of "Some e"] Cons.prems by (auto simp: keys_ok_Cons)
    with False e show ?thesis by (intro exI [of _ "e # xs"] exI [of _ ys]) auto
  qed
qed

lemma insert_free:
  assumes "keys_ok m" "proper k" "{lo k..<hi k} \<inter> covered m = {}"
  shows "\<exists>xs ys. m = xs @ ys \<and> map_insert lt k v m = (None, xs @ (k, v) # ys) \<and>
           keys_ok (xs @ (k, v) # ys) \<and> covered (xs @ (k, v) # ys) = covered m \<union> {lo k..<hi k}"
proof -
  have "\<forall>e\<in>set m. \<not> overlaps (fst e) k"
    using assms(3) by (simp add: covered_overlaps)
  then obtain xs ys where m: "m = xs @ ys" "map_insert lt k v m = (None, xs @ (k, v) # ys)"
    and *: "\<forall>x\<in>set xs. hi (fst x) \<le> lo k" "\<forall>y\<in>set ys. hi k \<le> lo (fst y)"
    using insert_after_free [OF assms(1,2), of None v] by (auto simp: map_insert_def)
  have "keys_ok (xs @ (k, v) # ys)"
    using m(1) * assms(1,2) by (auto simp: keys_ok_append keys_ok_Cons)
  moreover have "covered (xs @ (k, v) # ys) = covered m \<union> {lo k..<hi k}"
    using m(1) by (auto simp: covered_append covered_Cons)
  ultimately show ?thesis using m by blast
qed

lemma insert_last:
  assumes "keys_ok m" "proper k" "\<forall>e\<in>set m. hi (fst e) \<le> lo k"
  shows "map_insert lt k v m = (None, m @ [(k, v)])"
proof -
  have "{lo k..<hi k} \<inter> covered m = {}"
    using assms(3) by (auto simp: covered_overlaps overlaps_def)
  then have "\<forall>e\<in>set m. \<not> overlaps (fst e) k" by (simp add: covered_overlaps)
  then obtain xs ys where m: "m = xs @ ys" "map_insert lt k v m = (None, xs @ (k, v) # ys)"
    and "\<forall>y\<in>set ys. hi k \<le> lo (fst y)"
    using insert_after_free [OF assms(1,2), of None v] by (auto simp: map_insert_def)
  moreover have "ys = []"
  proof (rule ccontr)
    assume "ys \<noteq> []"
    then obtain y where "y \<in> set ys" by (cases ys) auto
    with calculation assms(3) have "hi k \<le> lo (fst y)" "hi (fst y) \<le> lo k" by auto
    with lo_less_hi [of k] lo_less_hi [of "fst y"] show False by linarith
  qed
  ultimately show ?thesis by simp
qed

lemma insert_after_blocked:
  assumes "keys_ok m" "proper k"
    and "(\<exists>e\<in>set m. overlaps (fst e) k) \<or> (\<exists>p. prev = Some p \<and> overlaps (fst p) k)"
    and "\<forall>p. prev = Some p \<longrightarrow> proper (fst p) \<and> \<not> hi k \<le> lo (fst p) \<and>
           (\<forall>x\<in>set m. hi (fst p) \<le> lo (fst x))"
  shows "\<exists>b. map_insert_after lt k v prev m = (Some b, m) \<and> overlaps (fst b) k \<and>
           (b \<in> set m \<or> prev = Some b)"
  using assms
proof (induction m arbitrary: prev)
  case Nil
  then show ?case by (auto simp: lt_iff overlaps_def split: option.splits)
next
  case (Cons e m)
  show ?case
  proof (cases "lt k (fst e)")
    case True
    then have le: "hi k \<le> lo (fst e)" using Cons.prems by (simp add: lt_iff)
    then have "\<forall>x\<in>set (e # m). \<not> overlaps (fst x) k"
      using Cons.prems(1) lo_less_hi [of "fst e"] by (fastforce simp: keys_ok_Cons overlaps_def)
    with Cons.prems(3) obtain p where "prev = Some p" "overlaps (fst p) k" by blast
    with True Cons.prems(4) show ?thesis by (auto simp: lt_iff overlaps_def)
  next
    case False
    have "(\<exists>x\<in>set m. overlaps (fst x) k) \<or> overlaps (fst e) k"
    proof (rule ccontr)
      assume none: "\<not> ?thesis"
      with Cons.prems(3) obtain p where p: "prev = Some p" "overlaps (fst p) k" by auto
      with Cons.prems(4) have "hi (fst p) \<le> lo (fst e)" by simp
      with p none False Cons.prems(2) lo_less_hi [of "fst e"] show False
        by (auto simp: lt_iff overlaps_def)
    qed
    with False Cons.prems obtain b where
      "map_insert_after lt k v (Some e) m = (Some b, m)" "overlaps (fst b) k"
      "b \<in> set m \<or> b = e"
      using Cons.IH [of "Some e"] by (auto simp: keys_ok_Cons lt_iff)
    with False show ?thesis by auto
  qed
qed

lemma insert_blocked:
  assumes "keys_ok m" "proper k" "{lo k..<hi k} \<inter> covered m \<noteq> {}"
  shows "\<exists>b. map_insert lt k v m = (Some b, m) \<and> b \<in> set m \<and> overlaps (fst b) k"
proof -
  have "\<exists>e\<in>set m. overlaps (fst e) k"
    using assms(3) by (simp add: covered_overlaps)
  then show ?thesis
    using insert_after_blocked [OF assms(1,2), of None v] by (auto simp: map_insert_def)
qed

end

end
