(* ===== verification/ShadowMemory.thy ===== *)
theory ShadowMemory
  imports OrderedMap
begin

text \<open>
  The record of the guest's live heap allocations (\<^verbatim>\<open>ShadowMemory.h\<close>,
  \<^verbatim>\<open>ShadowMemory.cpp\<close>): a \<^verbatim>\<open>std::map\<close> from blocks to their contents, ordered by a
  comparator under which two blocks are equivalent when they overlap. The operations return
  the C++ return value, the diagnostics they print and the new map.
\<close>

section \<open>Data\<close>

record MemoryAllocContents =
  mc_Type :: int

record MemoryAlloc =
  ma_Address :: Addr32
  ma_Size :: u32

abbreviation Block :: "Addr32 \<Rightarrow> u32 \<Rightarrow> MemoryAlloc" where
  "Block a n \<equiv> \<lparr>ma_Address = a, ma_Size = n\<rparr>"

text \<open>The comparator \<^verbatim>\<open>MemoryAlloc::operator()\<close>; the additions wrap at 32 bits.\<close>

definition ma_less :: "MemoryAlloc \<Rightarrow> MemoryAlloc \<Rightarrow> bool" where
  "ma_less x y =
     (if ma_Size x \<noteq> 0 then ma_Address x + ma_Size x \<le> ma_Address y
      else ma_Address x + ma_Size x < ma_Address y)"

type_synonym ShadowMemory = "(MemoryAlloc \<times> MemoryAllocContents) list"

definition new_contents :: "u32 \<Rightarrow> int \<Rightarrow> MemoryAllocContents" where
  "new_contents sz ty = \<lparr>mc_Type = ty\<rparr>"

text \<open>The diagnostics, with the values the \<^verbatim>\<open>printf\<close> calls show.\<close>

datatype shadow_msg =
    AllocationExists Addr32 u32 Addr32 u32
  | NoAllocatedMemory Addr32
  | FreeMiddle Addr32 u32 Addr32
  | FreeMiddleSize Addr32 u32 Addr32 u32
  | SizeMismatch Addr32 u32 u32
  | Truncating

section \<open>Operations\<close>

definition NewMemoryAlloc ::
  "int \<Rightarrow> Addr32 \<Rightarrow> u32 \<Rightarrow> ShadowMemory \<Rightarrow> int \<times> shadow_msg list \<times> ShadowMemory" where
  "NewMemoryAlloc ty allocPtr sz m =
     (case map_insert ma_less (Block allocPtr sz) (new_contents sz ty) m of
        (Some p, m') \<Rightarrow>
          (1, [AllocationExists allocPtr sz (ma_Address (fst p)) (ma_Size (fst p))], m')
      | (None, m') \<Rightarrow> (0, [], m'))"

definition FreeMemory ::
  "int \<Rightarrow> Addr32 \<Rightarrow> ShadowMemory \<Rightarrow> int \<times> shadow_msg list \<times> ShadowMemory" where
  "FreeMemory ty freePtr m =
     (if freePtr = 0 then (0, [], m)
      else case map_find ma_less (Block freePtr 0) m of
        None \<Rightarrow> (1, [NoAllocatedMemory freePtr], m)
      | Some pos \<Rightarrow>
          if ma_Address (fst pos) = freePtr then (0, [], map_erase (fst pos) m)
          else (1, [FreeMiddle (ma_Address (fst pos)) (ma_Size (fst pos)) freePtr], m))"

definition FreeSizeMemory ::
  "int \<Rightarrow> Addr32 \<Rightarrow> u32 \<Rightarrow> ShadowMemory \<Rightarrow> int \<times> shadow_msg list \<times> ShadowMemory" where
  "FreeSizeMemory ty freePtr sz m =
     (if freePtr = 0 then (0, [], m)
      else case map_find ma_less (Block freePtr 0) m of
        None \<Rightarrow> (1, [NoAllocatedMemory freePtr], m)
      | Some pos \<Rightarrow>
          let addr = ma_Address (fst pos); old = ma_Size (fst pos) in
          if addr = freePtr then
            if old \<noteq> sz then
              if sz < old then
                let newSize = old - sz; newAddress = addr + sz in
                (1, [SizeMismatch freePtr old sz, Truncating],
                 snd (map_insert ma_less (Block newAddress newSize) (new_contents newSize ty)
                        (map_erase (fst pos) m)))
              else (1, [SizeMismatch freePtr old sz], m)
            else (0, [], map_erase (fst pos) m)
          else (1, [FreeMiddleSize addr old freePtr sz], m))"

definition FreeAnySizeMemory ::
  "int \<Rightarrow> Addr32 \<Rightarrow> u32 \<Rightarrow> ShadowMemory \<Rightarrow> int \<times> shadow_msg list \<times> ShadowMemory" where
  "FreeAnySizeMemory ty freePtr sz m =
     (if freePtr = 0 then (0, [], m)
      else case map_find ma_less (Block freePtr 0) m of
        None \<Rightarrow> (1, [NoAllocatedMemory freePtr], m)
      | Some pos \<Rightarrow>
          let oldAddress = ma_Address (fst pos); oldSize = ma_Size (fst pos);
              m1 = map_erase (fst pos) m in
          if oldAddress = freePtr then
            if oldSize \<noteq> sz \<and> sz < oldSize then
              let newSize = oldSize - sz; newAddress = oldAddress + sz in
              (0, [], snd (map_insert ma_less (Block newAddress newSize)
                             (new_contents newSize ty) m1))
            else (0, [], m1)
          else
            let n1 = freePtr - oldAddress;
                m2 = snd (map_insert ma_less (Block oldAddress n1) (new_contents n1 ty) m1) in
            if freePtr + sz \<noteq> oldAddress + oldSize then
              let n2 = oldAddress + oldSize - (freePtr + sz) in
              (0, [], snd (map_insert ma_less (Block (freePtr + sz) n2)
                             (new_contents n2 ty) m2))
            else (0, [], m2))"

section \<open>Blocks as intervals\<close>

text \<open>
  A block of size 0 is ordered like a block of one byte. The end of a block must not wrap:
  the comparator adds address and size in 32 bits.
\<close>

definition ma_lo :: "MemoryAlloc \<Rightarrow> nat" where
  "ma_lo x = unat (ma_Address x)"

definition ma_hi :: "MemoryAlloc \<Rightarrow> nat" where
  "ma_hi x = unat (ma_Address x) + max 1 (unat (ma_Size x))"

definition no_wrap :: "MemoryAlloc \<Rightarrow> bool" where
  "no_wrap x \<longleftrightarrow> unat (ma_Address x) + unat (ma_Size x) < 2 ^ 32"

interpretation ma: interval_key ma_less ma_lo ma_hi no_wrap
proof
  fix x show "ma_lo x < ma_hi x" by (simp add: ma_lo_def ma_hi_def)
next
  fix x y assume "no_wrap x"
  then have "unat (ma_Address x + ma_Size x) = unat (ma_Address x) + unat (ma_Size x)"
    by (simp add: no_wrap_def unat_add_no_wrap32)
  then show "ma_less x y = (ma_hi x \<le> ma_lo y)"
    by (auto simp: ma_less_def ma_lo_def ma_hi_def word_le_nat_alt word_less_nat_alt
        max_def unat_eq_zero not_le dest: unat_pos_iff [THEN iffD2])
qed

text \<open>
  The abstraction: the addresses that lie in a recorded block. A shadow memory is well
  formed when its blocks do not wrap and are pairwise disjoint, in address order.
\<close>

definition allocated :: "ShadowMemory \<Rightarrow> nat set" where
  "allocated m = (\<Union>e\<in>set m. {ma_lo (fst e)..<ma_hi (fst e)})"

definition wf_shadow :: "ShadowMemory \<Rightarrow> bool" where
  "wf_shadow m \<longleftrightarrow>
     (\<forall>e\<in>set m. no_wrap (fst e)) \<and> sorted_wrt (\<lambda>x y. ma_hi (fst x) \<le> ma_lo (fst y)) m"

lemma wf_shadow_keys_ok: "wf_shadow m = ma.keys_ok m"
  by (simp add: wf_shadow_def ma.keys_ok_def)

lemma allocated_covered: "allocated m = ma.covered m"
  by (simp add: allocated_def ma.covered_def)

lemma wf_shadow_Nil [simp]: "wf_shadow []"
  by (simp add: wf_shadow_def)

lemma allocated_Nil [simp]: "allocated [] = {}"
  by (simp add: allocated_def)

lemma Block_eta: "Block (ma_Address x) (ma_Size x) = x"
  by simp

lemma no_wrap_point [simp]: "no_wrap (Block p 0)"
  using unat_less_pow32 [of p] by (simp add: no_wrap_def)

lemma ma_point [interval_simps]: "ma_lo (Block p 0) = unat p" "ma_hi (Block p 0) = Suc (unat p)"
  by (simp_all add: ma_lo_def ma_hi_def)


section \<open>Effect on the block set\<close>

lemma shadow_find_iff:
  "wf_shadow m \<Longrightarrow>
   map_find ma_less (Block p 0) m = Some e \<longleftrightarrow>
     e \<in> set m \<and> ma_lo (fst e) \<le> unat p \<and> unat p < ma_hi (fst e)"
  by (simp add: wf_shadow_keys_ok ma.find_point_iff ma_point)

lemma shadow_find_None:
  "wf_shadow m \<Longrightarrow> map_find ma_less (Block p 0) m = None \<longleftrightarrow> unat p \<notin> allocated m"
  by (auto simp: wf_shadow_keys_ok allocated_covered ma.find_None_covered ma_point)

lemma wf_shadow_unique:
  assumes "wf_shadow m" "e \<in> set m" "e' \<in> set m"
    and "a \<in> {ma_lo (fst e)..<ma_hi (fst e)}" "a \<in> {ma_lo (fst e')..<ma_hi (fst e')}"
  shows "e = e'"
proof -
  have "sorted_wrt (\<lambda>x y. ma_hi (fst x) \<le> ma_lo (fst y)) m"
    using assms(1) by (simp add: wf_shadow_def)
  from this assms(2-) show ?thesis by (induction m) fastforce+
qed

lemma shadow_erase:
  assumes "wf_shadow m" "e \<in> set m"
  shows "wf_shadow (map_erase (fst e) m)"
    and "set (map_erase (fst e) m) = set m - {e}"
    and "allocated (map_erase (fst e) m) = allocated m - {ma_lo (fst e)..<ma_hi (fst e)}"
proof -
  show "wf_shadow (map_erase (fst e) m)"
    using assms by (simp add: wf_shadow_keys_ok ma.erase_keys_ok)
  show "allocated (map_erase (fst e) m) = allocated m - {ma_lo (fst e)..<ma_hi (fst e)}"
    using assms by (simp add: wf_shadow_keys_ok allocated_covered ma.erase_covered)
  obtain xs ys where m: "m = xs @ e # ys" "map_erase (fst e) m = xs @ ys"
    using ma.erase_split [of m e] assms by (auto simp: wf_shadow_keys_ok)
  moreover have "e \<notin> set (xs @ ys)"
    using assms(1) ma.lo_less_hi [of "fst e"] m(1)
    by (auto simp: wf_shadow_def sorted_wrt_append)
  ultimately show "set (map_erase (fst e) m) = set m - {e}" by auto
qed

lemma shadow_insert_free:
  assumes "wf_shadow m" "no_wrap k" "{ma_lo k..<ma_hi k} \<inter> allocated m = {}"
  obtains m' where "map_insert ma_less k v m = (None, m')" "wf_shadow m'"
    "set m' = insert (k, v) (set m)" "allocated m' = allocated m \<union> {ma_lo k..<ma_hi k}"
  using ma.insert_free [of m k v] assms
  by (auto simp: wf_shadow_keys_ok allocated_covered)

lemma shadow_insert_blocked:
  assumes "wf_shadow m" "no_wrap k" "{ma_lo k..<ma_hi k} \<inter> allocated m \<noteq> {}"
  obtains b where "map_insert ma_less k v m = (Some b, m)" "b \<in> set m"
    "{ma_lo (fst b)..<ma_hi (fst b)} \<inter> {ma_lo k..<ma_hi k} \<noteq> {}"
  using ma.insert_blocked [of m k v] assms
  by (auto simp: wf_shadow_keys_ok allocated_covered ma.overlaps_iff)


section \<open>Correctness of the operations\<close>

lemma NewMemoryAlloc_free:
  assumes "wf_shadow m" "no_wrap (Block p n)"
    and "{unat p..<unat p + max 1 (unat n)} \<inter> allocated m = {}"
  shows "\<exists>m'. NewMemoryAlloc ty p n m = (0, [], m') \<and> wf_shadow m' \<and>
           set m' = insert (Block p n, new_contents n ty) (set m) \<and>
           allocated m' = allocated m \<union> {unat p..<unat p + max 1 (unat n)}"
proof -
  obtain m' where "map_insert ma_less (Block p n) (new_contents n ty) m = (None, m')"
    "wf_shadow m'" "set m' = insert (Block p n, new_contents n ty) (set m)"
    "allocated m' = allocated m \<union> {unat p..<unat p + max 1 (unat n)}"
    using shadow_insert_free [OF assms(1,2), of "new_contents n ty"] assms(3)
    by (auto simp: ma_lo_def ma_hi_def)
  then show ?thesis by (simp add: NewMemoryAlloc_def)
qed

lemma NewMemoryAlloc_blocked:
  assumes "wf_shadow m" "no_wrap (Block p n)"
    and "{unat p..<unat p + max 1 (unat n)} \<inter> allocated m \<noteq> {}"
  shows "\<exists>b\<in>set m. NewMemoryAlloc ty p n m =
             (1, [AllocationExists p n (ma_Address (fst b)) (ma_Size (fst b))], m) \<and>
           {ma_lo (fst b)..<ma_hi (fst b)} \<inter> {unat p..<unat p + max 1 (unat n)} \<noteq> {}"
proof -
  obtain b where "map_insert ma_less (Block p n) (new_contents n ty) m = (Some b, m)"
    "b \<in> set m"
    "{ma_lo (fst b)..<ma_hi (fst b)} \<inter> {unat p..<unat p + max 1 (unat n)} \<noteq> {}"
    using shadow_insert_blocked [OF assms(1,2), of "new_contents n ty"] assms(3)
    by (auto simp: ma_lo_def ma_hi_def)
  then show ?thesis by (intro bexI [of _ b]) (simp_all add: NewMemoryAlloc_def)
qed

lemma FreeMemory_hit:
  assumes "wf_shadow m" "p \<noteq> 0" "e \<in> set m" "ma_Address (fst e) = p"
  shows "FreeMemory ty p m = (0, [], map_erase (fst e) m)"
proof -
  have "map_find ma_less (Block p 0) m = Some e"
    using assms ma.lo_less_hi [of "fst e"] by (auto simp: shadow_find_iff ma_lo_def)
  with assms show ?thesis by (simp add: FreeMemory_def)
qed

lemma FreeMemory_miss:
  assumes "wf_shadow m" "p \<noteq> 0" "\<forall>e\<in>set m. ma_Address (fst e) \<noteq> p"
  shows "\<exists>msg. FreeMemory ty p m = (1, [msg], m)"
  using assms by (auto simp: FreeMemory_def shadow_find_iff split: option.splits)

text \<open>
  One lemma covers the two frees that split a block: the pieces of \<open>e\<close> outside the freed
  range are put back.
\<close>

lemma shadow_cut_base:
  assumes wf: "wf_shadow m" and e: "e \<in> set m" and n: "n < ma_Size (fst e)"
    and def: "k = Block (ma_Address (fst e) + n) (ma_Size (fst e) - n)"
  shows "\<exists>m'. map_insert ma_less k v (map_erase (fst e) m) = (None, m') \<and> wf_shadow m' \<and>
           set m' = insert (k, v) (set m - {e}) \<and>
           allocated m' = allocated m - {ma_lo (fst e)..<ma_lo (fst e) + unat n}"
proof -
  let ?a = "unat (ma_Address (fst e))" and ?s = "unat (ma_Size (fst e))"
  have ok: "?a + ?s < 2 ^ 32" and lt: "unat n < ?s"
    using wf e n by (auto simp: wf_shadow_def no_wrap_def word_less_nat_alt)
  have lo: "ma_lo k = ?a + unat n" and sz: "unat (ma_Size k) = ?s - unat n"
    using ok lt n by (simp_all add: def ma_lo_def unat_add_no_wrap32 unat_sub_le32 less_imp_le)
  have hi: "ma_hi k = ma_hi (fst e)" and nw: "no_wrap k"
    using ok lt lo sz by (simp_all add: ma_lo_def ma_hi_def no_wrap_def)
  have iv: "{ma_lo k..<ma_hi k} \<subseteq> {ma_lo (fst e)..<ma_hi (fst e)}"
    using lo hi by (auto simp: ma_lo_def)
  have sub: "{ma_lo (fst e)..<ma_hi (fst e)} \<subseteq> allocated m"
    using e by (auto simp: allocated_def)
  note erased = shadow_erase [OF wf e]
  have "{ma_lo k..<ma_hi k} \<inter> allocated (map_erase (fst e) m) = {}"
    using iv erased(3) by auto
  then obtain m' where "map_insert ma_less k v (map_erase (fst e) m) = (None, m')" "wf_shadow m'"
    "set m' = insert (k, v) (set m - {e})"
    "allocated m' = (allocated m - {ma_lo (fst e)..<ma_hi (fst e)}) \<union> {ma_lo k..<ma_hi k}"
    using shadow_insert_free [OF erased(1) nw, of v] erased by metis
  moreover have "(allocated m - {ma_lo (fst e)..<ma_hi (fst e)}) \<union> {ma_lo k..<ma_hi k} =
      allocated m - {ma_lo (fst e)..<ma_lo (fst e) + unat n}"
    using sub lo hi lt by (auto simp: ma_lo_def ma_hi_def)
  ultimately show ?thesis by auto
qed

lemma shadow_find_base:
  "wf_shadow m \<Longrightarrow> e \<in> set m \<Longrightarrow> map_find ma_less (Block (ma_Address (fst e)) 0) m = Some e"
  using ma.lo_less_hi [of "fst e"] by (auto simp: shadow_find_iff ma_lo_def)

lemma FreeSizeMemory_exact:
  assumes "wf_shadow m" "p \<noteq> 0" "e \<in> set m" "fst e = Block p n"
  shows "FreeSizeMemory ty p n m = (0, [], map_erase (fst e) m)"
  using shadow_find_base [OF assms(1,3)] assms by (simp add: FreeSizeMemory_def)

lemma FreeSizeMemory_short:
  assumes "wf_shadow m" "p \<noteq> 0" "e \<in> set m" "fst e = Block p k" "n < k"
  shows "\<exists>m'. FreeSizeMemory ty p n m = (1, [SizeMismatch p k n, Truncating], m') \<and>
           wf_shadow m' \<and>
           set m' = insert (Block (p + n) (k - n), new_contents (k - n) ty) (set m - {e}) \<and>
           allocated m' = allocated m - {unat p..<unat p + unat n}"
  using shadow_find_base [OF assms(1,3)] assms
    shadow_cut_base [OF assms(1,3), of n "Block (p + n) (k - n)" "new_contents (k - n) ty"]
  by (auto simp: FreeSizeMemory_def ma_lo_def Let_def)

lemma FreeSizeMemory_long:
  assumes "wf_shadow m" "p \<noteq> 0" "e \<in> set m" "fst e = Block p k" "k < n"
  shows "FreeSizeMemory ty p n m = (1, [SizeMismatch p k n], m)"
  using shadow_find_base [OF assms(1,3)] assms by (auto simp: FreeSizeMemory_def)

lemma FreeSizeMemory_miss:
  assumes "wf_shadow m" "p \<noteq> 0" "\<forall>e\<in>set m. ma_Address (fst e) \<noteq> p"
  shows "\<exists>msg. FreeSizeMemory ty p n m = (1, [msg], m)"
  using assms
  by (auto simp: FreeSizeMemory_def shadow_find_iff Let_def split: option.splits)

lemma FreeAnySizeMemory_base_whole:
  assumes "wf_shadow m" "p \<noteq> 0" "e \<in> set m" "ma_Address (fst e) = p" "ma_Size (fst e) \<le> n"
  shows "FreeAnySizeMemory ty p n m = (0, [], map_erase (fst e) m)"
  using shadow_find_base [OF assms(1,3)] assms by (simp add: FreeAnySizeMemory_def leD)

lemma FreeAnySizeMemory_base_part:
  assumes "wf_shadow m" "p \<noteq> 0" "e \<in> set m" "fst e = Block p k" "n < k"
  shows "\<exists>m'. FreeAnySizeMemory ty p n m = (0, [], m') \<and> wf_shadow m' \<and>
           set m' = insert (Block (p + n) (k - n), new_contents (k - n) ty) (set m - {e}) \<and>
           allocated m' = allocated m - {unat p..<unat p + unat n}"
  using shadow_find_base [OF assms(1,3)] assms
    shadow_cut_base [OF assms(1,3), of n "Block (p + n) (k - n)" "new_contents (k - n) ty"]
  by (auto simp: FreeAnySizeMemory_def ma_lo_def Let_def)

text \<open>
  A free inside a block: the head of the block is put back, and the tail if there is one.
\<close>

lemma shadow_find_middle:
  "wf_shadow m \<Longrightarrow> e \<in> set m \<Longrightarrow> ma_lo (fst e) < unat p \<Longrightarrow> unat p < ma_hi (fst e) \<Longrightarrow>
   map_find ma_less (Block p 0) m = Some e"
  by (simp add: shadow_find_iff)

lemma middle_bounds:
  assumes "no_wrap x" "ma_lo x < unat p" "unat p < ma_hi x" "unat p + unat n \<le> ma_hi x"
  shows "unat (p - ma_Address x) = unat p - ma_lo x"
    and "unat (p + n) = unat p + unat n"
    and "unat (ma_Address x + ma_Size x) = ma_hi x"
    and "unat (ma_Address x + ma_Size x - (p + n)) = ma_hi x - (unat p + unat n)"
    and "ma_hi x < 2 ^ 32"
proof -
  have hi: "ma_hi x = unat (ma_Address x) + unat (ma_Size x)"
    using assms by (auto simp: ma_lo_def ma_hi_def max_def split: if_splits)
  show e: "unat (ma_Address x + ma_Size x) = ma_hi x"
    using assms(1) hi by (simp add: no_wrap_def unat_add_no_wrap32)
  show lt: "ma_hi x < 2 ^ 32" using assms(1) hi by (simp add: no_wrap_def)
  show pn: "unat (p + n) = unat p + unat n"
    using assms(4) lt by (simp add: unat_add_no_wrap32)
  show "unat (p - ma_Address x) = unat p - ma_lo x"
    using assms(2) by (simp add: ma_lo_def unat_sub_le32 word_le_nat_alt)
  show "unat (ma_Address x + ma_Size x - (p + n)) = ma_hi x - (unat p + unat n)"
    using assms(4) e pn by (simp add: unat_sub_le32 word_le_nat_alt)
qed

lemma shadow_cut_head:
  assumes wf: "wf_shadow m" and e: "e \<in> set m"
    and mid: "ma_lo (fst e) < unat p" "unat p < ma_hi (fst e)"
    and L: "L = Block (ma_Address (fst e)) (p - ma_Address (fst e))"
  obtains m2 where "map_insert ma_less L v (map_erase (fst e) m) = (None, m2)" "wf_shadow m2"
    "set m2 = insert (L, v) (set m - {e})"
    "allocated m2 = allocated m - {unat p..<ma_hi (fst e)}"
proof -
  have sz: "unat (p - ma_Address (fst e)) = unat p - ma_lo (fst e)"
    using mid by (simp add: ma_lo_def unat_sub_le32 word_le_nat_alt)
  then have L': "ma_lo L = ma_lo (fst e)" "ma_hi L = unat p" "no_wrap L"
    using mid unat_less_pow32 [of p] by (simp_all add: L ma_lo_def ma_hi_def no_wrap_def)
  note erased = shadow_erase [OF wf e]
  have "{ma_lo (fst e)..<ma_hi (fst e)} \<subseteq> allocated m"
    using e by (auto simp: allocated_def)
  then have eq: "(allocated m - {ma_lo (fst e)..<ma_hi (fst e)}) \<union> {ma_lo L..<ma_hi L} =
      allocated m - {unat p..<ma_hi (fst e)}"
    using L' mid by auto
  have "{ma_lo L..<ma_hi L} \<inter> allocated (map_erase (fst e) m) = {}"
    using L' erased(3) mid by auto
  from shadow_insert_free [OF erased(1) L'(3) this, of v] that show thesis
    using erased(2,3) eq by metis
qed

lemma FreeAnySizeMemory_middle:
  assumes wf: "wf_shadow m" and p: "p \<noteq> 0" and e: "e \<in> set m"
    and mid: "ma_lo (fst e) < unat p" "unat p < ma_hi (fst e)"
    and inr: "unat p + unat n \<le> ma_hi (fst e)"
    and L: "L = Block (ma_Address (fst e)) (p - ma_Address (fst e))"
    and R: "R = Block (p + n) (ma_Address (fst e) + ma_Size (fst e) - (p + n))"
  shows "\<exists>m'. FreeAnySizeMemory ty p n m = (0, [], m') \<and> wf_shadow m' \<and>
           set m' = (set m - {e}) \<union> {(L, new_contents (ma_Size L) ty)} \<union>
             (if unat p + unat n < ma_hi (fst e) then {(R, new_contents (ma_Size R) ty)} else {}) \<and>
           allocated m' = allocated m - {unat p..<unat p + unat n}"
proof -
  have nw: "no_wrap (fst e)" using wf e by (simp add: wf_shadow_def)
  note b = middle_bounds [OF nw mid inr]
  obtain m2 where m2: "map_insert ma_less L (new_contents (ma_Size L) ty)
      (map_erase (fst e) m) = (None, m2)" "wf_shadow m2"
    "set m2 = insert (L, new_contents (ma_Size L) ty) (set m - {e})"
    "allocated m2 = allocated m - {unat p..<ma_hi (fst e)}"
    by (rule shadow_cut_head [OF wf e mid L])
  have find: "map_find ma_less (Block p 0) m = Some e" and ne: "ma_Address (fst e) \<noteq> p"
    using wf e mid by (auto simp: shadow_find_iff ma_lo_def)
  show ?thesis
  proof (cases "unat p + unat n = ma_hi (fst e)")
    case True
    then have "p + n = ma_Address (fst e) + ma_Size (fst e)"
      using b by (intro word_unat_eq_iff [THEN iffD2]) simp
    then have "FreeAnySizeMemory ty p n m = (0, [], m2)"
      using p find ne m2(1) by (simp add: FreeAnySizeMemory_def L)
    with True m2 show ?thesis by auto
  next
    case False
    with inr have lt: "unat p + unat n < ma_hi (fst e)" by simp
    then have ne2: "p + n \<noteq> ma_Address (fst e) + ma_Size (fst e)"
      using b by (metis less_irrefl)
    have R': "ma_lo R = unat p + unat n" "ma_hi R = ma_hi (fst e)" "no_wrap R"
      using b lt by (simp_all add: R ma_lo_def ma_hi_def no_wrap_def)
    then have "{ma_lo R..<ma_hi R} \<inter> allocated m2 = {}"
      using m2(4) by auto
    from shadow_insert_free [OF m2(2) R'(3) this, of "new_contents (ma_Size R) ty"]
    obtain m3 where m3: "map_insert ma_less R (new_contents (ma_Size R) ty) m2 = (None, m3)"
      "wf_shadow m3" "set m3 = insert (R, new_contents (ma_Size R) ty) (set m2)"
      "allocated m3 = allocated m2 \<union> {unat p + unat n..<ma_hi (fst e)}"
      using R' by metis
    have "FreeAnySizeMemory ty p n m = (0, [], m3)"
      using p find ne m2(1) m3(1) ne2 by (simp add: FreeAnySizeMemory_def L R Let_def)
    moreover have "allocated m3 = allocated m - {unat p..<unat p + unat n}"
      using m2(4) m3(4) lt mid e by (auto simp: allocated_def)
    ultimately show ?thesis using lt m2 m3 by auto
  qed
qed

end
