(* ===== verification/Simulation.thy ===== *)
theory Simulation
  imports Main
begin

text \<open>
  The contract between a component and its abstract specification: both run the same
  operations, the component keeps its invariant and the results agree through an abstraction
  function as long as the requests are admissible. The lemmas lift the step contract to
  sequences of operations; each component with a specification interprets the locale on its
  own step function.
\<close>

fun run_ops :: "('s \<Rightarrow> 'o \<Rightarrow> 'r \<times> 's) \<Rightarrow> 's \<Rightarrow> 'o list \<Rightarrow> 'r list \<times> 's" where
  "run_ops step s [] = ([], s)"
| "run_ops step s (x # xs) =
     (case step s x of (r, s') \<Rightarrow> case run_ops step s' xs of (rs, t) \<Rightarrow> (r # rs, t))"

fun admissible_run :: "('h \<Rightarrow> 'o \<Rightarrow> bool) \<Rightarrow> ('h \<Rightarrow> 'o \<Rightarrow> 'r \<times> 'h) \<Rightarrow> 'h \<Rightarrow> 'o list \<Rightarrow> bool" where
  "admissible_run pre spec h [] = True"
| "admissible_run pre spec h (x # xs) = (pre h x \<and> admissible_run pre spec (snd (spec h x)) xs)"

locale simulation =
  fixes step :: "'s \<Rightarrow> 'o \<Rightarrow> 'r \<times> 's"
    and spec :: "'h \<Rightarrow> 'o \<Rightarrow> 'r \<times> 'h"
    and abs :: "'s \<Rightarrow> 'h"
    and inv :: "'s \<Rightarrow> bool"
    and pre :: "'h \<Rightarrow> 'o \<Rightarrow> bool"
  assumes step_inv: "inv s \<Longrightarrow> pre (abs s) x \<Longrightarrow> inv (snd (step s x))"
    and step_result: "inv s \<Longrightarrow> pre (abs s) x \<Longrightarrow> fst (step s x) = fst (spec (abs s) x)"
    and step_abs: "inv s \<Longrightarrow> pre (abs s) x \<Longrightarrow> abs (snd (step s x)) = snd (spec (abs s) x)"
begin

lemma run_simulates:
  "inv s \<Longrightarrow> admissible_run pre spec (abs s) xs \<Longrightarrow>
   inv (snd (run_ops step s xs)) \<and>
   fst (run_ops step s xs) = fst (run_ops spec (abs s) xs) \<and>
   abs (snd (run_ops step s xs)) = snd (run_ops spec (abs s) xs)"
proof (induction xs arbitrary: s)
  case Nil
  then show ?case by simp
next
  case (Cons x xs)
  then have "inv (snd (step s x))" "abs (snd (step s x)) = snd (spec (abs s) x)"
    "fst (step s x) = fst (spec (abs s) x)"
    by (simp_all add: step_inv step_result step_abs)
  with Cons.IH [of "snd (step s x)"] Cons.prems(2) show ?case
    by (auto simp: split_beta)
qed

lemma run_inv: "inv s \<Longrightarrow> admissible_run pre spec (abs s) xs \<Longrightarrow> inv (snd (run_ops step s xs))"
  using run_simulates by blast

end

end
