(* ===== verification/ShadowSpec.thy ===== *)
theory ShadowSpec
  imports ShadowMemory Simulation
begin

text \<open>
  The abstract specification of the shadow memory: a heap is a set of blocks (base, size)
  over the natural numbers, with no machine integers and no ordered container. The detailed
  operations of \<^verbatim>\<open>ShadowMemory.cpp\<close> implement it.
\<close>

section \<open>The specification\<close>

type_synonym heap = "(nat \<times> nat) set"

definition span :: "nat \<times> nat \<Rightarrow> nat set" where
  "span x = {fst x..<fst x + max 1 (snd x)}"

datatype shadow_op =
    Alloc Addr32 u32
  | Free Addr32
  | FreeSize Addr32 u32
  | FreeAnySize Addr32 u32

definition spec_alloc :: "nat \<Rightarrow> nat \<Rightarrow> heap \<Rightarrow> bool \<times> heap" where
  "spec_alloc p n H =
     (if \<exists>x\<in>H. span (p, n) \<inter> span x \<noteq> {} then (False, H) else (True, insert (p, n) H))"

definition spec_free :: "nat \<Rightarrow> heap \<Rightarrow> bool \<times> heap" where
  "spec_free p H =
     (if p = 0 then (True, H)
      else if \<exists>x\<in>H. fst x = p then (True, {x\<in>H. fst x \<noteq> p}) else (False, H))"

definition spec_free_size :: "nat \<Rightarrow> nat \<Rightarrow> heap \<Rightarrow> bool \<times> heap" where
  "spec_free_size p n H =
     (if p = 0 then (True, H)
      else if (p, n) \<in> H then (True, H - {(p, n)})
      else if \<exists>x\<in>H. fst x = p \<and> n < snd x then
        (False, {x\<in>H. fst x \<noteq> p} \<union> (\<lambda>x. (p + n, snd x - n)) ` {x\<in>H. fst x = p})
      else (False, H))"

definition outside :: "nat \<Rightarrow> nat \<Rightarrow> nat \<times> nat \<Rightarrow> heap" where
  "outside p n x =
     (if fst x < p then {(fst x, p - fst x)} else {}) \<union>
     (if p + n < fst x + snd x then {(p + n, fst x + snd x - (p + n))} else {})"

definition spec_free_any :: "nat \<Rightarrow> nat \<Rightarrow> heap \<Rightarrow> bool \<times> heap" where
  "spec_free_any p n H =
     (if p = 0 then (True, H)
      else if \<exists>x\<in>H. p \<in> span x then
        (True, {x\<in>H. p \<notin> span x} \<union> (\<Union>x\<in>{x\<in>H. p \<in> span x}. outside p n x))
      else (False, H))"

fun spec_step :: "heap \<Rightarrow> shadow_op \<Rightarrow> bool \<times> heap" where
  "spec_step H (Alloc p n) = spec_alloc (unat p) (unat n) H"
| "spec_step H (Free p) = spec_free (unat p) H"
| "spec_step H (FreeSize p n) = spec_free_size (unat p) (unat n) H"
| "spec_step H (FreeAnySize p n) = spec_free_any (unat p) (unat n) H"

text \<open>
  The requests under which the comparator's 32-bit additions are exact: an allocation ends
  below the top of the address space, and a free inside a block does not run past its end.
\<close>

fun spec_pre :: "heap \<Rightarrow> shadow_op \<Rightarrow> bool" where
  "spec_pre H (Alloc p n) = (unat p + unat n < 2 ^ 32)"
| "spec_pre H (Free p) = True"
| "spec_pre H (FreeSize p n) = True"
| "spec_pre H (FreeAnySize p n) =
     (\<forall>x\<in>H. unat p \<in> span x \<longrightarrow> fst x = unat p \<or> unat p + unat n \<le> fst x + snd x)"

section \<open>The implementation as a step function\<close>

text \<open>MemCheck always passes type 0; the return value 0 is success.\<close>

fun shadow_step :: "ShadowMemory \<Rightarrow> shadow_op \<Rightarrow> bool \<times> ShadowMemory" where
  "shadow_step m (Alloc p n) = (case NewMemoryAlloc 0 p n m of (r, _, m') \<Rightarrow> (r = 0, m'))"
| "shadow_step m (Free p) = (case FreeMemory 0 p m of (r, _, m') \<Rightarrow> (r = 0, m'))"
| "shadow_step m (FreeSize p n) = (case FreeSizeMemory 0 p n m of (r, _, m') \<Rightarrow> (r = 0, m'))"
| "shadow_step m (FreeAnySize p n) =
     (case FreeAnySizeMemory 0 p n m of (r, _, m') \<Rightarrow> (r = 0, m'))"

definition abs_block :: "MemoryAlloc \<times> MemoryAllocContents \<Rightarrow> nat \<times> nat" where
  "abs_block e = (unat (ma_Address (fst e)), unat (ma_Size (fst e)))"

definition abs_heap :: "ShadowMemory \<Rightarrow> heap" where
  "abs_heap m = abs_block ` set m"

lemma span_abs_block: "span (abs_block e) = {ma_lo (fst e)..<ma_hi (fst e)}"
  by (simp add: span_def abs_block_def ma_lo_def ma_hi_def)

lemma allocated_span: "allocated m = (\<Union>x\<in>abs_heap m. span x)"
  by (simp add: allocated_def abs_heap_def span_abs_block)

lemma abs_block_simps [simp]:
  "fst (abs_block e) = ma_lo (fst e)" "snd (abs_block e) = unat (ma_Size (fst e))"
  by (simp_all add: abs_block_def ma_lo_def)

lemma abs_block_Block [simp]: "abs_block (Block p n, v) = (unat p, unat n)"
  by (simp add: abs_block_def)

text \<open>Distinct entries of a well-formed shadow memory start at distinct addresses.\<close>

lemma wf_shadow_lo_inj:
  "wf_shadow m \<Longrightarrow> e \<in> set m \<Longrightarrow> e' \<in> set m \<Longrightarrow> ma_lo (fst e) = ma_lo (fst e') \<Longrightarrow> e = e'"
  using wf_shadow_unique [of m e e' "ma_lo (fst e)"] ma.lo_less_hi [of "fst e"]
    ma.lo_less_hi [of "fst e'"] by simp

lemma abs_heap_remove:
  assumes "wf_shadow m" "e \<in> set m"
  shows "abs_block ` (set m - {e}) = {x\<in>abs_heap m. fst x \<noteq> ma_lo (fst e)}"
proof -
  have "x = e" if "x \<in> set m" "ma_lo (fst x) = ma_lo (fst e)" for x
    using wf_shadow_lo_inj [OF assms(1) that(1) assms(2) that(2)] .
  then have "{x\<in>set m. ma_lo (fst x) \<noteq> ma_lo (fst e)} = set m - {e}" by blast
  then have "abs_block ` (set m - {e}) = abs_block ` {x\<in>set m. ma_lo (fst x) \<noteq> ma_lo (fst e)}"
    by simp
  then show ?thesis by (auto simp: abs_heap_def)
qed

lemma abs_heap_span_remove:
  assumes "wf_shadow m" "e \<in> set m" "a \<in> {ma_lo (fst e)..<ma_hi (fst e)}"
  shows "{x\<in>abs_heap m. a \<notin> span x} = abs_block ` (set m - {e})"
    and "{x\<in>abs_heap m. a \<in> span x} = {abs_block e}"
proof -
  have *: "x = e" if "x \<in> set m" "a \<in> span (abs_block x)" for x
    using wf_shadow_unique [OF assms(1) that(1) assms(2)] that(2) assms(3)
    by (simp add: span_abs_block)
  have e: "a \<in> span (abs_block e)" using assms(3) by (simp add: span_abs_block)
  show "{x\<in>abs_heap m. a \<in> span x} = {abs_block e}"
    using * e assms(2) unfolding abs_heap_def by blast
  show "{x\<in>abs_heap m. a \<notin> span x} = abs_block ` (set m - {e})"
    using * e unfolding abs_heap_def by blast
qed

section \<open>Refinement of each operation\<close>

definition refines :: "ShadowMemory \<Rightarrow> shadow_op \<Rightarrow> bool" where
  "refines m x \<longleftrightarrow> wf_shadow (snd (shadow_step m x)) \<and>
     fst (shadow_step m x) = fst (spec_step (abs_heap m) x) \<and>
     abs_heap (snd (shadow_step m x)) = snd (spec_step (abs_heap m) x)"

lemma Alloc_refines:
  assumes wf: "wf_shadow m" and nw: "unat p + unat n < 2 ^ 32"
  shows "refines m (Alloc p n)"
proof -
  let ?iv = "{unat p..<unat p + max 1 (unat n)}"
  have nw': "no_wrap (Block p n)" using nw by (simp add: no_wrap_def)
  have clash: "(\<exists>x\<in>abs_heap m. span (unat p, unat n) \<inter> span x \<noteq> {}) \<longleftrightarrow> ?iv \<inter> allocated m \<noteq> {}"
    unfolding allocated_span by (simp add: span_def [of "(unat p, unat n)"] flip: One_nat_def) blast
  show ?thesis
  proof (cases "?iv \<inter> allocated m = {}")
    case True
    obtain m' where "NewMemoryAlloc 0 p n m = (0, [], m')" "wf_shadow m'"
      "set m' = insert (Block p n, new_contents n 0) (set m)"
      using NewMemoryAlloc_free [OF wf nw' True, of 0] by blast
    moreover have "spec_alloc (unat p) (unat n) (abs_heap m) =
        (True, insert (unat p, unat n) (abs_heap m))"
      using clash True unfolding spec_alloc_def by presburger
    ultimately show ?thesis by (simp add: refines_def abs_heap_def)
  next
    case False
    obtain b where "b \<in> set m" "NewMemoryAlloc 0 p n m =
        (1, [AllocationExists p n (ma_Address (fst b)) (ma_Size (fst b))], m)"
      using NewMemoryAlloc_blocked [OF wf nw' False, of 0] by blast
    moreover have "spec_alloc (unat p) (unat n) (abs_heap m) = (False, abs_heap m)"
      using clash False unfolding spec_alloc_def by presburger
    ultimately show ?thesis using wf by (simp add: refines_def)
  qed
qed

lemma abs_base_iff:
  "(\<exists>x\<in>abs_heap m. fst x = unat p) \<longleftrightarrow> (\<exists>e\<in>set m. ma_Address (fst e) = p)"
  by (auto simp: abs_heap_def ma_lo_def)

lemma Free_refines:
  assumes wf: "wf_shadow m"
  shows "refines m (Free p)"
proof -
  consider "p = 0" | e where "p \<noteq> 0" "e \<in> set m" "ma_Address (fst e) = p"
    | "p \<noteq> 0" "\<forall>e\<in>set m. ma_Address (fst e) \<noteq> p" by blast
  then show ?thesis
  proof cases
    case 1
    with wf show ?thesis by (simp add: refines_def spec_free_def FreeMemory_def)
  next
    case (2 e)
    then have "\<exists>x\<in>abs_heap m. fst x = unat p" by (auto simp: abs_base_iff)
    with 2 wf show ?thesis
      using shadow_erase [OF wf 2(2)] abs_heap_remove [OF wf 2(2)]
      by (simp add: refines_def spec_free_def FreeMemory_hit abs_heap_def ma_lo_def)
  next
    case 3
    then have "\<not> (\<exists>x\<in>abs_heap m. fst x = unat p)" by (simp add: abs_base_iff)
    with 3 wf FreeMemory_miss [OF wf 3, of 0] show ?thesis
      by (auto simp: refines_def spec_free_def)
  qed
qed

lemma wf_shadow_base_unique:
  "wf_shadow m \<Longrightarrow> e \<in> set m \<Longrightarrow> e' \<in> set m \<Longrightarrow>
   ma_Address (fst e) = ma_Address (fst e') \<Longrightarrow> e = e'"
  by (rule wf_shadow_lo_inj) (simp_all add: ma_lo_def)

lemma abs_heap_base:
  assumes "wf_shadow m" "e \<in> set m" "ma_Address (fst e) = p"
  shows "{x\<in>abs_heap m. fst x = unat p} = {abs_block e}"
    and "{x\<in>abs_heap m. fst x \<noteq> unat p} = abs_block ` (set m - {e})"
proof -
  have *: "x = e" if "x \<in> set m" "fst (abs_block x) = unat p" for x
    using wf_shadow_base_unique [OF assms(1) that(1) assms(2)] that(2) assms(3)
    by (simp add: ma_lo_def)
  have e: "fst (abs_block e) = unat p" using assms(3) by (simp add: ma_lo_def)
  show "{x\<in>abs_heap m. fst x = unat p} = {abs_block e}"
    using * e assms(2) unfolding abs_heap_def by blast
  show "{x\<in>abs_heap m. fst x \<noteq> unat p} = abs_block ` (set m - {e})"
    using * e unfolding abs_heap_def by blast
qed

lemma FreeSize_refines_hit:
  assumes wf: "wf_shadow m" and p: "p \<noteq> 0" and e: "e \<in> set m" and k: "fst e = Block p k"
  shows "refines m (FreeSize p n)"
proof -
  let ?H = "abs_heap m"
  have base: "{x\<in>?H. fst x = unat p} = {(unat p, unat k)}"
      "{x\<in>?H. fst x \<noteq> unat p} = abs_block ` (set m - {e})"
    using abs_heap_base [OF wf e, of p] k by (simp_all add: abs_block_def)
  then have mem: "x \<in> ?H \<and> fst x = unat p \<longleftrightarrow> x = (unat p, unat k)" for x by blast
  have k_iff: "(unat p, unat n) \<in> ?H \<longleftrightarrow> n = k"
    using mem [of "(unat p, unat n)"] by simp
  have n_iff: "(\<exists>x\<in>?H. fst x = unat p \<and> unat n < snd x) \<longleftrightarrow> n < k"
    using mem by (metis snd_conv word_less_nat_alt)
  consider "n = k" | "n < k" | "k < n" by fastforce
  then show ?thesis
  proof cases
    case 1
    have "?H - {(unat p, unat k)} = {x\<in>?H. fst x \<noteq> unat p}" using mem by blast
    with 1 p show ?thesis
      using FreeSizeMemory_exact [OF wf p e k, of 0] shadow_erase [OF wf e] k_iff base(2)
      by (simp add: refines_def spec_free_size_def abs_heap_def)
  next
    case 2
    obtain m' where m': "FreeSizeMemory 0 p n m = (1, [SizeMismatch p k n, Truncating], m')"
      "wf_shadow m'"
      "set m' = insert (Block (p + n) (k - n), new_contents (k - n) 0) (set m - {e})"
      using FreeSizeMemory_short [OF wf p e k 2, of 0] by blast
    have "unat p + unat k < 2 ^ 32"
      using wf e k by (auto simp: wf_shadow_def no_wrap_def)
    with 2 have "unat (p + n) = unat p + unat n" "unat (k - n) = unat k - unat n"
      by (simp_all add: unat_add_no_wrap32 unat_sub_le32 word_less_nat_alt less_imp_le)
    with 2 p m' k_iff n_iff base show ?thesis
      by (simp add: refines_def spec_free_size_def abs_heap_def)
  next
    case 3
    then have "n \<noteq> k" "\<not> n < k" by auto
    with wf p FreeSizeMemory_long [OF wf p e k 3, of 0] k_iff n_iff show ?thesis
      by (auto simp: refines_def spec_free_size_def)
  qed
qed

lemma FreeSize_refines:
  assumes wf: "wf_shadow m"
  shows "refines m (FreeSize p n)"
proof (cases "p = 0")
  case True
  with wf show ?thesis by (simp add: refines_def spec_free_size_def FreeSizeMemory_def)
next
  case p: False
  show ?thesis
  proof (cases "\<exists>e\<in>set m. ma_Address (fst e) = p")
    case True
    then obtain e where e: "e \<in> set m" "fst e = Block p (ma_Size (fst e))" by auto
    show ?thesis by (rule FreeSize_refines_hit [OF wf p e])
  next
    case False
    then have "\<forall>x\<in>abs_heap m. fst x \<noteq> unat p" by (auto simp: abs_heap_def ma_lo_def)
    moreover from this have "(unat p, unat n) \<notin> abs_heap m" by force
    moreover obtain msg where "FreeSizeMemory 0 p n m = (1, [msg], m)"
      using FreeSizeMemory_miss [OF wf p, of 0 n] False by blast
    ultimately show ?thesis using wf p by (simp add: refines_def spec_free_size_def)
  qed
qed

lemma FreeAnySize_refines_base:
  assumes wf: "wf_shadow m" and p: "p \<noteq> 0" and e: "e \<in> set m" and k: "fst e = Block p k"
  shows "refines m (FreeAnySize p n)"
proof -
  have pe: "unat p \<in> {ma_lo (fst e)..<ma_hi (fst e)}"
    using k by (simp add: ma_lo_def ma_hi_def)
  note sp = abs_heap_span_remove [OF wf e pe]
  have ex: "\<exists>x\<in>abs_heap m. unat p \<in> span x" using sp(2) by blast
  show ?thesis
  proof (cases "n < k")
    case True
    obtain m' where m': "FreeAnySizeMemory 0 p n m = (0, [], m')" "wf_shadow m'"
      "set m' = insert (Block (p + n) (k - n), new_contents (k - n) 0) (set m - {e})"
      using FreeAnySizeMemory_base_part [OF wf p e k True, of 0] by blast
    have "unat p + unat k < 2 ^ 32"
      using wf e k by (auto simp: wf_shadow_def no_wrap_def)
    with True have "unat (p + n) = unat p + unat n" "unat (k - n) = unat k - unat n"
      by (simp_all add: unat_add_no_wrap32 unat_sub_le32 word_less_nat_alt less_imp_le)
    with True p k m' sp ex show ?thesis
      by (simp add: refines_def spec_free_any_def abs_heap_def outside_def ma_lo_def word_less_nat_alt)
  next
    case False
    then have "ma_Size (fst e) \<le> n" using k by simp
    from FreeAnySizeMemory_base_whole [OF wf p e _ this, of 0] False p k show ?thesis
      using sp ex shadow_erase [OF wf e]
      by (simp add: refines_def spec_free_any_def abs_heap_def outside_def ma_lo_def
          word_less_nat_alt)
  qed
qed

lemma FreeAnySize_refines_middle:
  assumes wf: "wf_shadow m" and p: "p \<noteq> 0" and e: "e \<in> set m"
    and mid: "ma_lo (fst e) < unat p" "unat p < ma_hi (fst e)"
    and inr: "unat p + unat n \<le> ma_hi (fst e)"
  shows "refines m (FreeAnySize p n)"
proof -
  have pe: "unat p \<in> {ma_lo (fst e)..<ma_hi (fst e)}" using mid by simp
  note sp = abs_heap_span_remove [OF wf e pe]
  have ex: "\<exists>x\<in>abs_heap m. unat p \<in> span x" using sp(2) by blast
  have nw: "no_wrap (fst e)" using wf e by (simp add: wf_shadow_def)
  note b = middle_bounds [OF nw mid inr]
  have hi: "ma_lo (fst e) + unat (ma_Size (fst e)) = ma_hi (fst e)"
    using mid by (auto simp: ma_lo_def ma_hi_def max_def split: if_splits)
  obtain m' where "FreeAnySizeMemory 0 p n m = (0, [], m')" "wf_shadow m'"
    and m': "abs_heap m' = abs_block ` (set m - {e}) \<union> {(ma_lo (fst e), unat p - ma_lo (fst e))} \<union>
      (if unat p + unat n < ma_hi (fst e)
       then {(unat p + unat n, ma_hi (fst e) - (unat p + unat n))} else {})"
    using FreeAnySizeMemory_middle [OF wf p e mid inr refl refl, of 0] b
    by (auto simp: abs_heap_def ma_lo_def image_Un)
  moreover have "outside (unat p) (unat n) (abs_block e) =
      {(ma_lo (fst e), unat p - ma_lo (fst e))} \<union>
      (if unat p + unat n < ma_hi (fst e)
       then {(unat p + unat n, ma_hi (fst e) - (unat p + unat n))} else {})"
    using mid hi by (simp add: outside_def)
  ultimately show ?thesis
    using p ex sp by (simp add: refines_def spec_free_any_def Un_assoc)
qed

lemma FreeAnySize_refines:
  assumes wf: "wf_shadow m" and pre: "spec_pre (abs_heap m) (FreeAnySize p n)"
  shows "refines m (FreeAnySize p n)"
proof -
  consider (null) "p = 0" | (miss) "p \<noteq> 0" "unat p \<notin> allocated m"
    | (hit) e where "p \<noteq> 0" "e \<in> set m" "ma_lo (fst e) \<le> unat p" "unat p < ma_hi (fst e)"
    unfolding allocated_def by fastforce
  then show ?thesis
  proof cases
    case null
    with wf show ?thesis by (simp add: refines_def spec_free_any_def FreeAnySizeMemory_def)
  next
    case miss
    with wf shadow_find_None [OF wf, of p] show ?thesis
      by (simp add: refines_def spec_free_any_def FreeAnySizeMemory_def allocated_span)
  next
    case (hit e)
    show ?thesis
    proof (cases "ma_Address (fst e) = p")
      case True
      then have "fst e = Block p (ma_Size (fst e))" by auto
      then show ?thesis by (rule FreeAnySize_refines_base [OF wf hit(1,2)])
    next
      case False
      then have lt: "ma_lo (fst e) < unat p"
        using hit(3) by (metis ma_lo_def nat_less_le unat_inject)
      have "abs_block e \<in> abs_heap m" "unat p \<in> span (abs_block e)"
        using hit by (auto simp: abs_heap_def span_abs_block)
      with pre lt have "unat p + unat n \<le> ma_lo (fst e) + unat (ma_Size (fst e))" by fastforce
      then have "unat p + unat n \<le> ma_hi (fst e)" by (simp add: ma_lo_def ma_hi_def)
      then show ?thesis by (rule FreeAnySize_refines_middle [OF wf hit(1,2) lt hit(4)])
    qed
  qed
qed

lemma shadow_refines: "wf_shadow m \<Longrightarrow> spec_pre (abs_heap m) x \<Longrightarrow> refines m x"
  by (cases x)
    (simp_all add: Alloc_refines Free_refines FreeSize_refines FreeAnySize_refines
      del: spec_pre.simps(4))

interpretation shadow: simulation shadow_step spec_step abs_heap wf_shadow spec_pre
  using shadow_refines by unfold_locales (auto simp: refines_def)

end
