(* ===== verification/SymbolTable.thy ===== *)
theory SymbolTable
  imports OrderedMap
begin

text \<open>
  The kernel symbol table (\<^verbatim>\<open>SymbolTable.h\<close>, \<^verbatim>\<open>SymbolTable.cpp\<close>): parsing of
  \<^verbatim>\<open>System.map\<close> with \<^verbatim>\<open>std::ifstream::getline\<close> and \<^verbatim>\<open>sscanf\<close>, the
  construction of the interval set of symbols, and the two lookups.
\<close>

section \<open>Data\<close>

record Symbol =
  sym_Address :: Addr32
  sym_Size :: u32
  sym_Name :: string

text \<open>The comparator \<^verbatim>\<open>Symbol::operator()\<close>.\<close>

definition sym_less :: "Symbol \<Rightarrow> Symbol \<Rightarrow> bool" where
  "sym_less x y =
     (if sym_Size x \<noteq> 0 then sym_Address x + sym_Size x \<le> sym_Address y
      else sym_Address x + sym_Size x < sym_Address y)"

text \<open>A \<^verbatim>\<open>std::set\<close> is a map with no values.\<close>

record SymbolTable =
  st_NameToAddressMap :: "string \<rightharpoonup> Addr32"
  st_SymbolMap :: "(Symbol \<times> unit) list"

definition empty_SymbolTable :: SymbolTable where
  "empty_SymbolTable = \<lparr>st_NameToAddressMap = (\<lambda>_. None), st_SymbolMap = []\<rparr>"

section \<open>The input stream\<close>

record istream =
  in_rest :: string
  in_eof :: bool
  in_fail :: bool

text \<open>
  \<^verbatim>\<open>in.getline(s, n)\<close>: nothing is read from a stream that is not good; otherwise
  characters are taken up to the end of the stream, a newline (taken and dropped) or
  \<open>n - 1\<close> characters, tested in this order. Taking no character or filling the buffer sets
  the fail bit.
\<close>

fun getline_loop :: "nat \<Rightarrow> string \<Rightarrow> string \<Rightarrow> string \<times> string \<times> bool \<times> bool" where
  "getline_loop n acc [] = (rev acc, [], True, acc = [])"
| "getline_loop n acc (c # cs) =
     (if c = CHR 0x0A then (rev acc, cs, False, False)
      else case n of
        0 \<Rightarrow> (rev acc, c # cs, False, True)
      | Suc n' \<Rightarrow> getline_loop n' (c # acc) cs)"

definition getline :: "nat \<Rightarrow> istream \<Rightarrow> string \<times> istream" where
  "getline n st =
     (if in_eof st \<or> in_fail st then ([], st\<lparr>in_fail := True\<rparr>)
      else case getline_loop (n - 1) [] (in_rest st) of
        (s, rest, eof, fail) \<Rightarrow> (s, \<lparr>in_rest = rest, in_eof = eof, in_fail = fail\<rparr>))"

section \<open>\<^verbatim>\<open>sscanf(s, "%8x %c %s\n", &addr, &type, name)\<close>\<close>

definition is_space :: "char \<Rightarrow> bool" where
  "is_space c \<longleftrightarrow> c \<in> {CHR '' '', CHR 0x09, CHR 0x0A, CHR 0x0B, CHR 0x0C, CHR 0x0D}"

definition hex_value :: "char \<Rightarrow> nat option" where
  "hex_value c =
     (let n = of_char c :: nat in
      if 48 \<le> n \<and> n \<le> 57 then Some (n - 48)
      else if 97 \<le> n \<and> n \<le> 102 then Some (n - 87)
      else if 65 \<le> n \<and> n \<le> 70 then Some (n - 55)
      else None)"

text \<open>At most \<open>w\<close> hexadecimal digits: whether there was one, the value, and the rest.\<close>

fun scan_digits :: "nat \<Rightarrow> bool \<Rightarrow> nat \<Rightarrow> string \<Rightarrow> bool \<times> nat \<times> string" where
  "scan_digits 0 any v s = (any, v, s)"
| "scan_digits (Suc w) any v [] = (any, v, [])"
| "scan_digits (Suc w) any v (c # s) =
     (case hex_value c of
        Some d \<Rightarrow> scan_digits w True (16 * v + d) s
      | None \<Rightarrow> (any, v, c # s))"

text \<open>The conversion \<^verbatim>\<open>%8x\<close>: optional sign, optional \<^verbatim>\<open>0x\<close>, digits, all counted.\<close>

definition scan_prefix :: "nat \<Rightarrow> string \<Rightarrow> nat \<times> string" where
  "scan_prefix w s =
     (case s of
        z # x # s' \<Rightarrow>
          if 2 \<le> w \<and> z = CHR ''0'' \<and> (x = CHR ''x'' \<or> x = CHR ''X'') then (w - 2, s')
          else (w, s)
      | _ \<Rightarrow> (w, s))"

definition scan_hex :: "nat \<Rightarrow> string \<Rightarrow> (u32 \<times> string) option" where
  "scan_hex w s0 =
     (let s1 = dropWhile is_space s0;
          (neg, w2, s2) = (case s1 of
             c # s' \<Rightarrow> if c = CHR ''-'' then (True, w - 1, s')
                       else if c = CHR ''+'' then (False, w - 1, s') else (False, w, s1)
           | [] \<Rightarrow> (False, w, s1));
          (w3, s3) = scan_prefix w2 s2;
          (any, v, rest) = scan_digits w3 False 0 s3 in
      if any then Some (if neg then - of_nat v else of_nat v, rest) else None)"

datatype load_error =
    CannotOpen             \<comment> \<open>the message and \<^verbatim>\<open>exit(1)\<close>\<close>
  | NameOverflow           \<comment> \<open>\<^verbatim>\<open>%s\<close> writes past \<^verbatim>\<open>char name[100]\<close>\<close>
  | EmptyTable             \<comment> \<open>the end iterator of an empty map is advanced\<close>
  | Diverges               \<comment> \<open>the fail bit is set and the end of file is never reached\<close>

text \<open>
  The three locals of the loop body. They are not initialised: a conversion that is not
  reached leaves what was there.
\<close>

record locals =
  l_addr :: Addr32
  l_type :: char
  l_name :: string

definition sscanf_symbol :: "string \<Rightarrow> locals \<Rightarrow> load_error + locals" where
  "sscanf_symbol s l =
     (case scan_hex 8 s of
        None \<Rightarrow> Inr l
      | Some (a, r1) \<Rightarrow>
          (case dropWhile is_space r1 of
             [] \<Rightarrow> Inr (l\<lparr>l_addr := a\<rparr>)
           | t # r2 \<Rightarrow>
               let nm = takeWhile (\<lambda>c. \<not> is_space c) (dropWhile is_space r2) in
               if nm = [] then Inr (l\<lparr>l_addr := a, l_type := t\<rparr>)
               else if 100 \<le> length nm then Inl NameOverflow
               else Inr (l\<lparr>l_addr := a, l_type := t, l_name := nm\<rparr>)))"

section \<open>Loading\<close>

type_synonym addr_names = "(Addr32 \<times> string) list"
type_synonym load_tabs = "addr_names \<times> (string \<rightharpoonup> Addr32)"

text \<open>The body of the loop after the line is scanned: symbols of type \<^verbatim>\<open>A\<close> are skipped.\<close>

definition load_line :: "locals \<Rightarrow> load_tabs \<Rightarrow> load_tabs" where
  "load_line l tabs =
     (if l_type l \<noteq> CHR ''A'' then
        (map_assign (<) (l_addr l) (l_name l) (fst tabs), (snd tabs)(l_name l \<mapsto> l_addr l))
      else tabs)"

text \<open>
  The loop \<^verbatim>\<open>while (!in.eof())\<close>. \<open>junk i\<close> is what the locals hold when iteration
  \<open>i\<close> starts. A stream whose fail bit is set without the end of file never ends the loop:
  every further \<^verbatim>\<open>getline\<close> returns at once.
\<close>

definition stream_measure :: "istream \<Rightarrow> nat" where
  "stream_measure st = length (in_rest st) + (if in_eof st \<or> in_fail st then 0 else 1)"

lemma getline_loop_length: "getline_loop n acc s = (t, rest, eof, fail) \<Longrightarrow> length rest \<le> length s"
  by (induction n acc s rule: getline_loop.induct) (fastforce split: if_splits nat.splits)+

lemma getline_measure:
  assumes "getline 500 st = (s, st')" "\<not> in_eof st" "\<not> in_fail st"
  shows "stream_measure st' < stream_measure st"
proof (cases "in_rest st")
  case Nil
  with assms show ?thesis by (auto simp: getline_def stream_measure_def)
next
  case (Cons c cs)
  have "length (in_rest st') \<le> length cs"
    using assms Cons by (auto simp: getline_def numeral_eq_Suc split: if_splits prod.splits
        dest: getline_loop_length)
  with assms Cons show ?thesis by (simp add: stream_measure_def)
qed

function load_loop ::
  "(nat \<Rightarrow> locals) \<Rightarrow> nat \<Rightarrow> istream \<Rightarrow> load_tabs \<Rightarrow> load_error + load_tabs" where
  "load_loop junk i st tabs =
     (if in_eof st then Inr tabs
      else if in_fail st then Inl Diverges
      else case sscanf_symbol (fst (getline 500 st)) (junk i) of
        Inl e \<Rightarrow> Inl e
      | Inr l \<Rightarrow> load_loop junk (Suc i) (snd (getline 500 st)) (load_line l tabs))"
  by pat_completeness auto
termination
  by (relation "measure (\<lambda>(junk, i, st, tabs). stream_measure st)")
    (auto intro: getline_measure [OF prod.collapse [symmetric]])

declare load_loop.simps [simp del]

text \<open>
  The second loop: each address but the last becomes a symbol that reaches to the next one.
\<close>

fun build_symbols :: "addr_names \<Rightarrow> (Symbol \<times> unit) list \<Rightarrow> (Symbol \<times> unit) list" where
  "build_symbols ((a, nm) # (b, nm') # rest) S =
     build_symbols ((b, nm') # rest)
       (snd (map_insert sym_less \<lparr>sym_Address = a, sym_Size = b - a, sym_Name = nm\<rparr> () S))"
| "build_symbols _ S = S"

text \<open>\<open>file\<close> is the content of the file, if it can be opened.\<close>

definition Load ::
  "(nat \<Rightarrow> locals) \<Rightarrow> string option \<Rightarrow> SymbolTable \<Rightarrow> load_error + SymbolTable" where
  "Load junk file t =
     (case file of
        None \<Rightarrow> Inl CannotOpen
      | Some txt \<Rightarrow>
          (case load_loop junk 0 \<lparr>in_rest = txt, in_eof = False, in_fail = False\<rparr>
                  ([], st_NameToAddressMap t) of
             Inl e \<Rightarrow> Inl e
           | Inr (names, n2a) \<Rightarrow>
               if names = [] then Inl EmptyTable
               else Inr \<lparr>st_NameToAddressMap = n2a,
                         st_SymbolMap = build_symbols names (st_SymbolMap t)\<rparr>))"

section \<open>Lookups\<close>

text \<open>\<^verbatim>\<open>Lookup(address, symbol)\<close>: \<open>None\<close> is the return value 1.\<close>

definition Lookup :: "SymbolTable \<Rightarrow> Addr32 \<Rightarrow> Symbol option" where
  "Lookup t address =
     map_option fst
       (map_find sym_less \<lparr>sym_Address = address, sym_Size = 0, sym_Name = []\<rparr> (st_SymbolMap t))"

text \<open>\<^verbatim>\<open>Lookup(name, address)\<close>: on success the address, otherwise the argument is kept.\<close>

definition Lookup_name :: "SymbolTable \<Rightarrow> string \<Rightarrow> Addr32 \<Rightarrow> int \<times> Addr32" where
  "Lookup_name t name address =
     (case st_NameToAddressMap t name of Some a \<Rightarrow> (0, a) | None \<Rightarrow> (1, address))"

section \<open>Address keys and symbol intervals\<close>

interpretation addr: interval_key "(<) :: Addr32 \<Rightarrow> Addr32 \<Rightarrow> bool" unat "\<lambda>a. Suc (unat a)" "\<lambda>_. True"
  by unfold_locales (auto simp: word_less_nat_alt)

definition sym_lo :: "Symbol \<Rightarrow> nat" where
  "sym_lo x = unat (sym_Address x)"

definition sym_hi :: "Symbol \<Rightarrow> nat" where
  "sym_hi x = unat (sym_Address x) + max 1 (unat (sym_Size x))"

definition sym_no_wrap :: "Symbol \<Rightarrow> bool" where
  "sym_no_wrap x \<longleftrightarrow> unat (sym_Address x) + unat (sym_Size x) < 2 ^ 32"

interpretation sym: interval_key sym_less sym_lo sym_hi sym_no_wrap
proof
  fix x show "sym_lo x < sym_hi x" by (simp add: sym_lo_def sym_hi_def)
next
  fix x y assume "sym_no_wrap x"
  then have "unat (sym_Address x + sym_Size x) = unat (sym_Address x) + unat (sym_Size x)"
    by (simp add: sym_no_wrap_def unat_add_no_wrap32)
  then show "sym_less x y = (sym_hi x \<le> sym_lo y)"
    by (auto simp: sym_less_def sym_lo_def sym_hi_def word_le_nat_alt word_less_nat_alt
        max_def not_le dest: unat_pos_iff [THEN iffD2])
qed

text \<open>The local map from addresses to names is sorted, and assignment updates it.\<close>

definition sorted_addrs :: "addr_names \<Rightarrow> bool" where
  "sorted_addrs m \<longleftrightarrow> sorted_wrt (\<lambda>x y. fst x < fst y) m"

lemma sorted_addrs_keys_ok: "sorted_addrs m = addr.keys_ok m"
  by (simp add: sorted_addrs_def addr.keys_ok_def Suc_le_eq word_less_nat_alt)

lemma sorted_addrs_distinct: "sorted_addrs m \<Longrightarrow> distinct (map fst m)"
  unfolding sorted_addrs_def by (induction m) auto

lemma addr_find_iff: "sorted_addrs m \<Longrightarrow> map_find (<) a m = Some e \<longleftrightarrow> e \<in> set m \<and> fst e = a"
  by (auto simp: sorted_addrs_keys_ok addr.find_point_iff less_Suc_eq_le word_le_nat_alt [symmetric])

lemma addr_find_None: "sorted_addrs m \<Longrightarrow> map_find (<) a m = None \<longleftrightarrow> a \<notin> fst ` set m"
  by (metis (no_types, lifting) addr_find_iff imageE imageI not_Some_eq option.exhaust)

lemma map_of_fst_update:
  "map_of (map (\<lambda>e. if fst e = a then (fst e, v) else e) m) =
     (if a \<in> fst ` set m then (map_of m)(a \<mapsto> v) else map_of m)"
  by (induction m) (auto simp: fun_eq_iff)

lemma map_assign_addr:
  assumes "sorted_addrs m"
  shows "sorted_addrs (map_assign (<) a v m)"
    and "map_of (map_assign (<) a v m) = (map_of m)(a \<mapsto> v)"
proof -
  have "sorted_addrs (map_assign (<) a v m) \<and> map_of (map_assign (<) a v m) = (map_of m)(a \<mapsto> v)"
  proof (cases "map_find (<) a m")
    case None
    then have free: "{unat a..<Suc (unat a)} \<inter> addr.covered m = {}"
      using assms addr.find_None_covered [of m a] by (simp add: sorted_addrs_keys_ok)
    obtain xs ys where m: "m = xs @ ys" "map_insert (<) a v m = (None, xs @ (a, v) # ys)"
      "addr.keys_ok (xs @ (a, v) # ys)"
      using addr.insert_free [of m a v] assms free by (auto simp: sorted_addrs_keys_ok)
    have "a \<notin> fst ` set m" using None assms by (simp add: addr_find_None)
    then have "map_of xs a = None" using m(1) by (auto simp: map_of_eq_None_iff)
    then have "map_of (xs @ (a, v) # ys) = (map_of m)(a \<mapsto> v)"
      using m(1) by (simp add: fun_eq_iff map_add_def split: option.split)
    with None m show ?thesis by (simp add: map_assign_def sorted_addrs_keys_ok)
  next
    case (Some e)
    then have e: "e \<in> set m" "fst e = a" using assms by (simp_all add: addr_find_iff)
    have "sorted_addrs (map (\<lambda>e'. if fst e' = a then (fst e', v) else e') m)"
      using assms unfolding sorted_addrs_def
      by (simp add: sorted_wrt_map if_distrib [of fst] cong: if_cong)
    then show ?thesis
      using Some e by (auto simp: map_assign_def map_of_fst_update)
  qed
  then show "sorted_addrs (map_assign (<) a v m)"
    and "map_of (map_assign (<) a v m) = (map_of m)(a \<mapsto> v)" by simp_all
qed

text \<open>The symbols of consecutive addresses, in order.\<close>

fun symbols_of :: "addr_names \<Rightarrow> (Symbol \<times> unit) list" where
  "symbols_of ((a, nm) # (b, nm') # rest) =
     (\<lparr>sym_Address = a, sym_Size = b - a, sym_Name = nm\<rparr>, ()) # symbols_of ((b, nm') # rest)"
| "symbols_of _ = []"

lemma symbol_between:
  assumes "a < b"
  shows "sym_lo \<lparr>sym_Address = a, sym_Size = b - a, sym_Name = nm\<rparr> = unat a"
    and "sym_hi \<lparr>sym_Address = a, sym_Size = b - a, sym_Name = nm\<rparr> = unat b"
    and "sym_no_wrap \<lparr>sym_Address = a, sym_Size = b - a, sym_Name = nm\<rparr>"
proof -
  have "unat (b - a) = unat b - unat a" "unat a < unat b"
    using assms by (simp_all add: unat_sub_le32 less_imp_le word_less_nat_alt)
  then show "sym_lo \<lparr>sym_Address = a, sym_Size = b - a, sym_Name = nm\<rparr> = unat a"
    and "sym_hi \<lparr>sym_Address = a, sym_Size = b - a, sym_Name = nm\<rparr> = unat b"
    and "sym_no_wrap \<lparr>sym_Address = a, sym_Size = b - a, sym_Name = nm\<rparr>"
    using unat_less_pow32 [of b] by (simp_all add: sym_lo_def sym_hi_def sym_no_wrap_def)
qed

lemma build_symbols_append:
  "sorted_addrs names \<Longrightarrow> sym.keys_ok S \<Longrightarrow>
   \<forall>e\<in>set S. \<forall>x\<in>set names. sym_hi (fst e) \<le> unat (fst x) \<Longrightarrow>
   build_symbols names S = S @ symbols_of names \<and> sym.keys_ok (build_symbols names S)"
proof (induction names S rule: build_symbols.induct)
  case (1 a nm b nm' rest S)
  let ?s = "\<lparr>sym_Address = a, sym_Size = b - a, sym_Name = nm\<rparr>"
  have lt: "a < b" and rest: "\<forall>x\<in>set ((b, nm') # rest). b \<le> fst x"
    using "1.prems"(1) by (auto simp: sorted_addrs_def less_imp_le)
  note s = symbol_between [OF lt, of nm]
  have ins: "map_insert sym_less ?s () S = (None, S @ [(?s, ())])"
    using "1.prems" s by (intro sym.insert_last) auto
  have "sym.keys_ok (S @ [(?s, ())])"
    using "1.prems" s by (auto simp: sym.keys_ok_append sym.keys_ok_Cons)
  moreover have "\<forall>e\<in>set (S @ [(?s, ())]). \<forall>x\<in>set ((b, nm') # rest). sym_hi (fst e) \<le> unat (fst x)"
    using "1.prems"(3) rest s by (auto simp: word_le_nat_alt)
  moreover have "sorted_addrs ((b, nm') # rest)" using "1.prems"(1) by (simp add: sorted_addrs_def)
  ultimately have "build_symbols ((b, nm') # rest) (S @ [(?s, ())]) =
      (S @ [(?s, ())]) @ symbols_of ((b, nm') # rest) \<and>
      sym.keys_ok (build_symbols ((b, nm') # rest) (S @ [(?s, ())]))"
    using "1.IH" unfolding ins snd_conv by blast
  with ins show ?case by (metis append_Cons append_Nil append_assoc build_symbols.simps(1)
        snd_conv symbols_of.simps(1))
qed simp_all

lemma symbols_of_nth:
  "i < length (symbols_of names) \<longleftrightarrow> Suc i < length names"
  "Suc i < length names \<Longrightarrow> symbols_of names ! i =
     (\<lparr>sym_Address = fst (names ! i), sym_Size = fst (names ! Suc i) - fst (names ! i),
       sym_Name = snd (names ! i)\<rparr>, ())"
proof -
  show "i < length (symbols_of names) \<longleftrightarrow> Suc i < length names"
    by (induction names arbitrary: i rule: symbols_of.induct) (auto simp: less_Suc_eq_0_disj)
  show "Suc i < length names \<Longrightarrow> symbols_of names ! i =
     (\<lparr>sym_Address = fst (names ! i), sym_Size = fst (names ! Suc i) - fst (names ! i),
       sym_Name = snd (names ! i)\<rparr>, ())"
    by (induction names arbitrary: i rule: symbols_of.induct)
      (auto simp: nth_Cons split: nat.splits)
qed


text \<open>
  The address lookup in the loaded table: the symbol that starts at the greatest listed
  address not above the query, provided there is a listed address above it.
\<close>

lemma Lookup_symbols:
  assumes sorted: "sorted_addrs names" and t: "st_SymbolMap t = build_symbols names []"
  shows "Lookup t a = Some s \<longleftrightarrow>
    (\<exists>i. Suc i < length names \<and> fst (names ! i) \<le> a \<and> a < fst (names ! Suc i) \<and>
         s = \<lparr>sym_Address = fst (names ! i), sym_Size = fst (names ! Suc i) - fst (names ! i),
              sym_Name = snd (names ! i)\<rparr>)" (is "_ \<longleftrightarrow> (\<exists>i. ?P i)")
proof -
  have map: "st_SymbolMap t = symbols_of names" "sym.keys_ok (symbols_of names)"
    using build_symbols_append [OF sorted, of "[]"] t by auto
  let ?q = "\<lparr>sym_Address = a, sym_Size = 0, sym_Name = []\<rparr>"
  have q: "sym_no_wrap ?q" "sym_lo ?q = unat a" "sym_hi ?q = Suc (unat a)"
    using unat_less_pow32 [of a] by (simp_all add: sym_no_wrap_def sym_lo_def sym_hi_def)
  have "Lookup t a = Some s \<longleftrightarrow> map_find sym_less ?q (symbols_of names) = Some (s, ())"
    by (auto simp: Lookup_def map)
  also have "\<dots> \<longleftrightarrow> (s, ()) \<in> set (symbols_of names) \<and> sym_lo s \<le> unat a \<and> unat a < sym_hi s"
    using sym.find_point_iff [OF map(2) q(1), of "(s, ())"] q by simp
  also have "\<dots> \<longleftrightarrow> (\<exists>i. Suc i < length names \<and> symbols_of names ! i = (s, ()) \<and>
      sym_lo s \<le> unat a \<and> unat a < sym_hi s)"
    by (auto simp: in_set_conv_nth symbols_of_nth(1))
  also have "\<dots> \<longleftrightarrow> (\<exists>i. ?P i)"
  proof (rule ex_cong1, rule conj_cong [OF refl])
    fix i assume i: "Suc i < length names"
    then have lt: "fst (names ! i) < fst (names ! Suc i)"
      using sorted sorted_wrt_nth_less [of "\<lambda>x y. fst x < fst y" names i "Suc i"]
      by (simp add: sorted_addrs_def)
    show "(symbols_of names ! i = (s, ()) \<and> sym_lo s \<le> unat a \<and> unat a < sym_hi s) =
        (fst (names ! i) \<le> a \<and> a < fst (names ! Suc i) \<and>
         s = \<lparr>sym_Address = fst (names ! i), sym_Size = fst (names ! Suc i) - fst (names ! i),
              sym_Name = snd (names ! i)\<rparr>)"
      using symbol_between [OF lt, of "snd (names ! i)"] symbols_of_nth(2) [OF i]
      by (auto simp: word_le_nat_alt word_less_nat_alt)
  qed
  finally show ?thesis .
qed

end
