(* ===== verification/SymbolLoad.thy ===== *)
theory SymbolLoad
  imports SymbolTable
begin

text \<open>
  What \<^verbatim>\<open>SymbolTable::Load\<close> makes of a \<^verbatim>\<open>System.map\<close>: the printed form of a list of
  symbols is scanned back to the same symbols, line by line, and the table holds the last
  address of each name and the last name of each address.
\<close>

section \<open>The format of \<^verbatim>\<open>System.map\<close>\<close>

record map_entry =
  me_addr :: Addr32
  me_type :: char
  me_name :: string

definition hex_char :: "nat \<Rightarrow> char" where
  "hex_char d = ''0123456789abcdef'' ! d"

fun hex_digits :: "nat \<Rightarrow> nat \<Rightarrow> string" where
  "hex_digits 0 n = []"
| "hex_digits (Suc w) n = hex_char (n div 16 ^ w mod 16) # hex_digits w n"

definition print_entry :: "map_entry \<Rightarrow> string" where
  "print_entry e = hex_digits 8 (unat (me_addr e)) @ '' '' @ [me_type e] @ '' '' @ me_name e"

definition valid_entry :: "map_entry \<Rightarrow> bool" where
  "valid_entry e \<longleftrightarrow>
     \<not> is_space (me_type e) \<and> me_name e \<noteq> [] \<and> (\<forall>c\<in>set (me_name e). \<not> is_space c) \<and>
     length (me_name e) < 100"

definition entry_locals :: "map_entry \<Rightarrow> locals" where
  "entry_locals e = \<lparr>l_addr = me_addr e, l_type = me_type e, l_name = me_name e\<rparr>"

section \<open>Scanning a printed entry\<close>

lemma hex_char_table:
  "list_all (\<lambda>d. hex_value (hex_char d) = Some d \<and> \<not> is_space (hex_char d) \<and>
     hex_char d \<noteq> CHR ''-'' \<and> hex_char d \<noteq> CHR ''+'' \<and> hex_char d \<noteq> CHR ''x'' \<and>
     hex_char d \<noteq> CHR ''X'' \<and> hex_char d \<noteq> CHR 0x0A) [0..<16]"
  by code_simp

lemma hex_char_props:
  assumes "d < 16"
  shows "hex_value (hex_char d) = Some d" "\<not> is_space (hex_char d)"
    "hex_char d \<noteq> CHR ''-''" "hex_char d \<noteq> CHR ''+''" "hex_char d \<noteq> CHR ''x''"
    "hex_char d \<noteq> CHR ''X''" "hex_char d \<noteq> CHR 0x0A"
  using hex_char_table assms by (simp_all only: list_all_iff set_upt atLeastLessThan_iff) auto

lemma is_space_blank [simp]: "is_space CHR '' ''"
  by (simp add: is_space_def)

lemma scan_digits_hex:
  "0 < w \<Longrightarrow> scan_digits w any v (hex_digits w n @ s) = (True, 16 ^ w * v + n mod 16 ^ w, s)"
proof (induction w arbitrary: any v)
  case 0
  then show ?case by simp
next
  case (Suc w)
  let ?d = "n div 16 ^ w mod 16"
  have step: "scan_digits (Suc w) any v (hex_digits (Suc w) n @ s) =
      scan_digits w True (16 * v + ?d) (hex_digits w n @ s)"
    by (simp add: hex_char_props)
  have "n mod 16 ^ Suc w = 16 ^ w * ?d + n mod 16 ^ w"
    using mod_mult2_eq [of n "16 ^ w" 16] by (simp add: mult.commute)
  then show ?case
    using Suc.IH [of True "16 * v + ?d"] step
    by (cases w) (simp_all add: algebra_simps)
qed

lemma length_hex_digits [simp]: "length (hex_digits w n) = w"
  by (induction w) auto

lemma hex_digits_no_space: "c \<in> set (hex_digits w n) \<Longrightarrow> \<not> is_space c"
  by (induction w) (auto simp: hex_char_props)

lemma hex_digits_8: "hex_digits 8 n =
    hex_char (n div 16 ^ 7 mod 16) # hex_char (n div 16 ^ 6 mod 16) # hex_digits 6 n"
  using hex_digits.simps(2) [of 7 n] hex_digits.simps(2) [of 6 n] by simp

lemma scan_prefix_hex: "scan_prefix 8 (hex_digits 8 n @ s) = (8, hex_digits 8 n @ s)"
  by (simp add: hex_digits_8 scan_prefix_def hex_char_props)

lemma scan_hex_print: "scan_hex 8 (hex_digits 8 (unat a) @ s) = Some (a, s)"
proof -
  let ?h = "hex_digits 8 (unat a) @ s"
  have drop: "dropWhile is_space ?h = ?h"
    by (simp add: hex_digits_8 hex_char_props)
  have sign: "(case ?h of
      c # s' \<Rightarrow> if c = CHR ''-'' then (True, 8 - 1, s')
                else if c = CHR ''+'' then (False, 8 - 1, s') else (False, 8, ?h)
    | [] \<Rightarrow> (False, 8, ?h)) = (False, 8::nat, ?h)"
    by (simp add: hex_digits_8 hex_char_props)
  have "unat a mod 16 ^ 8 = unat a"
    using unat_less_pow32 [of a] by simp
  then show ?thesis
    using scan_digits_hex [of 8 False 0 "unat a" s] sign drop
    by (simp add: scan_hex_def scan_prefix_hex Let_def)
qed

lemma sscanf_print:
  assumes "valid_entry e"
  shows "sscanf_symbol (print_entry e) l = Inr (entry_locals e)"
proof -
  have tw: "takeWhile (\<lambda>c. \<not> is_space c) (me_name e) = me_name e"
    and dw: "dropWhile is_space (me_name e) = me_name e"
    using assms by (auto simp: valid_entry_def takeWhile_eq_all_conv dropWhile_eq_self_iff)
  show ?thesis
    using assms
    by (simp add: sscanf_symbol_def print_entry_def scan_hex_print valid_entry_def
        entry_locals_def Let_def tw dw)
qed

section \<open>Reading the lines\<close>

lemma getline_loop_line:
  "CHR 0x0A \<notin> set s \<Longrightarrow> length s \<le> n \<Longrightarrow>
   getline_loop n acc (s @ CHR 0x0A # rest) = (rev acc @ s, rest, False, False)"
  by (induction s arbitrary: n acc) (auto split: nat.split)

lemma getline_loop_last:
  "CHR 0x0A \<notin> set s \<Longrightarrow> length s \<le> n \<Longrightarrow> s \<noteq> [] \<or> acc \<noteq> [] \<Longrightarrow>
   getline_loop n acc s = (rev acc @ s, [], True, False)"
  by (induction s arbitrary: n acc) (auto split: nat.split)

lemma print_entry_line:
  assumes "valid_entry e"
  shows "CHR 0x0A \<notin> set (print_entry e)" "length (print_entry e) \<le> 499" "print_entry e \<noteq> []"
proof -
  have "is_space CHR 0x0A" by (simp add: is_space_def)
  then show "CHR 0x0A \<notin> set (print_entry e)"
    using assms hex_digits_no_space [of "CHR 0x0A" 8 "unat (me_addr e)"]
    unfolding print_entry_def valid_entry_def by fastforce
qed (use assms in \<open>simp_all add: print_entry_def valid_entry_def\<close>)

text \<open>An open stream that is good.\<close>

abbreviation good :: "string \<Rightarrow> istream" where
  "good s \<equiv> \<lparr>in_rest = s, in_eof = False, in_fail = False\<rparr>"

lemma load_loop_line:
  assumes "valid_entry e"
  shows "load_loop junk i (good (print_entry e @ CHR 0x0A # rest)) tabs =
         load_loop junk (Suc i) (good rest) (load_line (entry_locals e) tabs)"
proof -
  have "getline 500 (good (print_entry e @ CHR 0x0A # rest)) = (print_entry e, good rest)"
    using getline_loop_line [of "print_entry e" 499 "[]" rest] print_entry_line [OF assms]
    by (simp add: getline_def)
  then show ?thesis
    by (simp add: load_loop.simps [of junk i] sscanf_print [OF assms])
qed

lemma load_loop_last:
  assumes "valid_entry e"
  shows "load_loop junk i (good (print_entry e)) tabs = Inr (load_line (entry_locals e) tabs)"
proof -
  have "getline 500 (good (print_entry e)) =
      (print_entry e, \<lparr>in_rest = [], in_eof = True, in_fail = False\<rparr>)"
    using getline_loop_last [of "print_entry e" 499 "[]"] print_entry_line [OF assms]
    by (simp add: getline_def)
  then show ?thesis
    by (simp add: load_loop.simps [of junk i] sscanf_print [OF assms] load_loop.simps [of _ "Suc i"])
qed

lemma scan_hex_Nil: "scan_hex 8 [] = None"
  using scan_digits.simps(2) [of 7] by (simp add: scan_hex_def scan_prefix_def)

lemma load_loop_empty: "load_loop junk i (good []) tabs = Inr (load_line (junk i) tabs)"
  by (simp add: load_loop.simps [of junk i] load_loop.simps [of _ "Suc i"] getline_def
      sscanf_symbol_def scan_hex_Nil)

definition map_lines :: "map_entry list \<Rightarrow> string" where
  "map_lines es = concat (map (\<lambda>e. print_entry e @ [CHR 0x0A]) es)"

definition load_entries :: "map_entry list \<Rightarrow> load_tabs \<Rightarrow> load_tabs" where
  "load_entries es tabs = fold (\<lambda>e. load_line (entry_locals e)) es tabs"

lemma load_loop_lines:
  "\<forall>e\<in>set es. valid_entry e \<Longrightarrow>
   load_loop junk i (good (map_lines es @ rest)) tabs =
   load_loop junk (i + length es) (good rest) (load_entries es tabs)"
  by (induction es arbitrary: i tabs)
    (simp_all add: map_lines_def load_entries_def load_loop_line)

section \<open>The tables\<close>

text \<open>The entries that are recorded: symbols of type \<^verbatim>\<open>A\<close> are not.\<close>

definition listed :: "map_entry list \<Rightarrow> map_entry list" where
  "listed es = filter (\<lambda>e. me_type e \<noteq> CHR ''A'') es"

definition last_addr :: "map_entry list \<Rightarrow> string \<rightharpoonup> Addr32" where
  "last_addr es = map_of (rev (map (\<lambda>e. (me_name e, me_addr e)) (listed es)))"

definition last_name :: "map_entry list \<Rightarrow> Addr32 \<rightharpoonup> string" where
  "last_name es = map_of (rev (map (\<lambda>e. (me_addr e, me_name e)) (listed es)))"

lemma load_line_entry:
  "load_line (entry_locals e) tabs =
     (if me_type e \<noteq> CHR ''A'' then
        (map_assign (<) (me_addr e) (me_name e) (fst tabs), (snd tabs)(me_name e \<mapsto> me_addr e))
      else tabs)"
  by (simp add: load_line_def entry_locals_def)

lemma load_entries_tabs:
  "sorted_addrs (fst tabs) \<Longrightarrow>
   sorted_addrs (fst (load_entries es tabs)) \<and>
   map_of (fst (load_entries es tabs)) = map_of (fst tabs) ++ last_name es \<and>
   snd (load_entries es tabs) = snd tabs ++ last_addr es"
proof (induction es arbitrary: tabs)
  case Nil
  then show ?case by (simp add: load_entries_def last_name_def last_addr_def listed_def)
next
  case (Cons e es)
  then show ?case
    by (cases "me_type e = CHR ''A''")
      (simp_all add: load_entries_def load_line_entry last_name_def last_addr_def listed_def
        map_assign_addr map_add_upd_left [symmetric] fun_eq_iff map_add_def split: option.split)
qed

lemma Load_text:
  assumes "load_loop junk 0 (good txt) ([], \<lambda>_. None) = Inr tabs" "fst tabs \<noteq> []"
  shows "Load junk (Some txt) empty_SymbolTable =
    Inr \<lparr>st_NameToAddressMap = snd tabs, st_SymbolMap = build_symbols (fst tabs) []\<rparr>"
  using assms by (auto simp: Load_def empty_SymbolTable_def split: prod.split)

lemma load_entries_nonempty:
  assumes "listed es \<noteq> []"
  shows "fst (load_entries es ([], \<lambda>_. None)) \<noteq> []"
proof
  assume "fst (load_entries es ([], \<lambda>_. None)) = []"
  then have "last_name es = (\<lambda>_. None)"
    using load_entries_tabs [of "([], \<lambda>_. None)" es] by (simp add: sorted_addrs_def)
  with assms show False by (simp add: last_name_def)
qed

text \<open>Consecutive keys of a sorted table are those with nothing in between.\<close>

lemma sorted_addrs_nth_less:
  "sorted_addrs m \<Longrightarrow> i < length m \<Longrightarrow> j < length m \<Longrightarrow> fst (m ! i) < fst (m ! j) \<longleftrightarrow> i < j"
proof -
  assume m: "sorted_addrs m" "i < length m" "j < length m"
  then have lt: "k < l \<Longrightarrow> l < length m \<Longrightarrow> fst (m ! k) < fst (m ! l)" for k l
    using sorted_wrt_nth_less [of "\<lambda>x y. fst x < fst y" m k l] by (simp add: sorted_addrs_def)
  show "fst (m ! i) < fst (m ! j) \<longleftrightarrow> i < j"
    using lt [of i j] lt [of j i] m by (cases i j rule: linorder_cases) auto
qed

lemma fst_nth_conv: "d \<in> fst ` set m \<longleftrightarrow> (\<exists>j<length m. d = fst (m ! j))"
  by (metis (no_types, lifting) image_iff in_set_conv_nth)

lemma consecutive_iff:
  assumes "sorted_addrs m"
  shows "(\<exists>i. Suc i < length m \<and> m ! i = (x, nm) \<and> fst (m ! Suc i) = b) \<longleftrightarrow>
    map_of m x = Some nm \<and> b \<in> dom (map_of m) \<and> x < b \<and> (\<forall>d\<in>dom (map_of m). d \<le> x \<or> b \<le> d)"
    (is "?L \<longleftrightarrow> ?R")
proof -
  note less = sorted_addrs_nth_less [OF assms]
  have dist: "distinct (map fst m)" by (rule sorted_addrs_distinct [OF assms])
  have dom: "dom (map_of m) = fst ` set m" by (rule dom_map_of_conv_image_fst)
  show ?thesis
  proof
    assume ?L
    then obtain i where i: "Suc i < length m" "m ! i = (x, nm)" "fst (m ! Suc i) = b" by blast
    then have "(x, nm) \<in> set m" by (metis Suc_lessD nth_mem)
    moreover have "x < b" using less [of i "Suc i"] i by simp
    moreover have "d \<le> x \<or> b \<le> d" if d: "d \<in> fst ` set m" for d
    proof -
      obtain j where "j < length m" "d = fst (m ! j)" using d unfolding fst_nth_conv by blast
      then show ?thesis using less [of i j] less [of j "Suc i"] i by (auto simp: not_less [symmetric])
    qed
    moreover have "b \<in> fst ` set m" using i by force
    ultimately show ?R using dist by (simp add: dom)
  next
    assume R: ?R
    then obtain i where i: "i < length m" "m ! i = (x, nm)"
      using dist by (metis in_set_conv_nth map_of_SomeD)
    obtain j where j: "j < length m" "fst (m ! j) = b"
      using R unfolding dom fst_nth_conv by blast
    have "i < j" using less [of i j] i j R by simp
    moreover have "\<not> Suc i < j"
    proof
      assume "Suc i < j"
      then have "x < fst (m ! Suc i)" "fst (m ! Suc i) < b" "fst (m ! Suc i) \<in> fst ` set m"
        using less [of i "Suc i"] less [of "Suc i" j] i j by auto
      with R show False by (auto simp: dom)
    qed
    ultimately have "j = Suc i" by simp
    with i j show ?L by auto
  qed
qed

section \<open>The loaded table\<close>

lemma Load_lines:
  assumes "\<forall>e\<in>set es. valid_entry e" "valid_entry e" "listed (es @ [e]) \<noteq> []"
  shows "Load junk (Some (map_lines es @ print_entry e)) empty_SymbolTable =
    Inr \<lparr>st_NameToAddressMap = last_addr (es @ [e]),
         st_SymbolMap = build_symbols (fst (load_entries (es @ [e]) ([], \<lambda>_. None))) []\<rparr>"
proof -
  have "load_loop junk 0 (good (map_lines es @ print_entry e)) ([], \<lambda>_. None) =
      Inr (load_entries (es @ [e]) ([], \<lambda>_. None))"
    using assms by (simp add: load_loop_lines load_loop_last) (simp add: load_entries_def)
  moreover have "snd (load_entries (es @ [e]) ([], \<lambda>_. None)) = last_addr (es @ [e])"
    using load_entries_tabs [of "([], \<lambda>_. None)" "es @ [e]"] by (simp add: sorted_addrs_def)
  ultimately show ?thesis
    using Load_text load_entries_nonempty [OF assms(3)] by simp
qed

lemma Lookup_entries:
  assumes "st_SymbolMap t = build_symbols (fst (load_entries es ([], \<lambda>_. None))) []"
  shows "Lookup t a = Some s \<longleftrightarrow>
    last_name es (sym_Address s) = Some (sym_Name s) \<and> sym_Address s \<le> a \<and>
    (\<exists>b. b \<in> dom (last_name es) \<and> a < b \<and> sym_Size s = b - sym_Address s \<and>
         (\<forall>d\<in>dom (last_name es). d \<le> sym_Address s \<or> b \<le> d))" (is "_ \<longleftrightarrow> ?R")
proof -
  let ?m = "fst (load_entries es ([], \<lambda>_. None))"
  have m: "sorted_addrs ?m" "map_of ?m = last_name es"
    using load_entries_tabs [of "([], \<lambda>_. None)" es] by (simp_all add: sorted_addrs_def)
  have s: "s = \<lparr>sym_Address = sym_Address s, sym_Size = sym_Size s, sym_Name = sym_Name s\<rparr>" by simp
  have "Lookup t a = Some s \<longleftrightarrow> (\<exists>b. (\<exists>i. Suc i < length ?m \<and>
      ?m ! i = (sym_Address s, sym_Name s) \<and> fst (?m ! Suc i) = b) \<and>
      sym_Address s \<le> a \<and> a < b \<and> sym_Size s = b - sym_Address s)"
    unfolding Lookup_symbols [OF m(1) assms] by (subst s, unfold Symbol.ext_inject) (auto simp: prod_eq_iff)
  also have "\<dots> \<longleftrightarrow> ?R"
    unfolding consecutive_iff [OF m(1)] m(2) by (auto intro: le_less_trans)
  finally show ?thesis .
qed


definition sample_text :: map_entry where
  "sample_text = \<lparr>me_addr = 0xc0100000, me_type = CHR ''T'', me_name = ''_text''\<rparr>"

definition sample_startup :: map_entry where
  "sample_startup = \<lparr>me_addr = 0xc0100010, me_type = CHR ''t'', me_name = ''startup''\<rparr>"

lemma samples_valid: "valid_entry sample_text" "valid_entry sample_startup"
  by (simp_all add: valid_entry_def sample_text_def sample_startup_def is_space_def)

lemma samples_listed:
  "last_addr [sample_text, sample_startup] = [''_text'' \<mapsto> 0xc0100000, ''startup'' \<mapsto> 0xc0100010]"
  "last_name [sample_text, sample_startup] = [0xc0100000 \<mapsto> ''_text'', 0xc0100010 \<mapsto> ''startup'']"
  by (simp_all add: last_addr_def last_name_def listed_def sample_text_def sample_startup_def)




lemma getline_loop_long:
  assumes "CHR 0x0A \<notin> set l" "n < length l"
  shows "getline_loop n acc (l @ rest) = (rev acc @ take n l, drop n l @ rest, False, True)"
  using assms
proof (induction n arbitrary: acc l)
  case 0
  then show ?case by (cases l) auto
next
  case (Suc n)
  then show ?case by (cases l) auto
qed



end
