(* ===== verification/Machine.thy ===== *)
theory Machine
  imports SymbolTable
begin

text \<open>
  The abstract class \<^verbatim>\<open>Machine\<close> through which MemCheck reads the guest
  (\<^verbatim>\<open>Machine.h\<close>) as a record of its virtual methods over the type of the CPU state,
  the lines a stack trace prints, and the parts of \<^verbatim>\<open>MachineQEMU\<close> the three targets
  share. The implementations for i386, MIPS and PowerPC are in their own theories.
\<close>

section \<open>Output\<close>

text \<open>
  The lines of a trace: the header, and one line per program counter, with the symbol and
  the offset in it if the table has one.
\<close>

datatype trace_line =
    Trace
  | PCSymbol u32 string u32 Addr32
  | PCPlain u32 Addr32

section \<open>The interface\<close>

text \<open>
  \<open>m_ReadMemory cpu a buf\<close> is the content of the buffer after the call, \<open>buf\<close> what it
  held before: bytes that cannot be read are left as they are. The two stack traces return
  the lines they print; \<open>u8 list\<close> arguments are the indeterminate content of the locals the
  implementation reads into.
\<close>

record 'cpu Machine =
  m_GetReturnValue :: "'cpu \<Rightarrow> Word32"
  m_GetReturnAddress :: "'cpu \<Rightarrow> u8 list \<Rightarrow> Addr32"
  m_GetArgumentN :: "'cpu \<Rightarrow> u8 list \<Rightarrow> u32 \<Rightarrow> Word32"
  m_GetArgument1 :: "'cpu \<Rightarrow> Word32"
  m_GetArgument2 :: "'cpu \<Rightarrow> Word32"
  m_GetPC :: "'cpu \<Rightarrow> Addr32"
  m_ReadMemory :: "'cpu \<Rightarrow> Addr32 \<Rightarrow> u8 list \<Rightarrow> u8 list"
  m_StackTrace :: "'cpu \<Rightarrow> u8 list \<Rightarrow> SymbolTable \<Rightarrow> trace_line list"
  m_StackTraceAtFunction :: "'cpu \<Rightarrow> u8 list \<Rightarrow> SymbolTable \<Rightarrow> trace_line list"

text \<open>The host is little-endian: a 32-bit local read byte by byte.\<close>

definition le32 :: "u8 list \<Rightarrow> u32" where
  "le32 bs = (\<Sum>i<4. ucast (bs ! i) * 2 ^ (8 * i))"

section \<open>\<^verbatim>\<open>MachineQEMU::PrintPC\<close>\<close>

definition PrintPC :: "u32 \<Rightarrow> Addr32 \<Rightarrow> SymbolTable \<Rightarrow> trace_line list" where
  "PrintPC depth pc symbolTable =
     (case Lookup symbolTable pc of
        Some symbol \<Rightarrow> [PCSymbol depth (sym_Name symbol) (pc - sym_Address symbol) pc]
      | None \<Rightarrow> [PCPlain depth pc])"

end
