(* ===== verification/MemCheckCore.thy ===== *)
theory MemCheckCore
  imports ShadowSpec SymbolLoad Machine
begin

text \<open>
  The checker: \<^verbatim>\<open>MemCheck.h/.cpp\<close>, \<^verbatim>\<open>FunctionInterceptor.h/.cpp\<close>,
  \<^verbatim>\<open>MemCheckLinuxKernel.h/.cpp\<close> and the C entry points of
  \<^verbatim>\<open>MemCheckLinuxKernelQEMU.cpp\<close>. The objects refer to each other through global
  pointers, so their fields form one record; \<^verbatim>\<open>Function\<close> objects live on the heap and are
  addressed by their index in it.
\<close>

section \<open>State\<close>

text \<open>The subclasses of \<^verbatim>\<open>Function\<close>, which the virtual calls dispatch on.\<close>

datatype function_class =
    LinuxKernelEnableMemoryAccess
  | LinuxKernelHeapFunction
  | MemCheck_Alloc
  | MemCheck_Free
  | MemCheck_FreeSize
  | MemCheck_FreeAnySize

record Function =
  f_Class :: function_class
  f_Address :: Addr32
  f_SymbolName :: string
  f_Active :: bool
  f_NumberOfArguments :: u32
  f_Debug :: bool

datatype aoi_type = RETURNADDRESS | FUNCTION

record AddressOfInterest =
  aoi_Type :: aoi_type
  aoi_Address :: Addr32
  aoi_RefCnt :: u32
  aoi_Function :: nat

text \<open>What the checker prints.\<close>

datatype event =
    ShadowMsg shadow_msg
  | OutOfBound Addr32 u32
  | TimeLine u32
  | CommLine "u8 list"
  | TraceLine trace_line
  | LeaveLine string Addr32 Word32
  | EnterLine string Addr32 Addr32 "Word32 list"

record memcheck =
  mc_MemoryAccessStart :: Addr32
  mc_MemoryAccessStop :: Addr32
  mc_ShadowMemory :: ShadowMemory
  mc_SymbolTable :: SymbolTable
  mc_MemoryAccessDepth :: u32
  mc_MemoryAccessDisable :: bool
  mc_Initialized :: bool
  fi_AddressOfInterestMap :: "Addr32 \<rightharpoonup> AddressOfInterest"
  fi_FunctionList :: "nat list"
  fi_Functions :: "Function list"
  mc_Out :: "event list"

text \<open>
  What a call sees of its surroundings: the wall clock, and the indeterminate content of
  the locals and fields it does not initialise.
\<close>

record ambient =
  am_time :: u32
  am_word :: "u8 list"
  am_comm :: "u8 list"

definition initial_memcheck :: memcheck where
  "initial_memcheck =
     \<lparr>mc_MemoryAccessStart = 0, mc_MemoryAccessStop = 0, mc_ShadowMemory = [],
      mc_SymbolTable = empty_SymbolTable, mc_MemoryAccessDepth = 0,
      mc_MemoryAccessDisable = False, mc_Initialized = False,
      fi_AddressOfInterestMap = (\<lambda>_. None), fi_FunctionList = [], fi_Functions = [],
      mc_Out = []\<rparr>"

definition emit :: "event list \<Rightarrow> memcheck \<Rightarrow> memcheck" where
  "emit os s = s\<lparr>mc_Out := mc_Out s @ os\<rparr>"

section \<open>\<^verbatim>\<open>MemCheck.cpp\<close>\<close>

definition MemoryAccessEnable :: "memcheck \<Rightarrow> memcheck" where
  "MemoryAccessEnable s =
     (if mc_MemoryAccessDepth s \<noteq> 0
      then s\<lparr>mc_MemoryAccessDepth := mc_MemoryAccessDepth s - 1\<rparr>
      else s\<lparr>mc_MemoryAccessDisable := False\<rparr>)"

definition MemoryAccessDisable :: "memcheck \<Rightarrow> memcheck" where
  "MemoryAccessDisable s =
     (if mc_MemoryAccessDisable s
      then s\<lparr>mc_MemoryAccessDepth := mc_MemoryAccessDepth s + 1\<rparr>
      else s\<lparr>mc_MemoryAccessDisable := True\<rparr>)"

section \<open>\<^verbatim>\<open>MemCheckLinuxKernel.cpp\<close>: traces\<close>

abbreviation COMM_OFFSET :: Addr32 where
  "COMM_OFFSET \<equiv> 761"

definition PrintKernelComm ::
  "'cpu Machine \<Rightarrow> ambient \<Rightarrow> 'cpu \<Rightarrow> memcheck \<Rightarrow> memcheck" where
  "PrintKernelComm M am cpu s =
     (case Lookup_name (mc_SymbolTable s) ''per_cpu__current_task'' (le32 (am_word am)) of
        (ret, currentPtr) \<Rightarrow>
          if ret \<noteq> 0 then s
          else
            let current = le32 (m_ReadMemory M cpu currentPtr (am_word am));
                comm = m_ReadMemory M cpu (current + COMM_OFFSET) (am_comm am) in
            emit [CommLine (takeWhile (\<lambda>b. b \<noteq> 0) comm)] s)"

definition DumpTraceAtFunction ::
  "'cpu Machine \<Rightarrow> ambient \<Rightarrow> 'cpu \<Rightarrow> memcheck \<Rightarrow> memcheck" where
  "DumpTraceAtFunction M am cpu s =
     (let s1 = PrintKernelComm M am cpu (emit [TimeLine (am_time am)] s) in
      emit (map TraceLine (m_StackTraceAtFunction M cpu (am_word am) (mc_SymbolTable s1))) s1)"

definition DumpTrace ::
  "'cpu Machine \<Rightarrow> ambient \<Rightarrow> 'cpu \<Rightarrow> memcheck \<Rightarrow> memcheck" where
  "DumpTrace M am cpu s =
     (let s1 = PrintKernelComm M am cpu s in
      emit (map TraceLine (m_StackTrace M cpu (am_word am) (mc_SymbolTable s1))) s1)"

section \<open>\<^verbatim>\<open>MemCheck::MemoryAccess\<close>\<close>

definition MemoryAccess ::
  "'cpu Machine \<Rightarrow> ambient \<Rightarrow> 'cpu \<Rightarrow> Addr32 \<Rightarrow> u32 \<Rightarrow> memcheck \<Rightarrow> memcheck" where
  "MemoryAccess M am cpu address len s =
     (if mc_MemoryAccessDisable s then s
      else if address < mc_MemoryAccessStart s \<or> mc_MemoryAccessStop s \<le> address then s
      else case map_find ma_less (Block address len) (mc_ShadowMemory s) of
        None \<Rightarrow> DumpTrace M am cpu (emit [OutOfBound address len] s)
      | Some _ \<Rightarrow> s)"

section \<open>The intercepted functions\<close>

text \<open>The common part of the four allocator hooks: run the operation, report a failure.\<close>

definition shadow_call ::
  "'cpu Machine \<Rightarrow> ambient \<Rightarrow> 'cpu \<Rightarrow> int \<times> shadow_msg list \<times> ShadowMemory \<Rightarrow> memcheck \<Rightarrow> memcheck" where
  "shadow_call M am cpu r s =
     (case r of (ret, msgs, m) \<Rightarrow>
        let s1 = emit (map ShadowMsg msgs) (s\<lparr>mc_ShadowMemory := m\<rparr>) in
        if ret \<noteq> 0 then DumpTraceAtFunction M am cpu s1 else s1)"

definition Enter ::
  "'cpu Machine \<Rightarrow> ambient \<Rightarrow> function_class \<Rightarrow> 'cpu \<Rightarrow> memcheck \<Rightarrow> memcheck" where
  "Enter M am c cpu s =
     (case c of
        LinuxKernelEnableMemoryAccess \<Rightarrow> s
      | LinuxKernelHeapFunction \<Rightarrow> MemoryAccessDisable s
      | MemCheck_Alloc \<Rightarrow>
          shadow_call M am cpu
            (NewMemoryAlloc 0 (m_GetArgument1 M cpu) (m_GetArgument2 M cpu) (mc_ShadowMemory s)) s
      | MemCheck_Free \<Rightarrow>
          shadow_call M am cpu (FreeMemory 0 (m_GetArgument1 M cpu) (mc_ShadowMemory s)) s
      | MemCheck_FreeSize \<Rightarrow>
          shadow_call M am cpu
            (FreeSizeMemory 0 (m_GetArgument1 M cpu) (m_GetArgument2 M cpu) (mc_ShadowMemory s)) s
      | MemCheck_FreeAnySize \<Rightarrow>
          shadow_call M am cpu
            (FreeAnySizeMemory 0 (m_GetArgument1 M cpu) (m_GetArgument2 M cpu)
               (mc_ShadowMemory s)) s)"

definition Leave :: "function_class \<Rightarrow> memcheck \<Rightarrow> memcheck" where
  "Leave c s =
     (case c of
        LinuxKernelEnableMemoryAccess \<Rightarrow> MemoryAccessEnable s
      | LinuxKernelHeapFunction \<Rightarrow> MemoryAccessEnable s
      | _ \<Rightarrow> s)"

section \<open>\<^verbatim>\<open>FunctionInterceptor.cpp\<close>\<close>

definition AddressOfInterest_NewFunction :: "Function list \<Rightarrow> nat \<Rightarrow> AddressOfInterest" where
  "AddressOfInterest_NewFunction fs f =
     \<lparr>aoi_Type = FUNCTION, aoi_Address = f_Address (fs ! f), aoi_RefCnt = 1, aoi_Function = f\<rparr>"

definition AddressOfInterest_NewReturnAddress :: "Addr32 \<Rightarrow> nat \<Rightarrow> AddressOfInterest" where
  "AddressOfInterest_NewReturnAddress returnAddress f =
     \<lparr>aoi_Type = RETURNADDRESS, aoi_Address = returnAddress, aoi_RefCnt = 1, aoi_Function = f\<rparr>"

definition NewFunction :: "nat \<Rightarrow> memcheck \<Rightarrow> memcheck" where
  "NewFunction f s =
     s\<lparr>fi_FunctionList := fi_FunctionList s @ [f],
       fi_AddressOfInterestMap := (fi_AddressOfInterestMap s)
         (f_Address (fi_Functions s ! f) \<mapsto> AddressOfInterest_NewFunction (fi_Functions s) f)\<rparr>"

definition set_Active :: "nat \<Rightarrow> bool \<Rightarrow> memcheck \<Rightarrow> memcheck" where
  "set_Active f b s =
     s\<lparr>fi_Functions := (fi_Functions s)[f := (fi_Functions s ! f)\<lparr>f_Active := b\<rparr>]\<rparr>"

text \<open>The two debugging messages of \<^verbatim>\<open>DoAddress\<close>.\<close>

definition debug_leave :: "'cpu Machine \<Rightarrow> Function \<Rightarrow> 'cpu \<Rightarrow> memcheck \<Rightarrow> memcheck" where
  "debug_leave M f cpu s =
     (if f_Debug f
      then emit [LeaveLine (f_SymbolName f) (m_GetPC M cpu) (m_GetReturnValue M cpu)] s
      else s)"

definition debug_enter ::
  "'cpu Machine \<Rightarrow> ambient \<Rightarrow> Function \<Rightarrow> Addr32 \<Rightarrow> 'cpu \<Rightarrow> memcheck \<Rightarrow> memcheck" where
  "debug_enter M am f returnAddress cpu s =
     (if f_Debug f
      then emit [EnterLine (f_SymbolName f) (m_GetPC M cpu) returnAddress
             (map (\<lambda>i. m_GetArgumentN M cpu (am_word am) (of_nat i))
                [1..<Suc (unat (f_NumberOfArguments f))])] s
      else s)"

text \<open>The branch of \<^verbatim>\<open>DoAddress\<close> for an address a call returns to.\<close>

definition leave_function ::
  "'cpu Machine \<Rightarrow> Addr32 \<Rightarrow> AddressOfInterest \<Rightarrow> 'cpu \<Rightarrow> memcheck \<Rightarrow> memcheck" where
  "leave_function M pc aoi cpu s =
     (let f = fi_Functions s ! aoi_Function aoi;
          s2 = set_Active (aoi_Function aoi) False (Leave (f_Class f) (debug_leave M f cpu s));
          n = aoi_RefCnt aoi - 1 in
      if n = 0 then s2\<lparr>fi_AddressOfInterestMap := (fi_AddressOfInterestMap s2)(pc := None)\<rparr>
      else s2\<lparr>fi_AddressOfInterestMap :=
                (fi_AddressOfInterestMap s2)(pc \<mapsto> aoi\<lparr>aoi_RefCnt := n\<rparr>)\<rparr>)"

text \<open>The branch for the entry of an intercepted function.\<close>

definition enter_function ::
  "'cpu Machine \<Rightarrow> ambient \<Rightarrow> AddressOfInterest \<Rightarrow> 'cpu \<Rightarrow> memcheck \<Rightarrow> int \<times> memcheck" where
  "enter_function M am aoi cpu s =
     (let returnAddress = m_GetReturnAddress M cpu (am_word am);
          f = fi_Functions s ! aoi_Function aoi;
          s2 = Enter M am (f_Class f) cpu (debug_enter M am f returnAddress cpu s);
          ret = (if f_Active (fi_Functions s2 ! aoi_Function aoi) then 1 else 0);
          s3 = set_Active (aoi_Function aoi) True s2 in
      (ret, s3\<lparr>fi_AddressOfInterestMap :=
         (fi_AddressOfInterestMap s3)(returnAddress \<mapsto>
            (case fi_AddressOfInterestMap s3 returnAddress of
               Some p \<Rightarrow> p\<lparr>aoi_RefCnt := aoi_RefCnt p + 1\<rparr>
             | None \<Rightarrow> AddressOfInterest_NewReturnAddress returnAddress (aoi_Function aoi)))\<rparr>))"

definition FunctionInterceptor_DoAddress ::
  "'cpu Machine \<Rightarrow> ambient \<Rightarrow> Addr32 \<Rightarrow> 'cpu \<Rightarrow> memcheck \<Rightarrow> int \<times> memcheck" where
  "FunctionInterceptor_DoAddress M am pc cpu s =
     (case fi_AddressOfInterestMap s pc of
        None \<Rightarrow> (0, s)
      | Some aoi \<Rightarrow>
          if aoi_Type aoi = RETURNADDRESS then (0, leave_function M pc aoi cpu s)
          else enter_function M am aoi cpu s)"

section \<open>\<^verbatim>\<open>MemCheckLinuxKernel.cpp\<close>: dispatch and initialisation\<close>

definition DoAddress :: "'cpu Machine \<Rightarrow> ambient \<Rightarrow> 'cpu \<Rightarrow> memcheck \<Rightarrow> int \<times> memcheck" where
  "DoAddress M am cpu s =
     (let pc = m_GetPC M cpu in
      if 0xc0000000 \<le> pc then FunctionInterceptor_DoAddress M am pc cpu s else (0, s))"

text \<open>
  \<^verbatim>\<open>new\<close> of a \<^verbatim>\<open>LinuxKernelFunction\<close>: the constructor looks its address up; a name
  that is not in the table leaves the field as the allocator returned it.
\<close>

definition new_Function ::
  "(string \<Rightarrow> Addr32) \<Rightarrow> function_class \<Rightarrow> string \<Rightarrow> u32 \<Rightarrow> bool \<Rightarrow> memcheck \<Rightarrow> memcheck" where
  "new_Function junk c name n dbg s =
     s\<lparr>fi_Functions := fi_Functions s @
         [\<lparr>f_Class = c, f_Address = snd (Lookup_name (mc_SymbolTable s) name (junk name)),
           f_SymbolName = name, f_Active = False, f_NumberOfArguments = n, f_Debug = dbg\<rparr>]\<rparr>"

definition register_new ::
  "(string \<Rightarrow> Addr32) \<Rightarrow> function_class \<times> string \<times> u32 \<Rightarrow> memcheck \<Rightarrow> memcheck" where
  "register_new junk d s =
     (case d of (c, name, n) \<Rightarrow>
        NewFunction (length (fi_Functions s)) (new_Function junk c name n False s))"

definition allocator_hooks :: "(function_class \<times> string \<times> u32) list" where
  "allocator_hooks =
     [(MemCheck_Alloc, ''MemCheck_Alloc'', 2), (MemCheck_Free, ''MemCheck_Free'', 1),
      (MemCheck_FreeSize, ''MemCheck_FreeSize'', 2),
      (MemCheck_FreeAnySize, ''MemCheck_FreeAnySize'', 2)]"

definition heap_functions :: "(function_class \<times> string \<times> u32) list" where
  "heap_functions = map (\<lambda>name. (LinuxKernelHeapFunction, name, 0))
     [''__free_slab'', ''__alloc_bootmem_core'', ''free_bootmem_core'', ''init_bootmem_core'',
      ''reserve_bootmem'', ''free_init_pages'', ''__kmalloc'', ''mykfree'', ''mykmem_cache_free'',
      ''my__kmalloc_track_caller'', ''__alloc_pages'', ''mykmem_cache_alloc'', ''free_bootmem'']"

definition new_hooks :: "(string \<Rightarrow> Addr32) \<Rightarrow> memcheck \<Rightarrow> memcheck" where
  "new_hooks junk s = fold (\<lambda>(c, name, n). new_Function junk c name n False) allocator_hooks s"

definition Init ::
  "(nat \<Rightarrow> locals) \<Rightarrow> (string \<Rightarrow> Addr32) \<Rightarrow> string option \<Rightarrow> memcheck \<Rightarrow> load_error + memcheck" where
  "Init ljunk junk file s =
     (case Load ljunk file (mc_SymbolTable s) of
        Inl e \<Rightarrow> Inl e
      | Inr st \<Rightarrow>
          let n = length (fi_Functions s);
              s1 = new_hooks junk (s\<lparr>mc_SymbolTable := st\<rparr>);
              s2 = fold NewFunction [n, n + 1, n + 2, n + 3] s1;
              s3 = s2\<lparr>mc_MemoryAccessStop := 0xdfff0000,
                      mc_MemoryAccessStart :=
                        snd (Lookup_name st ''__bss_stop'' (mc_MemoryAccessStart s2))\<rparr>;
              s4 = fold (register_new junk) heap_functions (MemoryAccessEnable s3) in
          Inr (s4\<lparr>mc_Initialized := True\<rparr>))"

section \<open>\<^verbatim>\<open>MemCheckLinuxKernelQEMU.cpp\<close>\<close>

definition MemoryAccess_b :: "'cpu Machine \<Rightarrow> ambient \<Rightarrow> 'cpu \<Rightarrow> Addr32 \<Rightarrow> memcheck \<Rightarrow> memcheck" where
  "MemoryAccess_b M am cpu address s = MemoryAccess M am cpu address 1 s"

definition MemoryAccess_w :: "'cpu Machine \<Rightarrow> ambient \<Rightarrow> 'cpu \<Rightarrow> Addr32 \<Rightarrow> memcheck \<Rightarrow> memcheck" where
  "MemoryAccess_w M am cpu address s = MemoryAccess M am cpu address 2 s"

definition MemoryAccess_l :: "'cpu Machine \<Rightarrow> ambient \<Rightarrow> 'cpu \<Rightarrow> Addr32 \<Rightarrow> memcheck \<Rightarrow> memcheck" where
  "MemoryAccess_l M am cpu address s = MemoryAccess M am cpu address 4 s"

definition MemoryAccess_q :: "'cpu Machine \<Rightarrow> ambient \<Rightarrow> 'cpu \<Rightarrow> Addr32 \<Rightarrow> memcheck \<Rightarrow> memcheck" where
  "MemoryAccess_q M am cpu address s = MemoryAccess M am cpu address 8 s"

definition QEMU_DoAddress :: "'cpu Machine \<Rightarrow> ambient \<Rightarrow> 'cpu \<Rightarrow> memcheck \<Rightarrow> memcheck" where
  "QEMU_DoAddress M am cpu s = snd (DoAddress M am cpu s)"

definition QEMU_Init ::
  "(nat \<Rightarrow> locals) \<Rightarrow> (string \<Rightarrow> Addr32) \<Rightarrow> string option \<Rightarrow> load_error + memcheck" where
  "QEMU_Init ljunk junk file = Init ljunk junk file initial_memcheck"

end
