(* ===== verification/CallNesting.thy ===== *)
theory CallNesting
  imports MemCheckProps
begin

text \<open>
  Nested calls of heap functions as the interceptor sees them: a call is a visit of the
  function's entry, the calls it makes, and a visit of its return address. For properly
  nested calls the interceptor restores its table and the checking switch; a tail call, which
  visits one return address for two entries, does not.
\<close>

section \<open>Call trees\<close>

datatype 'cpu call = Call 'cpu "'cpu call list" 'cpu

primrec run_call :: "'cpu Machine \<Rightarrow> ambient \<Rightarrow> 'cpu call \<Rightarrow> memcheck \<Rightarrow> memcheck" where
  "run_call M am (Call c1 cs c2) s =
     QEMU_DoAddress M am c2 (fold id (map (run_call M am) cs) (QEMU_DoAddress M am c1 s))"

text \<open>
  \<open>H\<close> are the entries of heap functions, \<open>K\<close> all intercepted entries: a call enters a heap
  function and returns to kernel code that is not such an entry.
\<close>

primrec call_ok ::
  "'cpu Machine \<Rightarrow> ambient \<Rightarrow> Addr32 set \<Rightarrow> Addr32 set \<Rightarrow> 'cpu call \<Rightarrow> bool" where
  "call_ok M am H K (Call c1 cs c2) =
     (m_GetPC M c1 \<in> H \<and> 0xc0000000 \<le> m_GetPC M c1 \<and>
      m_GetPC M c2 = m_GetReturnAddress M c1 (am_word am) \<and>
      m_GetPC M c2 \<notin> K \<and> 0xc0000000 \<le> m_GetPC M c2 \<and>
      list_all id (map (call_ok M am H K) cs))"

fun call_within :: "nat \<Rightarrow> 'cpu call \<Rightarrow> bool" where
  "call_within 0 t = False"
| "call_within (Suc d) (Call c1 cs c2) = (\<forall>c\<in>set cs. call_within d c)"

section \<open>The invariant of the table\<close>

definition heap_class :: "memcheck \<Rightarrow> AddressOfInterest \<Rightarrow> bool" where
  "heap_class s aoi \<longleftrightarrow> map f_Class (fi_Functions s) ! aoi_Function aoi = LinuxKernelHeapFunction \<and>
     aoi_Function aoi < length (fi_Functions s)"

definition entry_ok :: "Addr32 set \<Rightarrow> nat \<Rightarrow> memcheck \<Rightarrow> Addr32 \<Rightarrow> AddressOfInterest \<Rightarrow> bool" where
  "entry_ok K d s a aoi \<longleftrightarrow>
     (aoi_Type aoi = FUNCTION \<longrightarrow> a \<in> K) \<and>
     (aoi_Type aoi = RETURNADDRESS \<longrightarrow>
        heap_class s aoi \<and> aoi_RefCnt aoi \<noteq> 0 \<and> unat (aoi_RefCnt aoi) + d < 2 ^ 32)"

definition table_ok :: "Addr32 set \<Rightarrow> Addr32 set \<Rightarrow> nat \<Rightarrow> memcheck \<Rightarrow> bool" where
  "table_ok H K d s \<longleftrightarrow>
     switch_inv s \<and> nesting s + d < 2 ^ 32 \<and>
     (\<forall>a\<in>H. \<exists>aoi. fi_AddressOfInterestMap s a = Some aoi \<and> aoi_Type aoi = FUNCTION \<and>
        heap_class s aoi) \<and>
     (\<forall>a aoi. fi_AddressOfInterestMap s a = Some aoi \<longrightarrow> entry_ok K d s a aoi)"

text \<open>What a completed call leaves unchanged.\<close>

definition same :: "memcheck \<Rightarrow> memcheck \<Rightarrow> bool" where
  "same s t \<longleftrightarrow>
     fi_AddressOfInterestMap t = fi_AddressOfInterestMap s \<and> nesting t = nesting s \<and>
     (switch_inv s \<longrightarrow> switch_inv t) \<and>
     map f_Class (fi_Functions t) = map f_Class (fi_Functions s) \<and>
     mc_ShadowMemory t = mc_ShadowMemory s"

lemma same_refl [simp]: "same s s"
  by (simp add: same_def)

lemma same_trans: "same s t \<Longrightarrow> same t u \<Longrightarrow> same s u"
  by (simp add: same_def)

lemma same_heap_class: "same s t \<Longrightarrow> heap_class t aoi = heap_class s aoi"
  unfolding same_def heap_class_def by (metis length_map)

lemma table_ok_same:
  assumes "table_ok H K d s" and sm: "same s t"
  shows "table_ok H K d t"
proof -
  have "fi_AddressOfInterestMap t = fi_AddressOfInterestMap s" "nesting t = nesting s"
    "switch_inv s \<Longrightarrow> switch_inv t"
    using sm by (simp_all add: same_def)
  with assms(1) show ?thesis by (simp add: table_ok_def entry_ok_def same_heap_class [OF sm])
qed

section \<open>One call\<close>

lemma set_Active_fields [simp]:
  "fi_AddressOfInterestMap (set_Active f b s) = fi_AddressOfInterestMap s"
  "mc_MemoryAccessDepth (set_Active f b s) = mc_MemoryAccessDepth s"
  "mc_MemoryAccessDisable (set_Active f b s) = mc_MemoryAccessDisable s"
  "mc_ShadowMemory (set_Active f b s) = mc_ShadowMemory s"
  "map f_Class (fi_Functions (set_Active f b s)) = map f_Class (fi_Functions s)"
  by (simp_all add: set_Active_def map_update)
    (metis list_update_id list_update_beyond linorder_not_less length_map nth_map)

lemma switch_fields [simp]:
  "fi_AddressOfInterestMap (MemoryAccessEnable s) = fi_AddressOfInterestMap s"
  "fi_AddressOfInterestMap (MemoryAccessDisable s) = fi_AddressOfInterestMap s"
  "fi_Functions (MemoryAccessEnable s) = fi_Functions s"
  "fi_Functions (MemoryAccessDisable s) = fi_Functions s"
  "mc_ShadowMemory (MemoryAccessEnable s) = mc_ShadowMemory s"
  "mc_ShadowMemory (MemoryAccessDisable s) = mc_ShadowMemory s"
  by (simp_all add: MemoryAccessEnable_def MemoryAccessDisable_def)

lemma nesting_cong:
  "mc_MemoryAccessDepth s = mc_MemoryAccessDepth t \<Longrightarrow>
   mc_MemoryAccessDisable s = mc_MemoryAccessDisable t \<Longrightarrow>
   nesting s = nesting t \<and> switch_inv s = switch_inv t"
  by (simp add: nesting_def switch_inv_def)

lemma enter_heap:
  assumes "heap_class s aoi" "switch_inv s" "nesting s < 2 ^ 32"
    and "r = m_GetReturnAddress M cpu (am_word am)"
    and "t = snd (enter_function M am aoi cpu s)"
  shows "fi_AddressOfInterestMap t = (fi_AddressOfInterestMap s)(r \<mapsto>
           (case fi_AddressOfInterestMap s r of
              Some p \<Rightarrow> p\<lparr>aoi_RefCnt := aoi_RefCnt p + 1\<rparr>
            | None \<Rightarrow> AddressOfInterest_NewReturnAddress r (aoi_Function aoi)))"
    and "nesting t = Suc (nesting s)" "switch_inv t"
    and "map f_Class (fi_Functions t) = map f_Class (fi_Functions s)"
    and "mc_ShadowMemory t = mc_ShadowMemory s"
proof -
  have c: "f_Class (fi_Functions s ! aoi_Function aoi) = LinuxKernelHeapFunction"
    using assms(1) by (auto simp: heap_class_def)
  define s0 where "s0 = debug_enter M am (fi_Functions s ! aoi_Function aoi) r cpu s"
  obtain os where s0: "s0 = emit os s" 
    using debug_emits(1) [of M am "fi_Functions s ! aoi_Function aoi" r cpu s] s0_def by blast
  have t: "t = (let s3 = set_Active (aoi_Function aoi) True (MemoryAccessDisable s0) in
      s3\<lparr>fi_AddressOfInterestMap := (fi_AddressOfInterestMap s3)(r \<mapsto>
         (case fi_AddressOfInterestMap s3 r of
            Some p \<Rightarrow> p\<lparr>aoi_RefCnt := aoi_RefCnt p + 1\<rparr>
          | None \<Rightarrow> AddressOfInterest_NewReturnAddress r (aoi_Function aoi)))\<rparr>)"
    by (simp only: assms(4,5) enter_function_def Let_def Enter_def c s0_def snd_conv
        function_class.case)
  have n: "nesting s0 = nesting s" "switch_inv s0 = switch_inv s"
    by (simp_all add: s0 nesting_def switch_inv_def)
  have "nesting t = nesting (MemoryAccessDisable s0)" "switch_inv t = switch_inv (MemoryAccessDisable s0)"
    using nesting_cong [of t "MemoryAccessDisable s0"] by (simp_all add: t Let_def)
  then show "nesting t = Suc (nesting s)" "switch_inv t"
    using assms(2,3) n by (simp_all add: nesting_Disable switch_inv_Disable)
  show "map f_Class (fi_Functions t) = map f_Class (fi_Functions s)"
    "mc_ShadowMemory t = mc_ShadowMemory s"
    "fi_AddressOfInterestMap t = (fi_AddressOfInterestMap s)(r \<mapsto>
           (case fi_AddressOfInterestMap s r of
              Some p \<Rightarrow> p\<lparr>aoi_RefCnt := aoi_RefCnt p + 1\<rparr>
            | None \<Rightarrow> AddressOfInterest_NewReturnAddress r (aoi_Function aoi)))"
    by (simp_all add: t Let_def s0)
qed

lemma leave_heap:
  assumes "heap_class s aoi" "switch_inv s" and t: "t = leave_function M pc aoi cpu s"
  shows "fi_AddressOfInterestMap t = (fi_AddressOfInterestMap s)(pc :=
           (if aoi_RefCnt aoi - 1 = 0 then None
            else Some (aoi\<lparr>aoi_RefCnt := aoi_RefCnt aoi - 1\<rparr>)))"
    and "nesting t = nesting s - 1" "switch_inv t"
    and "map f_Class (fi_Functions t) = map f_Class (fi_Functions s)"
    and "mc_ShadowMemory t = mc_ShadowMemory s"
proof -
  have c: "f_Class (fi_Functions s ! aoi_Function aoi) = LinuxKernelHeapFunction"
    using assms(1) by (auto simp: heap_class_def)
  define s0 where "s0 = debug_leave M (fi_Functions s ! aoi_Function aoi) cpu s"
  obtain os where s0: "s0 = emit os s" 
    using debug_emits(2) [of M "fi_Functions s ! aoi_Function aoi" cpu s] s0_def by blast
  have t': "t = (let s2 = set_Active (aoi_Function aoi) False (MemoryAccessEnable s0) in
      if aoi_RefCnt aoi - 1 = 0
      then s2\<lparr>fi_AddressOfInterestMap := (fi_AddressOfInterestMap s2)(pc := None)\<rparr>
      else s2\<lparr>fi_AddressOfInterestMap :=
        (fi_AddressOfInterestMap s2)(pc \<mapsto> aoi\<lparr>aoi_RefCnt := aoi_RefCnt aoi - 1\<rparr>)\<rparr>)"
    by (simp only: t leave_function_def Let_def Leave_def c s0_def function_class.case)
  have n: "nesting s0 = nesting s" "switch_inv s0 = switch_inv s"
    by (simp_all add: s0 nesting_def switch_inv_def)
  have "nesting t = nesting (MemoryAccessEnable s0)" "switch_inv t = switch_inv (MemoryAccessEnable s0)"
    using nesting_cong [of t "MemoryAccessEnable s0"] by (simp_all add: t' Let_def)
  then show "nesting t = nesting s - 1" "switch_inv t"
    using assms(2) n by (simp_all add: nesting_Enable switch_inv_Enable)
  show "map f_Class (fi_Functions t) = map f_Class (fi_Functions s)"
    "mc_ShadowMemory t = mc_ShadowMemory s"
    "fi_AddressOfInterestMap t = (fi_AddressOfInterestMap s)(pc :=
           (if aoi_RefCnt aoi - 1 = 0 then None
            else Some (aoi\<lparr>aoi_RefCnt := aoi_RefCnt aoi - 1\<rparr>)))"
    by (simp_all add: t' Let_def s0)
qed

text \<open>The table between the entry and the return of a call.\<close>

definition entered :: "memcheck \<Rightarrow> Addr32 \<Rightarrow> nat \<Rightarrow> AddressOfInterest" where
  "entered s r f =
     (case fi_AddressOfInterestMap s r of
        Some p \<Rightarrow> p\<lparr>aoi_RefCnt := aoi_RefCnt p + 1\<rparr>
      | None \<Rightarrow> AddressOfInterest_NewReturnAddress r f)"

lemma entered_ok:
  assumes ok: "table_ok H K (Suc d) s" and r: "r \<notin> K" and h: "heap_class s aoi"
  shows "aoi_Type (entered s r (aoi_Function aoi)) = RETURNADDRESS"
    and "entry_ok K d s r (entered s r (aoi_Function aoi))"
proof -
  let ?e = "entered s r (aoi_Function aoi)"
  have "aoi_Type ?e = RETURNADDRESS \<and> entry_ok K d s r ?e"
  proof (cases "fi_AddressOfInterestMap s r")
    case None
    have "nesting s + Suc d < 2 ^ 32" using ok by (simp add: table_ok_def)
    with None h show ?thesis
      by (simp add: entered_def AddressOfInterest_NewReturnAddress_def entry_ok_def heap_class_def)
  next
    case (Some p)
    with ok have "entry_ok K (Suc d) s r p" by (simp add: table_ok_def)
    with r have p: "aoi_Type p = RETURNADDRESS" "heap_class s p"
      "unat (aoi_RefCnt p) + Suc d < 2 ^ 32"
      by (cases "aoi_Type p"; simp add: entry_ok_def)+
    then have "unat (aoi_RefCnt p + 1) = unat (aoi_RefCnt p) + 1"
      by (simp add: unat_add_no_wrap32)
    moreover from this have "aoi_RefCnt p + 1 \<noteq> 0" by (metis add_is_0 unat_0 zero_neq_one)
    ultimately show ?thesis
      using Some p by (simp add: entered_def heap_class_def entry_ok_def)
  qed
  then show "aoi_Type ?e = RETURNADDRESS" "entry_ok K d s r ?e" by auto
qed

lemma entry_ok_mono: "entry_ok K (Suc d) s a aoi \<Longrightarrow> entry_ok K d s a aoi"
  by (auto simp: entry_ok_def)

lemma run_calls_same:
  assumes "\<And>c u. c \<in> set cs \<Longrightarrow> table_ok H K d u \<Longrightarrow> same u (run_call M am c u)"
    and "table_ok H K d s"
  shows "same s (fold id (map (run_call M am) cs) s)"
  using assms
proof (induction cs arbitrary: s)
  case Nil
  then show ?case by simp
next
  case (Cons c cs)
  have "same s (run_call M am c s)" using Cons.prems by simp
  moreover from this have "table_ok H K d (run_call M am c s)"
    using Cons.prems(2) table_ok_same by blast
  then have "same (run_call M am c s) (fold id (map (run_call M am) cs) (run_call M am c s))"
    using Cons.IH Cons.prems(1) by (simp add: id_def)
  ultimately have "same s (fold id (map (run_call M am) cs) (run_call M am c s))"
    by (rule same_trans)
  then show ?case by (simp add: id_def)
qed

lemma enter_visit:
  assumes ok: "table_ok H K (Suc d) s"
    and c1: "m_GetPC M c1 \<in> H" "0xc0000000 \<le> m_GetPC M c1"
    and r: "r = m_GetReturnAddress M c1 (am_word am)" "r \<notin> K"
  shows "\<exists>f. table_ok H K d (QEMU_DoAddress M am c1 s) \<and>
    fi_AddressOfInterestMap (QEMU_DoAddress M am c1 s) =
      (fi_AddressOfInterestMap s)(r \<mapsto> entered s r f) \<and>
    aoi_Type (entered s r f) = RETURNADDRESS \<and> aoi_RefCnt (entered s r f) \<noteq> 0 \<and>
    nesting (QEMU_DoAddress M am c1 s) = Suc (nesting s) \<and>
    map f_Class (fi_Functions (QEMU_DoAddress M am c1 s)) = map f_Class (fi_Functions s) \<and>
    mc_ShadowMemory (QEMU_DoAddress M am c1 s) = mc_ShadowMemory s"
proof -
  obtain aoi where aoi: "fi_AddressOfInterestMap s (m_GetPC M c1) = Some aoi"
    "aoi_Type aoi = FUNCTION" "heap_class s aoi"
    using ok c1(1) unfolding table_ok_def by blast
  let ?t = "QEMU_DoAddress M am c1 s" and ?f = "aoi_Function aoi"
  have t: "?t = snd (enter_function M am aoi c1 s)"
    using aoi c1(2) by (simp add: QEMU_DoAddress_def DoAddress_def FunctionInterceptor_DoAddress_def)
  have inv: "switch_inv s" "nesting s < 2 ^ 32" using ok by (auto simp: table_ok_def)
  note e = enter_heap [OF aoi(3) inv r(1) t, folded entered_def]
  note o = entered_ok [OF ok r(2) aoi(3)]
  have hc: "heap_class ?t x = heap_class s x" for x
    unfolding heap_class_def using e(4) by (metis length_map)
  have rH: "r \<notin> H"
  proof
    assume "r \<in> H"
    then obtain x where "fi_AddressOfInterestMap s r = Some x" "aoi_Type x = FUNCTION"
      using ok unfolding table_ok_def by blast
    with ok r(2) show False by (simp add: table_ok_def entry_ok_def)
  qed
  have "table_ok H K d ?t"
    unfolding table_ok_def entry_ok_def e(1) hc
    unfolding entry_ok_def [symmetric]
  proof (intro conjI ballI allI impI)
    show "switch_inv ?t" by (rule e(3))
    show "nesting ?t + d < 2 ^ 32" using ok e(2) by (simp add: table_ok_def)
  next
    fix a assume "a \<in> H"
    then show "\<exists>x. ((fi_AddressOfInterestMap s)(r \<mapsto> entered s r ?f)) a = Some x \<and>
        aoi_Type x = FUNCTION \<and> heap_class s x"
      using ok rH unfolding table_ok_def by auto
  next
    fix a x assume "((fi_AddressOfInterestMap s)(r \<mapsto> entered s r ?f)) a = Some x"
    then show "entry_ok K d s a x"
      using ok o(2) by (cases "a = r") (auto simp: table_ok_def intro: entry_ok_mono)
  qed
  with e o show ?thesis unfolding entry_ok_def by blast
qed

text \<open>The return visit takes the entry back to what it was before the call.\<close>

lemma entered_restore:
  assumes "table_ok H K d s" "r \<notin> K" "e = entered s r f"
  shows "(if aoi_RefCnt e - 1 = 0 then None else Some (e\<lparr>aoi_RefCnt := aoi_RefCnt e - 1\<rparr>)) =
     fi_AddressOfInterestMap s r"
proof (cases "fi_AddressOfInterestMap s r")
  case None
  then show ?thesis
    by (simp add: assms(3) entered_def AddressOfInterest_NewReturnAddress_def)
next
  case (Some p)
  with assms(1) have "entry_ok K d s r p" by (simp add: table_ok_def)
  with assms(2) have "aoi_RefCnt p \<noteq> 0" by (cases "aoi_Type p"; simp add: entry_ok_def)
  then show ?thesis by (simp add: assms(3) entered_def Some)
qed

lemma leave_visit:
  assumes "table_ok H K d u" "fi_AddressOfInterestMap u (m_GetPC M c2) = Some e"
    "aoi_Type e = RETURNADDRESS" "0xc0000000 \<le> m_GetPC M c2"
  shows "fi_AddressOfInterestMap (QEMU_DoAddress M am c2 u) =
      (fi_AddressOfInterestMap u)(m_GetPC M c2 :=
        (if aoi_RefCnt e - 1 = 0 then None else Some (e\<lparr>aoi_RefCnt := aoi_RefCnt e - 1\<rparr>)))"
    and "nesting (QEMU_DoAddress M am c2 u) = nesting u - 1"
    and "switch_inv (QEMU_DoAddress M am c2 u)"
    and "map f_Class (fi_Functions (QEMU_DoAddress M am c2 u)) = map f_Class (fi_Functions u)"
    and "mc_ShadowMemory (QEMU_DoAddress M am c2 u) = mc_ShadowMemory u"
proof -
  have t: "QEMU_DoAddress M am c2 u = leave_function M (m_GetPC M c2) e c2 u"
    using assms(2-4)
    by (simp add: QEMU_DoAddress_def DoAddress_def FunctionInterceptor_DoAddress_def)
  have "entry_ok K d u (m_GetPC M c2) e" "switch_inv u"
    using assms(1,2) by (simp_all add: table_ok_def)
  then have "heap_class u e" "switch_inv u" using assms(3) by (simp_all add: entry_ok_def)
  note l = leave_heap [OF this t]
  show "fi_AddressOfInterestMap (QEMU_DoAddress M am c2 u) =
      (fi_AddressOfInterestMap u)(m_GetPC M c2 :=
        (if aoi_RefCnt e - 1 = 0 then None else Some (e\<lparr>aoi_RefCnt := aoi_RefCnt e - 1\<rparr>)))"
    by (rule l(1))
  show "nesting (QEMU_DoAddress M am c2 u) = nesting u - 1" by (rule l(2))
  show "switch_inv (QEMU_DoAddress M am c2 u)" by (rule l(3))
  show "map f_Class (fi_Functions (QEMU_DoAddress M am c2 u)) = map f_Class (fi_Functions u)"
    by (rule l(4))
  show "mc_ShadowMemory (QEMU_DoAddress M am c2 u) = mc_ShadowMemory u" by (rule l(5))
qed

lemma run_call_same:
  "call_within d t \<Longrightarrow> call_ok M am H K t \<Longrightarrow> table_ok H K d s \<Longrightarrow> same s (run_call M am t s)"
proof (induction d arbitrary: t s)
  case 0
  then show ?case by simp
next
  case (Suc d)
  obtain c1 cs c2 where t: "t = Call c1 cs c2" by (cases t)
  define r where "r = m_GetPC M c2"
  define s1 where "s1 = QEMU_DoAddress M am c1 s"
  define s2 where "s2 = fold id (map (run_call M am) cs) s1"
  have c: "m_GetPC M c1 \<in> H" "0xc0000000 \<le> m_GetPC M c1"
      "r = m_GetReturnAddress M c1 (am_word am)" "r \<notin> K" "0xc0000000 \<le> r"
    using Suc.prems(2) by (auto simp: t r_def)
  obtain f where e: "table_ok H K d s1"
      "fi_AddressOfInterestMap s1 = (fi_AddressOfInterestMap s)(r \<mapsto> entered s r f)"
      "aoi_Type (entered s r f) = RETURNADDRESS" "nesting s1 = Suc (nesting s)"
      "map f_Class (fi_Functions s1) = map f_Class (fi_Functions s)"
      "mc_ShadowMemory s1 = mc_ShadowMemory s"
    using enter_visit [OF Suc.prems(3) c(1-4)] unfolding s1_def by blast
  have "call_within d x" "call_ok M am H K x" if "x \<in> set cs" for x
    using Suc.prems(1,2) that by (simp_all add: t list_all_iff)
  then have s12: "same s1 s2"
    unfolding s2_def using Suc.IH by (intro run_calls_same [OF _ e(1)]) blast
  then have m2: "fi_AddressOfInterestMap s2 (m_GetPC M c2) = Some (entered s r f)"
    by (simp add: same_def e(2) r_def)
  note l = leave_visit [OF table_ok_same [OF e(1) s12] m2 e(3) c(5) [unfolded r_def], of am]
  have "fi_AddressOfInterestMap (QEMU_DoAddress M am c2 s2) = fi_AddressOfInterestMap s"
    unfolding l(1) using s12 entered_restore [OF Suc.prems(3) c(4) refl, of f]
    by (simp add: same_def e(2) r_def [symmetric])
  then have "same s (QEMU_DoAddress M am c2 s2)"
    using l s12 e(4-6) by (simp add: same_def)
  then show ?case by (simp only: t run_call.simps s1_def s2_def)
qed

section \<open>Completed calls and tail calls\<close>

lemma same_switch:
  assumes "switch_inv s" "same s t"
  shows "mc_MemoryAccessDisable t = mc_MemoryAccessDisable s"
    and "mc_MemoryAccessDepth t = mc_MemoryAccessDepth s"
proof -
  have i: "nesting t = nesting s" "switch_inv t" using assms by (simp_all add: same_def)
  then show d: "mc_MemoryAccessDisable t = mc_MemoryAccessDisable s"
    by (simp add: nesting_def split: if_splits)
  show "mc_MemoryAccessDepth t = mc_MemoryAccessDepth s"
    using i assms(1) d by (cases "mc_MemoryAccessDisable s") (simp_all add: nesting_def switch_inv_def)
qed

text \<open>
  \<^bold>\<open>C5\<close> A call of a heap function that returns, with all the heap functions it called in
  between, leaves the interceptor's table, the checking switch, its depth and the record of
  live blocks as it found them, whatever was active before: recursion and shared return
  addresses included.
\<close>

theorem nested_calls_restore:
  assumes "call_within d t" "call_ok M am H K t" "table_ok H K d s"
  shows "fi_AddressOfInterestMap (run_call M am t s) = fi_AddressOfInterestMap s \<and>
    mc_MemoryAccessDisable (run_call M am t s) = mc_MemoryAccessDisable s \<and>
    mc_MemoryAccessDepth (run_call M am t s) = mc_MemoryAccessDepth s \<and>
    mc_ShadowMemory (run_call M am t s) = mc_ShadowMemory s"
proof -
  have s: "same s (run_call M am t s)" by (rule run_call_same [OF assms])
  have "switch_inv s" using assms(3) by (simp add: table_ok_def)
  then show ?thesis using same_switch [OF _ s] s by (simp add: same_def)
qed

definition two_heap_functions :: memcheck where
  "two_heap_functions =
     fold NewFunction [0, 1] (initial_memcheck\<lparr>fi_Functions :=
       [\<lparr>f_Class = LinuxKernelHeapFunction, f_Address = 0xc0001000, f_SymbolName = ''__kmalloc'',
         f_Active = False, f_NumberOfArguments = 0, f_Debug = False\<rparr>,
        \<lparr>f_Class = LinuxKernelHeapFunction, f_Address = 0xc0002000, f_SymbolName = ''mykfree'',
         f_Active = False, f_NumberOfArguments = 0, f_Debug = False\<rparr>]\<rparr>)"

abbreviation two_entries :: "Addr32 set" where
  "two_entries \<equiv> {0xc0001000, 0xc0002000}"

lemma two_heap_functions_ok: "table_ok two_entries two_entries 2 two_heap_functions"
  by (auto simp: table_ok_def two_heap_functions_def switch_inv_def nesting_def NewFunction_def
      initial_memcheck_def AddressOfInterest_NewFunction_def heap_class_def entry_ok_def
      split: if_splits)

definition sample_call :: "(Addr32 \<times> Addr32 \<times> u32 \<times> u32) call" where
  "sample_call =
     Call (0xc0001000, 0xc0100004, 0, 0)
       [Call (0xc0002000, 0xc0001010, 0, 0) [] (0xc0001010, 0, 0, 0),
        Call (0xc0001000, 0xc0001010, 0, 0) [] (0xc0001010, 0, 0, 0)]
       (0xc0100004, 0, 0, 0)"

theorem nested_calls_restore_witness:
  "fi_AddressOfInterestMap (run_call tuple_machine quiet sample_call two_heap_functions) =
     fi_AddressOfInterestMap two_heap_functions \<and>
   \<not> mc_MemoryAccessDisable (run_call tuple_machine quiet sample_call two_heap_functions)"
proof -
  have ok: "call_ok tuple_machine quiet two_entries two_entries sample_call"
    by (simp add: sample_call_def tuple_machine_def)
  have w: "call_within 2 sample_call"
    by (simp add: sample_call_def numeral_2_eq_2)
  have "\<not> mc_MemoryAccessDisable two_heap_functions"
    by (simp add: two_heap_functions_def NewFunction_def initial_memcheck_def)
  then show ?thesis using nested_calls_restore [OF w ok two_heap_functions_ok] by simp
qed

text \<open>
  \<^bold>\<open>C32\<close> When a heap function ends in a jump to another heap function, both entries have
  the same return address, which is visited once: the call chain is over, but one level of
  nesting remains and accesses stay unchecked.
\<close>

theorem tail_call_stays_disabled:
  assumes ok: "table_ok H K 2 s"
    and c1: "m_GetPC M c1 \<in> H" "0xc0000000 \<le> m_GetPC M c1"
    and c2: "m_GetPC M c2 \<in> H" "0xc0000000 \<le> m_GetPC M c2"
    and r: "r = m_GetReturnAddress M c1 (am_word am)" "r = m_GetReturnAddress M c2 (am_word am)"
      "r \<notin> K" "0xc0000000 \<le> r" "m_GetPC M c3 = r"
  shows "nesting (QEMU_DoAddress M am c3 (QEMU_DoAddress M am c2 (QEMU_DoAddress M am c1 s))) =
      Suc (nesting s) \<and>
    mc_MemoryAccessDisable
      (QEMU_DoAddress M am c3 (QEMU_DoAddress M am c2 (QEMU_DoAddress M am c1 s)))"
proof -
  define s1 where "s1 = QEMU_DoAddress M am c1 s"
  define s2 where "s2 = QEMU_DoAddress M am c2 s1"
  have "table_ok H K (Suc 1) s" using ok by (simp add: numeral_2_eq_2)
  then have s1: "table_ok H K (Suc 0) s1 \<and> nesting s1 = Suc (nesting s)"
    using enter_visit [OF _ c1 r(1,3), of 1] unfolding s1_def by auto
  then obtain f where s2: "table_ok H K 0 s2" "fi_AddressOfInterestMap s2 =
      (fi_AddressOfInterestMap s1)(r \<mapsto> entered s1 r f)" "aoi_Type (entered s1 r f) = RETURNADDRESS"
      "nesting s2 = Suc (Suc (nesting s))"
    using enter_visit [OF _ c2 r(2,3), of 0 s1] unfolding s2_def by auto
  have "nesting (QEMU_DoAddress M am c3 s2) = Suc (nesting s)"
    using leave_visit(2) [OF s2(1) _ s2(3), of M c3 am] s2(2,4) r(4,5) by simp
  then show ?thesis
    unfolding s1_def [symmetric] s2_def [symmetric] by (simp add: nesting_def split: if_splits)
qed

theorem tail_call_stays_disabled_witness:
  "mc_MemoryAccessDisable (QEMU_DoAddress tuple_machine quiet (0xc0100004, 0, 0, 0)
     (QEMU_DoAddress tuple_machine quiet (0xc0002000, 0xc0100004, 0, 0)
       (QEMU_DoAddress tuple_machine quiet (0xc0001000, 0xc0100004, 0, 0) two_heap_functions)))"
  using tail_call_stays_disabled [OF two_heap_functions_ok,
      of tuple_machine "(0xc0001000, 0xc0100004, 0, 0)" "(0xc0002000, 0xc0100004, 0, 0)"
        "0xc0100004" quiet "(0xc0100004, 0, 0, 0)"]
  by (simp add: tuple_machine_def)

end
