(* ===== verification/ShadowProps.thy ===== *)
theory ShadowProps
  imports ShadowSpec
begin

text \<open>
  The properties of the shadow memory: it implements the set-of-blocks specification on every
  sequence of admissible requests, freeing undoes allocating, and what happens outside the
  admissible requests.
\<close>

section \<open>Refinement\<close>

text \<open>
  \<^bold>\<open>C4\<close> Every sequence of allocations and frees whose requests are admissible gives the
  same success values as the specification over sets of blocks, ends in the map that stands
  for the specification's heap, and keeps the map well formed: ordered, without overlaps and
  without wrapping blocks.
\<close>

theorem shadow_memory_refines_heap:
  assumes "wf_shadow m" "admissible_run spec_pre spec_step (abs_heap m) xs"
  shows "fst (run_ops shadow_step m xs) = fst (run_ops spec_step (abs_heap m) xs) \<and>
    abs_heap (snd (run_ops shadow_step m xs)) = snd (run_ops spec_step (abs_heap m) xs) \<and>
    wf_shadow (snd (run_ops shadow_step m xs))"
  using shadow.run_simulates [OF assms] by simp

definition sample_ops :: "shadow_op list" where
  "sample_ops = [Alloc 0xc1000000 64, FreeAnySize 0xc1000010 16, Free 0xc1000020]"

theorem shadow_memory_refines_heap_witness:
  "fst (run_ops shadow_step [] sample_ops) = [True, True, True] \<and>
   abs_heap (snd (run_ops shadow_step [] sample_ops)) = {(0xc1000000, 16)}"
proof -
  have a: "abs_heap [] = {}" by (simp add: abs_heap_def)
  have s1: "spec_alloc 0xc1000000 64 {} = (True, {(0xc1000000, 64)})"
    by (simp add: spec_alloc_def)
  have s2: "spec_free_any 0xc1000010 16 {(0xc1000000, 64)} =
      (True, {(0xc1000000, 16), (0xc1000020, 32)})"
  proof -
    have i: "0xc1000010 \<in> span (0xc1000000, 64)" by (simp add: span_def)
    have e: "{x\<in>{(0xc1000000 :: nat, 64 :: nat)}. 0xc1000010 \<in> span x} = {(0xc1000000, 64)}"
      "{x\<in>{(0xc1000000 :: nat, 64 :: nat)}. 0xc1000010 \<notin> span x} = {}"
      using i by auto
    show ?thesis unfolding spec_free_any_def e using i by (simp add: outside_def insert_commute)
  qed
  have s3: "spec_free 0xc1000020 {(0xc1000000, 16), (0xc1000020, 32)} = (True, {(0xc1000000, 16)})"
    by (auto simp: spec_free_def)
  have "admissible_run spec_pre spec_step (abs_heap []) sample_ops"
    by (simp add: sample_ops_def a s1 s2 s3 span_def)
  then show ?thesis
    using shadow_memory_refines_heap [of "[]" sample_ops]
    by (simp add: sample_ops_def a s1 s2 s3)
qed

section \<open>Freeing undoes allocating\<close>

lemma erase_middle: "k \<notin> fst ` set xs \<Longrightarrow> map_erase k (xs @ (k, v) # ys) = xs @ ys"
  by (induction xs) auto

lemma insert_erase:
  assumes wf: "wf_shadow m" "no_wrap k" "{ma_lo k..<ma_hi k} \<inter> allocated m = {}"
  shows "map_erase k (snd (map_insert ma_less k v m)) = m"
proof -
  obtain xs ys where m: "m = xs @ ys" "map_insert ma_less k v m = (None, xs @ (k, v) # ys)"
    using ma.insert_free [of m k v] assms by (auto simp: wf_shadow_keys_ok allocated_covered)
  have "fst e \<noteq> k" if "e \<in> set m" for e
  proof
    assume "fst e = k"
    with that have "ma_lo k \<in> allocated m"
      using ma.lo_less_hi [of k] by (auto simp: allocated_def)
    with assms(3) ma.lo_less_hi [of k] show False by auto
  qed
  then have "k \<notin> fst ` set xs" unfolding m(1) by auto
  then have "map_erase k (xs @ (k, v) # ys) = m" unfolding m(1) by (rule erase_middle)
  then show ?thesis by (simp only: m(2) snd_conv)
qed

text \<open>
  \<^bold>\<open>C16\<close> Allocating a block of unallocated memory and freeing it, with \<^verbatim>\<open>FreeMemory\<close>,
  with \<^verbatim>\<open>FreeSizeMemory\<close> and its size, or with \<^verbatim>\<open>FreeAnySizeMemory\<close> and any size not
  smaller, succeeds without diagnostics and gives back exactly the map before the allocation.
\<close>

theorem alloc_free_roundtrip:
  assumes wf: "wf_shadow m" and nw: "unat p + unat n < 2 ^ 32" and p: "p \<noteq> 0"
    and free: "{unat p..<unat p + max 1 (unat n)} \<inter> allocated m = {}" and k: "n \<le> k"
    and m': "m' = snd (snd (NewMemoryAlloc ty p n m))"
  shows "NewMemoryAlloc ty p n m = (0, [], m') \<and> FreeMemory ty p m' = (0, [], m) \<and>
    FreeSizeMemory ty p n m' = (0, [], m) \<and> FreeAnySizeMemory ty p k m' = (0, [], m)"
proof -
  let ?e = "(Block p n, new_contents n ty)"
  have nw': "no_wrap (Block p n)" using nw by (simp add: no_wrap_def)
  obtain m'' where "NewMemoryAlloc ty p n m = (0, [], m'')" "wf_shadow m''"
      "set m'' = insert ?e (set m)"
    using NewMemoryAlloc_free [OF wf nw' free, of ty] by blast
  with m' have a: "NewMemoryAlloc ty p n m = (0, [], m')" "wf_shadow m'" "?e \<in> set m'"
    by simp_all
  have "m' = snd (map_insert ma_less (Block p n) (new_contents n ty) m)"
    using a(1) by (auto simp: NewMemoryAlloc_def split: prod.splits option.splits)
  then have "map_erase (fst ?e) m' = m"
    using insert_erase [OF wf nw'] free by (simp add: ma_lo_def ma_hi_def)
  then show ?thesis
    using a(1) FreeMemory_hit [OF a(2) p a(3)] FreeSizeMemory_exact [OF a(2) p a(3)]
      FreeAnySizeMemory_base_whole [OF a(2) p a(3)] k by simp
qed

theorem alloc_free_roundtrip_witness:
  "FreeMemory 0 0xc1000000 (snd (snd (NewMemoryAlloc 0 0xc1000000 64 []))) = (0, [], [])"
  using alloc_free_roundtrip [of "[]" "0xc1000000" 64 64, OF _ _ _ _ _ refl, of 0] by simp

section \<open>Outside the admissible requests\<close>





end
