(* ===== verification/Checker.thy ===== *)
theory Checker
  imports CallNesting ShadowProps
begin

text \<open>
  The checker as a whole: the emulator calls it before every translation block
  (\<^verbatim>\<open>DoAddress\<close>) and on every guest memory access (\<^verbatim>\<open>MemoryAccess_b/w/l/q\<close>). A run
  interleaves these calls in any order; the specification follows the heap the guest's
  allocator announces.
\<close>

section \<open>What a visit does to the record of live blocks\<close>

definition class_op :: "'cpu Machine \<Rightarrow> 'cpu \<Rightarrow> function_class \<Rightarrow> shadow_op option" where
  "class_op M cpu c =
     (case c of
        MemCheck_Alloc \<Rightarrow> Some (Alloc (m_GetArgument1 M cpu) (m_GetArgument2 M cpu))
      | MemCheck_Free \<Rightarrow> Some (Free (m_GetArgument1 M cpu))
      | MemCheck_FreeSize \<Rightarrow> Some (FreeSize (m_GetArgument1 M cpu) (m_GetArgument2 M cpu))
      | MemCheck_FreeAnySize \<Rightarrow> Some (FreeAnySize (m_GetArgument1 M cpu) (m_GetArgument2 M cpu))
      | _ \<Rightarrow> None)"

definition visit_op :: "'cpu Machine \<Rightarrow> 'cpu \<Rightarrow> memcheck \<Rightarrow> shadow_op option" where
  "visit_op M cpu s =
     (case fi_AddressOfInterestMap s (m_GetPC M cpu) of
        None \<Rightarrow> None
      | Some aoi \<Rightarrow>
          if 0xc0000000 \<le> m_GetPC M cpu \<and> aoi_Type aoi = FUNCTION
          then class_op M cpu (f_Class (fi_Functions s ! aoi_Function aoi)) else None)"

lemma shadow_call_fields [simp]:
  "mc_ShadowMemory (shadow_call M am cpu r s) = snd (snd r)"
  "mc_MemoryAccessDepth (shadow_call M am cpu r s) = mc_MemoryAccessDepth s"
  "mc_MemoryAccessDisable (shadow_call M am cpu r s) = mc_MemoryAccessDisable s"
  "fi_AddressOfInterestMap (shadow_call M am cpu r s) = fi_AddressOfInterestMap s"
  "fi_Functions (shadow_call M am cpu r s) = fi_Functions s"
  "mc_MemoryAccessStart (shadow_call M am cpu r s) = mc_MemoryAccessStart s"
  "mc_MemoryAccessStop (shadow_call M am cpu r s) = mc_MemoryAccessStop s"
  using shadow_call_emits [of M am cpu r s] by auto

lemma Enter_shadow:
  "mc_ShadowMemory (Enter M am c cpu s) =
     (case class_op M cpu c of
        None \<Rightarrow> mc_ShadowMemory s
      | Some x \<Rightarrow> snd (shadow_step (mc_ShadowMemory s) x))"
  by (cases c) (simp_all add: Enter_def class_op_def split_beta)

lemma Enter_fields [simp]:
  "fi_AddressOfInterestMap (Enter M am c cpu s) = fi_AddressOfInterestMap s"
  "fi_Functions (Enter M am c cpu s) = fi_Functions s"
  "switch_inv s \<Longrightarrow> switch_inv (Enter M am c cpu s)"
  by (cases c; simp add: Enter_def switch_inv_Disable; simp add: switch_inv_def)+

lemma Leave_fields [simp]:
  "fi_AddressOfInterestMap (Leave c s) = fi_AddressOfInterestMap s"
  "fi_Functions (Leave c s) = fi_Functions s"
  "mc_ShadowMemory (Leave c s) = mc_ShadowMemory s"
  "switch_inv s \<Longrightarrow> switch_inv (Leave c s)"
  by (cases c; simp add: Leave_def switch_inv_Enable)+

lemma debug_fields [simp]:
  "fi_AddressOfInterestMap (debug_enter M am f r cpu s) = fi_AddressOfInterestMap s"
  "fi_Functions (debug_enter M am f r cpu s) = fi_Functions s"
  "mc_ShadowMemory (debug_enter M am f r cpu s) = mc_ShadowMemory s"
  "switch_inv (debug_enter M am f r cpu s) = switch_inv s"
  "fi_AddressOfInterestMap (debug_leave M f cpu s) = fi_AddressOfInterestMap s"
  "fi_Functions (debug_leave M f cpu s) = fi_Functions s"
  "mc_ShadowMemory (debug_leave M f cpu s) = mc_ShadowMemory s"
  "switch_inv (debug_leave M f cpu s) = switch_inv s"
  by (simp_all add: debug_enter_def debug_leave_def switch_inv_def)

text \<open>The three cases of a visit, with the states named.\<close>

lemma visit_cases:
  obtains (other) "QEMU_DoAddress M am cpu s = s" "visit_op M cpu s = None"
  | (leave) aoi where "fi_AddressOfInterestMap s (m_GetPC M cpu) = Some aoi"
      "aoi_Type aoi = RETURNADDRESS" "visit_op M cpu s = None"
      "QEMU_DoAddress M am cpu s = leave_function M (m_GetPC M cpu) aoi cpu s"
  | (enter) aoi where "fi_AddressOfInterestMap s (m_GetPC M cpu) = Some aoi"
      "aoi_Type aoi = FUNCTION"
      "visit_op M cpu s = class_op M cpu (f_Class (fi_Functions s ! aoi_Function aoi))"
      "QEMU_DoAddress M am cpu s = snd (enter_function M am aoi cpu s)"
proof (cases "0xc0000000 \<le> m_GetPC M cpu")
  case False
  then show thesis
    by (intro other)
      (simp_all add: QEMU_DoAddress_def DoAddress_def visit_op_def split: option.split)
next
  case pc: True
  show thesis
  proof (cases "fi_AddressOfInterestMap s (m_GetPC M cpu)")
    case None
    then show thesis
      by (intro other) (simp_all add: QEMU_DoAddress_def DoAddress_def
          FunctionInterceptor_DoAddress_def visit_op_def Let_def)
  next
    case (Some aoi)
    then show thesis
      using pc leave [of aoi] enter [of aoi]
      by (cases "aoi_Type aoi") (simp_all add: QEMU_DoAddress_def DoAddress_def
          FunctionInterceptor_DoAddress_def visit_op_def Let_def)
  qed
qed

lemma leave_function_shadow [simp]:
  "mc_ShadowMemory (leave_function M pc aoi cpu s) = mc_ShadowMemory s"
  by (simp add: leave_function_def Let_def)

lemma enter_function_shadow [simp]:
  "mc_ShadowMemory (snd (enter_function M am aoi cpu s)) =
     (case class_op M cpu (f_Class (fi_Functions s ! aoi_Function aoi)) of
        None \<Rightarrow> mc_ShadowMemory s
      | Some x \<Rightarrow> snd (shadow_step (mc_ShadowMemory s) x))"
  by (simp add: enter_function_def Let_def Enter_shadow split: option.split)

lemma visit_shadow:
  "mc_ShadowMemory (QEMU_DoAddress M am cpu s) =
     (case visit_op M cpu s of
        None \<Rightarrow> mc_ShadowMemory s
      | Some x \<Rightarrow> snd (shadow_step (mc_ShadowMemory s) x))"
  by (rule visit_cases [where M = M and am = am and cpu = cpu and s = s]) simp_all


text \<open>A hook prints exactly when its operation fails.\<close>

definition op_call :: "ShadowMemory \<Rightarrow> shadow_op \<Rightarrow> int \<times> shadow_msg list \<times> ShadowMemory" where
  "op_call m x =
     (case x of
        Alloc p n \<Rightarrow> NewMemoryAlloc 0 p n m
      | Free p \<Rightarrow> FreeMemory 0 p m
      | FreeSize p n \<Rightarrow> FreeSizeMemory 0 p n m
      | FreeAnySize p n \<Rightarrow> FreeAnySizeMemory 0 p n m)"

lemma op_call_step: "fst (shadow_step m x) = (fst (op_call m x) = 0)"
  by (cases x) (simp_all add: op_call_def split_beta)

lemma op_call_msgs: "(fst (op_call m x) = 0) = (fst (snd (op_call m x)) = [])"
  by (cases x)
    (auto simp: op_call_def NewMemoryAlloc_def FreeMemory_def FreeSizeMemory_def
      FreeAnySizeMemory_def Let_def split: option.split prod.split)

lemma Enter_op: "class_op M cpu c = Some x \<Longrightarrow> Enter M am c cpu s = shadow_call M am cpu (op_call (mc_ShadowMemory s) x) s"
  by (cases c) (auto simp: class_op_def Enter_def op_call_def)

lemma shadow_call_out:
  "(mc_Out (shadow_call M am cpu (op_call m x) s) = mc_Out s) = (fst (op_call m x) = 0)"
  using shadow_call_emits [of M am cpu "op_call m x" s] op_call_msgs [of m x] by auto


text \<open>A state with two hooks and a heap function, as \<^verbatim>\<open>Init\<close> registers them.\<close>

definition hooked :: memcheck where
  "hooked =
     fold NewFunction [0, 1, 2] (initial_memcheck
       \<lparr>mc_MemoryAccessStart := 0xc0400000, mc_MemoryAccessStop := 0xdfff0000,
        fi_Functions :=
       [\<lparr>f_Class = MemCheck_Alloc, f_Address = 0xc0100000, f_SymbolName = ''MemCheck_Alloc'',
         f_Active = False, f_NumberOfArguments = 2, f_Debug = False\<rparr>,
        \<lparr>f_Class = MemCheck_Free, f_Address = 0xc0100100, f_SymbolName = ''MemCheck_Free'',
         f_Active = False, f_NumberOfArguments = 1, f_Debug = False\<rparr>,
        \<lparr>f_Class = LinuxKernelHeapFunction, f_Address = 0xc0100200, f_SymbolName = ''mykfree'',
         f_Active = False, f_NumberOfArguments = 0, f_Debug = False\<rparr>]\<rparr>)"

lemma hooked_fields:
  "mc_ShadowMemory hooked = []" "\<not> mc_MemoryAccessDisable hooked" "mc_MemoryAccessDepth hooked = 0"
  "mc_MemoryAccessStart hooked = 0xc0400000" "mc_MemoryAccessStop hooked = 0xdfff0000"
  "\<forall>f\<in>set (fi_Functions hooked). \<not> f_Debug f" "length (fi_Functions hooked) = 3"
  "\<forall>aoi\<in>ran (fi_AddressOfInterestMap hooked). aoi_Function aoi < 3"
  by (auto simp: hooked_def initial_memcheck_def NewFunction_def ran_def
      AddressOfInterest_NewFunction_def split: if_splits)

lemma hooked_visit_op:
  "visit_op tuple_machine (0xc0100000, r, p, n) hooked = Some (Alloc p n)"
  "visit_op tuple_machine (0xc0100100, r, p, n) hooked = Some (Free p)"
  by (simp_all add: visit_op_def hooked_def initial_memcheck_def NewFunction_def
      AddressOfInterest_NewFunction_def tuple_machine_def class_op_def)


section \<open>Invariant\<close>

text \<open>
  The map is well formed, a depth is only counted while checking is off, and every entry of
  the interceptor's table names an existing function.
\<close>

definition checker_inv :: "memcheck \<Rightarrow> bool" where
  "checker_inv s \<longleftrightarrow> wf_shadow (mc_ShadowMemory s) \<and> switch_inv s \<and>
     (\<forall>aoi\<in>ran (fi_AddressOfInterestMap s). aoi_Function aoi < length (fi_Functions s))"

text \<open>The hooks: the entries of type \<^verbatim>\<open>FUNCTION\<close> with the function each stands for.\<close>

definition hook_at :: "memcheck \<Rightarrow> Addr32 \<rightharpoonup> nat" where
  "hook_at s a =
     (case fi_AddressOfInterestMap s a of
        None \<Rightarrow> None
      | Some aoi \<Rightarrow> if aoi_Type aoi = FUNCTION then Some (aoi_Function aoi) else None)"

definition function_key :: "Function \<Rightarrow> function_class \<times> Addr32 \<times> string" where
  "function_key f = (f_Class f, f_Address f, f_SymbolName f)"

lemma set_Active_keys [simp]:
  "map function_key (fi_Functions (set_Active f b s)) = map function_key (fi_Functions s)"
  "length (fi_Functions (set_Active f b s)) = length (fi_Functions s)"
  by (cases "f < length (fi_Functions s)")
    (simp_all add: set_Active_def map_update function_key_def list_update_same_conv
      list_update_beyond not_less)

lemma switch_inv_frame [simp]:
  "switch_inv (set_Active f b s) = switch_inv s"
  "switch_inv (s\<lparr>fi_AddressOfInterestMap := m\<rparr>) = switch_inv s"
  "switch_inv (emit os s) = switch_inv s"
  by (simp_all add: switch_inv_def)

lemma leave_keeps:
  assumes "fi_AddressOfInterestMap s pc = Some aoi" "aoi_Type aoi = RETURNADDRESS"
    and "t = leave_function M pc aoi cpu s"
  shows "switch_inv s \<Longrightarrow> switch_inv t" "hook_at t = hook_at s"
    "map function_key (fi_Functions t) = map function_key (fi_Functions s)"
    "ran (fi_AddressOfInterestMap t) \<subseteq> ran (fi_AddressOfInterestMap s) \<union>
       {aoi\<lparr>aoi_RefCnt := aoi_RefCnt aoi - 1\<rparr>}"
proof -
  define s2 where "s2 = set_Active (aoi_Function aoi) False (Leave (f_Class (fi_Functions s !
      aoi_Function aoi)) (debug_leave M (fi_Functions s ! aoi_Function aoi) cpu s))"
  have t: "t = (if aoi_RefCnt aoi - 1 = 0
      then s2\<lparr>fi_AddressOfInterestMap := (fi_AddressOfInterestMap s)(pc := None)\<rparr>
      else s2\<lparr>fi_AddressOfInterestMap := (fi_AddressOfInterestMap s)
        (pc \<mapsto> aoi\<lparr>aoi_RefCnt := aoi_RefCnt aoi - 1\<rparr>)\<rparr>)"
    by (simp add: assms(3) leave_function_def Let_def s2_def)
  have "switch_inv s2" if "switch_inv s"
    using that by (simp add: s2_def)
  then show "switch_inv s \<Longrightarrow> switch_inv t" by (simp add: t)
  show "hook_at t = hook_at s" using assms(1,2) by (auto simp: t hook_at_def)
  show "map function_key (fi_Functions t) = map function_key (fi_Functions s)"
    by (simp add: t s2_def)
  show "ran (fi_AddressOfInterestMap t) \<subseteq> ran (fi_AddressOfInterestMap s) \<union>
       {aoi\<lparr>aoi_RefCnt := aoi_RefCnt aoi - 1\<rparr>}"
    by (auto simp: t ran_def)
qed

lemma enter_keeps:
  assumes "t = snd (enter_function M am aoi cpu s)"
  shows "switch_inv s \<Longrightarrow> switch_inv t" "hook_at s \<subseteq>\<^sub>m hook_at t"
    "map function_key (fi_Functions t) = map function_key (fi_Functions s)"
    "b \<in> ran (fi_AddressOfInterestMap t) \<Longrightarrow> aoi_Function b = aoi_Function aoi \<or>
       aoi_Function b \<in> aoi_Function ` ran (fi_AddressOfInterestMap s)"
proof -
  define r where "r = m_GetReturnAddress M cpu (am_word am)"
  define s3 where "s3 = set_Active (aoi_Function aoi) True (Enter M am (f_Class (fi_Functions s !
      aoi_Function aoi)) cpu (debug_enter M am (fi_Functions s ! aoi_Function aoi) r cpu s))"
  have t: "t = s3\<lparr>fi_AddressOfInterestMap :=
      (fi_AddressOfInterestMap s)(r \<mapsto> entered s r (aoi_Function aoi))\<rparr>"
    by (simp add: assms enter_function_def Let_def s3_def r_def entered_def)
  show "switch_inv s \<Longrightarrow> switch_inv t" by (simp add: t s3_def)
  show "map function_key (fi_Functions t) = map function_key (fi_Functions s)"
    by (simp add: t s3_def)
  show "hook_at s \<subseteq>\<^sub>m hook_at t"
    by (auto simp: t map_le_def hook_at_def entered_def split: option.splits if_splits)
  show "aoi_Function b = aoi_Function aoi \<or>
       aoi_Function b \<in> aoi_Function ` ran (fi_AddressOfInterestMap s)"
    if "b \<in> ran (fi_AddressOfInterestMap t)"
  proof -
    from that consider "b = entered s r (aoi_Function aoi)" | "b \<in> ran (fi_AddressOfInterestMap s)"
      unfolding t by (auto simp: ran_def split: if_splits)
    then show ?thesis
      by cases (auto simp: entered_def AddressOfInterest_NewReturnAddress_def
          split: option.splits intro: ranI)
  qed
qed

lemma visit_keeps:
  assumes "checker_inv s"
    and pre: "\<And>x. visit_op M cpu s = Some x \<Longrightarrow> spec_pre (abs_heap (mc_ShadowMemory s)) x"
    and t: "t = QEMU_DoAddress M am cpu s"
  shows "checker_inv t \<and> hook_at s \<subseteq>\<^sub>m hook_at t \<and>
    map function_key (fi_Functions t) = map function_key (fi_Functions s)"
proof -
  have sw: "switch_inv s" and wf: "wf_shadow (mc_ShadowMemory s)"
    and fn: "\<And>x. x \<in> ran (fi_AddressOfInterestMap s) \<Longrightarrow> aoi_Function x < length (fi_Functions s)"
    using assms(1) by (auto simp: checker_inv_def)
  have wt: "wf_shadow (mc_ShadowMemory t)"
    unfolding t visit_shadow using wf pre shadow.step_inv
    by (cases "visit_op M cpu s") simp_all
  show ?thesis
  proof (rule visit_cases [where M = M and am = am and cpu = cpu and s = s])
    assume "QEMU_DoAddress M am cpu s = s"
    with assms(1) show ?thesis by (simp add: t)
  next
    fix aoi assume a: "fi_AddressOfInterestMap s (m_GetPC M cpu) = Some aoi"
      "aoi_Type aoi = RETURNADDRESS"
      "QEMU_DoAddress M am cpu s = leave_function M (m_GetPC M cpu) aoi cpu s"
    note k = leave_keeps [OF a(1,2) trans [OF t a(3)]]
    have "length (fi_Functions t) = length (fi_Functions s)" using k(3) by (metis length_map)
    moreover have "aoi_Function aoi < length (fi_Functions s)" using fn a(1) by (blast intro: ranI)
    ultimately have "\<forall>x\<in>ran (fi_AddressOfInterestMap t). aoi_Function x < length (fi_Functions t)"
      using k(4) fn by auto
    then show ?thesis using k(1-3) sw wt by (simp add: checker_inv_def)
  next
    fix aoi assume a: "fi_AddressOfInterestMap s (m_GetPC M cpu) = Some aoi"
      "QEMU_DoAddress M am cpu s = snd (enter_function M am aoi cpu s)"
    note k = enter_keeps [OF trans [OF t a(2)]]
    have "length (fi_Functions t) = length (fi_Functions s)" using k(3) by (metis length_map)
    moreover have "aoi_Function aoi < length (fi_Functions s)" using fn a(1) by (blast intro: ranI)
    ultimately have "\<forall>x\<in>ran (fi_AddressOfInterestMap t). aoi_Function x < length (fi_Functions t)"
      using k(4) fn by (metis image_iff)
    then show ?thesis using k(1-3) sw wt by (simp add: checker_inv_def)
  qed
qed

lemma MemoryAccess_emits: "\<exists>os. MemoryAccess M am cpu address len s = emit os s"
  using DumpTrace_emits [of M am cpu "emit [OutOfBound address len] s"]
  by (auto simp: MemoryAccess_def emit_emit split: option.split intro: exI [of _ "[]"]
      simp: emit_Nil)

section \<open>Runs\<close>

text \<open>
  A run of the checker from \<open>s\<^sub>0\<close>, with the heap the guest's announcements give according to
  the specification. Announcements are admissible requests; everything else is arbitrary: the
  CPU states, the order of visits and accesses, the clock and the indeterminate values.
\<close>

inductive checker_run :: "'cpu Machine \<Rightarrow> memcheck \<Rightarrow> memcheck \<Rightarrow> heap \<Rightarrow> bool"
  for M :: "'cpu Machine" and s\<^sub>0 :: memcheck where
  run_start: "checker_run M s\<^sub>0 s\<^sub>0 (abs_heap (mc_ShadowMemory s\<^sub>0))"
| run_hook: "checker_run M s\<^sub>0 s H \<Longrightarrow> visit_op M cpu s = Some x \<Longrightarrow> spec_pre H x \<Longrightarrow>
    checker_run M s\<^sub>0 (QEMU_DoAddress M am cpu s) (snd (spec_step H x))"
| run_visit: "checker_run M s\<^sub>0 s H \<Longrightarrow> visit_op M cpu s = None \<Longrightarrow>
    checker_run M s\<^sub>0 (QEMU_DoAddress M am cpu s) H"
| run_b: "checker_run M s\<^sub>0 s H \<Longrightarrow> checker_run M s\<^sub>0 (MemoryAccess_b M am cpu a s) H"
| run_w: "checker_run M s\<^sub>0 s H \<Longrightarrow> checker_run M s\<^sub>0 (MemoryAccess_w M am cpu a s) H"
| run_l: "checker_run M s\<^sub>0 s H \<Longrightarrow> checker_run M s\<^sub>0 (MemoryAccess_l M am cpu a s) H"
| run_q: "checker_run M s\<^sub>0 s H \<Longrightarrow> checker_run M s\<^sub>0 (MemoryAccess_q M am cpu a s) H"

text \<open>The monitored range is set once.\<close>

definition range_of :: "memcheck \<Rightarrow> Addr32 \<times> Addr32" where
  "range_of s = (mc_MemoryAccessStart s, mc_MemoryAccessStop s)"

lemma range_of_frame [simp]:
  "range_of (emit os s) = range_of s"
  "range_of (set_Active i b s) = range_of s"
  "range_of (MemoryAccessEnable s) = range_of s"
  "range_of (MemoryAccessDisable s) = range_of s"
  "range_of (shadow_call M am cpu r s) = range_of s"
  "range_of (debug_enter M am f ra cpu s) = range_of s"
  "range_of (debug_leave M f cpu s) = range_of s"
  "range_of (s\<lparr>fi_AddressOfInterestMap := m\<rparr>) = range_of s"
  by (simp_all add: range_of_def set_Active_def MemoryAccessEnable_def MemoryAccessDisable_def
      debug_enter_def debug_leave_def)

lemma range_of_visit [simp]: "range_of (QEMU_DoAddress M am cpu s) = range_of s"
proof (rule visit_cases [where M = M and am = am and cpu = cpu and s = s])
  have "range_of (Enter M am c cpu u) = range_of u" for c u
    by (cases c) (simp_all add: Enter_def)
  moreover have "range_of (Leave c u) = range_of u" for c u
    by (cases c) (simp_all add: Leave_def)
  ultimately show "range_of (QEMU_DoAddress M am cpu s) = range_of s"
    if "QEMU_DoAddress M am cpu s = snd (enter_function M am aoi cpu s)" for aoi
    using that by (simp add: enter_function_def Let_def)
  show "range_of (QEMU_DoAddress M am cpu s) = range_of s"
    if "QEMU_DoAddress M am cpu s = leave_function M (m_GetPC M cpu) aoi cpu s" for aoi
    using that \<open>\<And>u c. range_of (Leave c u) = range_of u\<close> by (simp add: leave_function_def Let_def)
qed simp

definition run_ok :: "memcheck \<Rightarrow> memcheck \<Rightarrow> heap \<Rightarrow> bool" where
  "run_ok s\<^sub>0 s H \<longleftrightarrow> checker_inv s \<and> abs_heap (mc_ShadowMemory s) = H \<and> range_of s = range_of s\<^sub>0 \<and>
     hook_at s\<^sub>0 \<subseteq>\<^sub>m hook_at s \<and>
     map function_key (fi_Functions s) = map function_key (fi_Functions s\<^sub>0)"

lemma run_ok_emit [simp]: "run_ok s\<^sub>0 (emit os s) H = run_ok s\<^sub>0 s H"
proof -
  have "hook_at (emit os s) = hook_at s" by (rule ext) (simp add: hook_at_def)
  then show ?thesis by (simp add: run_ok_def checker_inv_def)
qed

lemma run_ok_access: "run_ok s\<^sub>0 s H \<Longrightarrow> run_ok s\<^sub>0 (MemoryAccess M am cpu a len s) H"
  using MemoryAccess_emits [of M am cpu a len s] by auto

lemma run_ok_visit:
  assumes ok: "run_ok s\<^sub>0 s H" and pre: "\<And>x. visit_op M cpu s = Some x \<Longrightarrow> spec_pre H x"
  shows "run_ok s\<^sub>0 (QEMU_DoAddress M am cpu s)
    (case visit_op M cpu s of None \<Rightarrow> H | Some x \<Rightarrow> snd (spec_step H x))"
proof -
  have i: "checker_inv s" and H: "abs_heap (mc_ShadowMemory s) = H"
    using ok by (simp_all add: run_ok_def)
  have k: "checker_inv (QEMU_DoAddress M am cpu s) \<and> hook_at s \<subseteq>\<^sub>m hook_at (QEMU_DoAddress M am cpu s) \<and>
      map function_key (fi_Functions (QEMU_DoAddress M am cpu s)) = map function_key (fi_Functions s)"
    using visit_keeps [OF i _ refl, of M cpu am] pre H by simp
  have "wf_shadow (mc_ShadowMemory s)" using i by (simp add: checker_inv_def)
  then have "abs_heap (mc_ShadowMemory (QEMU_DoAddress M am cpu s)) =
      (case visit_op M cpu s of None \<Rightarrow> H | Some x \<Rightarrow> snd (spec_step H x))"
    unfolding visit_shadow using pre H shadow.step_abs by (cases "visit_op M cpu s") auto
  moreover have "hook_at s\<^sub>0 \<subseteq>\<^sub>m hook_at (QEMU_DoAddress M am cpu s)"
    using k ok map_le_trans unfolding run_ok_def by blast
  ultimately show ?thesis using k ok by (simp add: run_ok_def)
qed

lemma run_invariant: "checker_run M s\<^sub>0 s H \<Longrightarrow> checker_inv s\<^sub>0 \<Longrightarrow> run_ok s\<^sub>0 s H"
proof (induction rule: checker_run.induct)
  case run_start
  then show ?case by (simp add: run_ok_def)
next
  case (run_hook s H cpu x am)
  then show ?case using run_ok_visit [of s\<^sub>0 s H M cpu am] by simp
next
  case (run_visit s H cpu am)
  then show ?case using run_ok_visit [of s\<^sub>0 s H M cpu am] by simp
qed (simp_all add: run_ok_access MemoryAccess_b_def MemoryAccess_w_def MemoryAccess_l_def
    MemoryAccess_q_def)

text \<open>
  \<^bold>\<open>C3\<close> In every state the checker reaches, the record of live blocks stands for exactly
  the heap that the announced operations give, is well formed, no registered hook has been
  lost or redirected, and the monitored range is the one set at initialisation.
\<close>

theorem run_tracks_heap:
  assumes "checker_run M s\<^sub>0 s H" "checker_inv s\<^sub>0"
  shows "abs_heap (mc_ShadowMemory s) = H \<and> checker_inv s \<and> hook_at s\<^sub>0 \<subseteq>\<^sub>m hook_at s \<and>
    map function_key (fi_Functions s) = map function_key (fi_Functions s\<^sub>0) \<and>
    mc_MemoryAccessStart s = mc_MemoryAccessStart s\<^sub>0 \<and>
    mc_MemoryAccessStop s = mc_MemoryAccessStop s\<^sub>0"
  using run_invariant [OF assms] by (simp add: run_ok_def range_of_def)

lemma hooked_inv: "checker_inv hooked"
  using hooked_fields by (auto simp: checker_inv_def switch_inv_def)

definition hooked_alloc :: memcheck where
  "hooked_alloc = QEMU_DoAddress tuple_machine quiet (0xc0100000, 0xc0200000, 0xc1000000, 16) hooked"

lemma hooked_alloc_run: "checker_run tuple_machine hooked hooked_alloc {(0xc1000000, 16)}"
proof -
  have "abs_heap (mc_ShadowMemory hooked) = {}" by (simp add: hooked_fields abs_heap_def)
  then have "checker_run tuple_machine hooked hooked {}"
    using run_start [of tuple_machine hooked] by simp
  from run_hook [OF this hooked_visit_op(1), of "0xc1000000" 16 quiet "0xc0200000"] show ?thesis
    by (simp add: hooked_alloc_def spec_alloc_def)
qed

theorem run_tracks_heap_witness:
  "abs_heap (mc_ShadowMemory hooked_alloc) = {(0xc1000000, 16)} \<and> checker_inv hooked_alloc"
  using run_tracks_heap [OF hooked_alloc_run hooked_inv] by simp

text \<open>
  \<^bold>\<open>C2\<close> End to end: at any point of a run, a 32-bit guest access in the monitored range
  with checking on is reported exactly when none of its four bytes belongs to a block that
  the guest has announced and not yet freed; the report is the only effect.
\<close>

theorem access_reported_iff_unallocated:
  assumes "checker_run M s\<^sub>0 s H" "checker_inv s\<^sub>0" "\<not> mc_MemoryAccessDisable s"
    and "mc_MemoryAccessStart s\<^sub>0 \<le> a" "a < mc_MemoryAccessStop s\<^sub>0" "unat a + 4 < 2 ^ 32"
  shows "if {unat a..<unat a + 4} \<inter> (\<Union>x\<in>H. span x) = {}
    then \<exists>os. MemoryAccess_l M am cpu a s = emit (OutOfBound a 4 # os) s
    else MemoryAccess_l M am cpu a s = s"
proof -
  have r: "run_ok s\<^sub>0 s H" by (rule run_invariant [OF assms(1,2)])
  then have "allocated (mc_ShadowMemory s) = (\<Union>x\<in>H. span x)"
    by (simp add: run_ok_def allocated_span)
  moreover have "wf_shadow (mc_ShadowMemory s)" "range_of s = range_of s\<^sub>0"
    using r by (simp_all add: run_ok_def checker_inv_def)
  ultimately show ?thesis
    using MemoryAccess_outcome [of s a 4 M am cpu] assms(3-6)
    by (simp add: MemoryAccess_l_def range_of_def)
qed

lemma hooked_alloc_enabled: "\<not> mc_MemoryAccessDisable hooked_alloc"
  by (simp add: hooked_alloc_def hooked_def initial_memcheck_def NewFunction_def
      AddressOfInterest_NewFunction_def tuple_machine_def QEMU_DoAddress_def DoAddress_def
      FunctionInterceptor_DoAddress_def enter_function_def Enter_def debug_enter_def Let_def)

theorem access_reported_iff_unallocated_witness:
  "(\<exists>os. MemoryAccess_l tuple_machine quiet (0, 0, 0, 0) 0xc1000020 hooked_alloc =
      emit (OutOfBound 0xc1000020 4 # os) hooked_alloc) \<and>
   MemoryAccess_l tuple_machine quiet (0, 0, 0, 0) 0xc100000c hooked_alloc = hooked_alloc"
proof -
  have sp: "span (0xc1000000, 16) = {0xc1000000..<0xc1000010}" by (simp add: span_def)
  have "{0xc100000c..<0xc1000010 :: nat} \<inter> {0xc1000000..<0xc1000010} \<noteq> {}"
    by (auto intro!: exI [of _ "0xc100000c"])
  then show ?thesis
    using access_reported_iff_unallocated [OF hooked_alloc_run hooked_inv hooked_alloc_enabled,
        of "0xc1000020" quiet "(0, 0, 0, 0)"]
      access_reported_iff_unallocated [OF hooked_alloc_run hooked_inv hooked_alloc_enabled,
        of "0xc100000c" quiet "(0, 0, 0, 0)"]
    by (simp add: hooked_fields sp)
qed

end
