(* ===== verification/CheckerInit.thy ===== *)
theory CheckerInit
  imports Checker
begin

text \<open>
  \<^verbatim>\<open>MemCheckLinuxKernel::Init\<close>: which functions are intercepted, at which addresses, and the
  state the checker starts in.
\<close>

section \<open>Registering functions\<close>

text \<open>The object a \<^verbatim>\<open>new\<close> in \<^verbatim>\<open>Init\<close> creates.\<close>

definition made :: "(string \<Rightarrow> Addr32) \<Rightarrow> SymbolTable \<Rightarrow> function_class \<times> string \<times> u32 \<Rightarrow> Function" where
  "made junk st d =
     \<lparr>f_Class = fst d, f_Address = snd (Lookup_name st (fst (snd d)) (junk (fst (snd d)))),
      f_SymbolName = fst (snd d), f_Active = False, f_NumberOfArguments = snd (snd d),
      f_Debug = False\<rparr>"

abbreviation new_all ::
  "(string \<Rightarrow> Addr32) \<Rightarrow> (function_class \<times> string \<times> u32) list \<Rightarrow> memcheck \<Rightarrow> memcheck" where
  "new_all junk ds s \<equiv> fold (\<lambda>(c, name, n). new_Function junk c name n False) ds s"

definition hook_entry :: "Function list \<Rightarrow> nat \<Rightarrow> Addr32 \<times> AddressOfInterest" where
  "hook_entry fs i = (f_Address (fs ! i), AddressOfInterest_NewFunction fs i)"

lemma new_all_eq:
  "new_all junk ds s =
     s\<lparr>fi_Functions := fi_Functions s @ map (made junk (mc_SymbolTable s)) ds\<rparr>"
  by (induction ds arbitrary: s) (auto simp: new_Function_def made_def split_beta)

lemma NewFunction_all_eq:
  "fold NewFunction is s =
     s\<lparr>fi_FunctionList := fi_FunctionList s @ is,
       fi_AddressOfInterestMap := fi_AddressOfInterestMap s ++
         map_of (rev (map (hook_entry (fi_Functions s)) is))\<rparr>"
  by (induction "is" arbitrary: s) (simp_all add: NewFunction_def hook_entry_def)

lemma register_new_eq:
  "register_new junk d s =
     (let F = fi_Functions s @ [made junk (mc_SymbolTable s) d]; u = length (fi_Functions s) in
      s\<lparr>fi_Functions := F, fi_FunctionList := fi_FunctionList s @ [u],
        fi_AddressOfInterestMap := (fi_AddressOfInterestMap s)
          (fst (hook_entry F u) \<mapsto> snd (hook_entry F u))\<rparr>)"
  by (cases d) (simp add: register_new_def new_Function_def NewFunction_def hook_entry_def made_def Let_def)

lemma hook_entries_append:
  "js = [length fs..<length fs + length gs] \<Longrightarrow>
   map (hook_entry (fs @ gs @ hs)) js = map (hook_entry (fs @ gs)) js"
  by (rule map_cong) (auto simp: hook_entry_def AddressOfInterest_NewFunction_def nth_append)

lemma register_all_eq:
  assumes "F = fi_Functions s @ map (made junk (mc_SymbolTable s)) ds"
    and "js = [length (fi_Functions s)..<length (fi_Functions s) + length ds]"
  shows "fold (register_new junk) ds s =
     s\<lparr>fi_Functions := F, fi_FunctionList := fi_FunctionList s @ js,
       fi_AddressOfInterestMap := fi_AddressOfInterestMap s ++ map_of (rev (map (hook_entry F) js))\<rparr>"
  using assms
proof (induction ds arbitrary: F js rule: rev_induct)
  case Nil
  then show ?case by simp
next
  case (snoc d ds)
  let ?u = "length (fi_Functions s)" and ?G = "map (made junk (mc_SymbolTable s)) ds"
  let ?js = "[?u..<?u + length ds]" and ?m = "made junk (mc_SymbolTable s) d"
  have same: "map (hook_entry (fi_Functions s @ ?G @ [?m])) ?js = map (hook_entry (fi_Functions s @ ?G)) ?js"
    by (rule hook_entries_append) simp
  show ?case
    using snoc.IH [OF refl refl]
    by (cases "hook_entry (fi_Functions s @ ?G @ [?m]) (?u + length ds)")
      (simp add: snoc.prems register_new_eq Let_def same fun_upd_def [symmetric])
qed

section \<open>The state after \<^verbatim>\<open>Init\<close>\<close>

abbreviation all_hooks :: "(function_class \<times> string \<times> u32) list" where
  "all_hooks \<equiv> allocator_hooks @ heap_functions"

lemma lengths: "length allocator_hooks = 4" "length heap_functions = 13"
  by (simp_all add: allocator_hooks_def heap_functions_def)

lemma Init_state:
  assumes "Load ljunk file empty_SymbolTable = Inr st"
    and F: "F = map (made junk st) all_hooks"
  shows "\<exists>s. QEMU_Init ljunk junk file = Inr s \<and> fi_Functions s = F \<and>
    fi_AddressOfInterestMap s = map_of (rev (map (hook_entry F) [0..<17])) \<and>
    \<not> mc_MemoryAccessDisable s \<and> mc_MemoryAccessDepth s = 0 \<and> mc_ShadowMemory s = [] \<and>
    mc_SymbolTable s = st \<and> mc_Out s = [] \<and> mc_Initialized s \<and>
    mc_MemoryAccessStart s = snd (Lookup_name st ''__bss_stop'' 0) \<and>
    mc_MemoryAccessStop s = 0xdfff0000 \<and> fi_FunctionList s = [0..<17]"
proof -
  let ?A = "map (made junk st) allocator_hooks" and ?B = "map (made junk st) heap_functions"
  have js: "[0, 1, 2, 3] = [length ([] :: Function list)..<length ([] :: Function list) + length ?A]"
    by (simp add: lengths upt_rec)
  have sp: "[0..<17] = [0, 1, 2, 3 :: nat] @ [4..<17]" by (simp add: upt_rec)
  have eq: "map (hook_entry ?A) [0, 1, 2, 3] = map (hook_entry F) [0, 1, 2, 3]"
    using hook_entries_append [OF js, of ?B] by (simp add: F)
  have m: "map_of (rev (map (hook_entry ?A) [0, 1, 2, 3])) ++ map_of (rev (map (hook_entry F) [4..<17])) =
      map_of (rev (map (hook_entry F) [0..<17]))"
    by (simp only: eq sp map_append rev_append map_of_append)
  let ?s0 = "initial_memcheck\<lparr>mc_SymbolTable := st, fi_Functions := ?A\<rparr>"
  let ?s1 = "?s0\<lparr>fi_FunctionList := [0, 1, 2, 3],
      fi_AddressOfInterestMap := map_of (rev (map (hook_entry ?A) [0, 1, 2, 3])),
      mc_MemoryAccessStop := 0xdfff0000,
      mc_MemoryAccessStart := snd (Lookup_name st ''__bss_stop'' 0)\<rparr>"
  have i: "initial_memcheck\<lparr>mc_SymbolTable := empty_SymbolTable\<rparr> = initial_memcheck"
    by (simp add: initial_memcheck_def)
  have "QEMU_Init ljunk junk file = Inr ((fold (register_new junk) heap_functions
      (MemoryAccessEnable ?s1))\<lparr>mc_Initialized := True\<rparr>)"
    using assms(1)
    by (simp add: QEMU_Init_def Init_def Let_def new_hooks_def new_all_eq NewFunction_all_eq
        initial_memcheck_def numeral_2_eq_2 del: fold.simps)
  moreover have "MemoryAccessEnable ?s1 = ?s1"
    by (simp add: MemoryAccessEnable_def initial_memcheck_def)
  moreover have "fold (register_new junk) heap_functions ?s1 =
      ?s1\<lparr>fi_Functions := F, fi_FunctionList := [0, 1, 2, 3] @ [4..<17],
        fi_AddressOfInterestMap := map_of (rev (map (hook_entry F) [0..<17]))\<rparr>"
    using register_all_eq [of F ?s1 junk heap_functions "[4..<17]"] m by (simp add: F lengths)
  ultimately show ?thesis by (simp add: initial_memcheck_def sp)
qed

lemma hook_entries_at:
  assumes "distinct (map f_Address F)" "i < length F"
  shows "map_of (rev (map (hook_entry F) [0..<length F])) (f_Address (F ! i)) =
    Some (AddressOfInterest_NewFunction F i)"
proof -
  have "map (f_Address \<circ> (!) F) [0..<length F] = map f_Address F"
    by (metis map_map map_nth)
  then have "distinct (map fst (rev (map (hook_entry F) [0..<length F])))"
    using assms(1) by (simp add: rev_map [symmetric] hook_entry_def comp_def)
  then show ?thesis
    using assms(2) by (auto simp: hook_entry_def)
qed

text \<open>
  \<^bold>\<open>C6\<close> If the symbol table resolves every hooked name, to distinct addresses, then after
  \<^verbatim>\<open>Init\<close> exactly the four allocator hooks and the thirteen heap functions are intercepted,
  each at its own address and with its own class; checking is on, the monitored range is from
  \<^verbatim>\<open>__bss_stop\<close> to 0xdfff0000, no block is recorded, and the invariant of runs holds.
\<close>

theorem Init_registers_hooks:
  assumes load: "Load ljunk file empty_SymbolTable = Inr st"
    and names: "\<forall>d\<in>set all_hooks. st_NameToAddressMap st (fst (snd d)) = Some (addr (fst (snd d)))"
    and inj: "distinct (map (\<lambda>d. addr (fst (snd d))) all_hooks)"
    and bss: "st_NameToAddressMap st ''__bss_stop'' = Some b"
  shows "\<exists>s. QEMU_Init ljunk junk file = Inr s \<and> checker_inv s \<and>
    dom (hook_at s) = (\<lambda>d. addr (fst (snd d))) ` set all_hooks \<and>
    (\<forall>d\<in>set all_hooks. \<exists>i. hook_at s (addr (fst (snd d))) = Some i \<and>
       function_key (fi_Functions s ! i) = (fst d, addr (fst (snd d)), fst (snd d))) \<and>
    \<not> mc_MemoryAccessDisable s \<and> mc_MemoryAccessStart s = b \<and>
    mc_MemoryAccessStop s = 0xdfff0000 \<and> abs_heap (mc_ShadowMemory s) = {}"
proof -
  define F where "F = map (made junk st) all_hooks"
  obtain s where s: "QEMU_Init ljunk junk file = Inr s" "fi_Functions s = F"
      "fi_AddressOfInterestMap s = map_of (rev (map (hook_entry F) [0..<17]))"
      "\<not> mc_MemoryAccessDisable s" "mc_MemoryAccessDepth s = 0" "mc_ShadowMemory s = []"
      "mc_MemoryAccessStart s = snd (Lookup_name st ''__bss_stop'' 0)"
      "mc_MemoryAccessStop s = 0xdfff0000"
    using Init_state [OF load F_def] by blast
  have len: "length F = 17" by (simp add: F_def lengths)
  have addrs: "map f_Address F = map (\<lambda>d. addr (fst (snd d))) all_hooks"
    unfolding F_def map_map comp_def
    by (rule map_cong) (use names in \<open>auto simp: made_def Lookup_name_def\<close>)
  have at: "hook_at s (f_Address (F ! i)) = Some i" if "i < 17" for i
    using hook_entries_at [of F i] inj that
    by (simp add: hook_at_def s(3) addrs len AddressOfInterest_NewFunction_def)
  have ran: "ran (fi_AddressOfInterestMap s) \<subseteq> AddressOfInterest_NewFunction F ` {0..<17}"
    unfolding s(3) by (auto simp: ran_def hook_entry_def dest!: map_of_SomeD)
  then have inv: "checker_inv s"
    using s len by (auto simp: checker_inv_def switch_inv_def AddressOfInterest_NewFunction_def)
  have no: "fi_AddressOfInterestMap s a = None \<or> (\<exists>i<17. a = f_Address (F ! i))" for a
    unfolding s(3) by (auto simp: map_of_eq_None_iff hook_entry_def image_iff)
  have "a \<in> (\<lambda>i. f_Address (F ! i)) ` {0..<17}" if "hook_at s a = Some j" for a j
    using no [of a] that by (auto simp: hook_at_def)
  then have "dom (hook_at s) = (\<lambda>i. f_Address (F ! i)) ` {0..<17}"
    using at by (intro set_eqI iffI) (auto simp: dom_def)
  also have "\<dots> = set (map f_Address F)"
    using nth_image [of 17 F] by (simp add: len image_image [symmetric])
  finally have dom: "dom (hook_at s) = (\<lambda>d. addr (fst (snd d))) ` set all_hooks"
    by (simp add: addrs del: map_append)
  have "\<exists>i. hook_at s (addr (fst (snd d))) = Some i \<and>
      function_key (F ! i) = (fst d, addr (fst (snd d)), fst (snd d))" if dd: "d \<in> set all_hooks" for d
  proof -
    obtain i where i: "i < length all_hooks" "all_hooks ! i = d"
      using dd unfolding in_set_conv_nth by blast
    then have "F ! i = made junk st d" by (simp add: F_def del: map_append)
    then have "function_key (F ! i) = (fst d, addr (fst (snd d)), fst (snd d))"
      using names dd by (simp add: made_def function_key_def Lookup_name_def)
    moreover from this have "f_Address (F ! i) = addr (fst (snd d))" by (simp add: function_key_def)
    ultimately show ?thesis using at [of i] i(1) by (auto simp: lengths)
  qed
  then show ?thesis
    using s inv dom bss by (auto simp: Lookup_name_def abs_heap_def)
qed

text \<open>A symbol file with one entry per hooked function.\<close>

definition kernel_symbols :: "(string \<times> Addr32) list" where
  "kernel_symbols =
     [(''MemCheck_Alloc'', 0xc0101000),
      (''MemCheck_Free'', 0xc0102000),
      (''MemCheck_FreeSize'', 0xc0103000),
      (''MemCheck_FreeAnySize'', 0xc0104000),
      (''__free_slab'', 0xc0105000),
      (''__alloc_bootmem_core'', 0xc0106000),
      (''free_bootmem_core'', 0xc0107000),
      (''init_bootmem_core'', 0xc0108000),
      (''reserve_bootmem'', 0xc0109000),
      (''free_init_pages'', 0xc010a000),
      (''__kmalloc'', 0xc010b000),
      (''mykfree'', 0xc010c000),
      (''mykmem_cache_free'', 0xc010d000),
      (''my__kmalloc_track_caller'', 0xc010e000),
      (''__alloc_pages'', 0xc010f000),
      (''mykmem_cache_alloc'', 0xc0110000),
      (''free_bootmem'', 0xc0111000)]"

definition kernel_entries :: "map_entry list" where
  "kernel_entries = map (\<lambda>(n, a). \<lparr>me_addr = a, me_type = CHR ''T'', me_name = n\<rparr>) kernel_symbols"

definition bss_entry :: map_entry where
  "bss_entry = \<lparr>me_addr = 0xc0400000, me_type = CHR ''B'', me_name = ''__bss_stop''\<rparr>"

definition kernel_addr :: "string \<Rightarrow> Addr32" where
  "kernel_addr n = (case map_of kernel_symbols n of Some a \<Rightarrow> a | None \<Rightarrow> 0)"

lemma kernel_valid: "\<forall>e\<in>set kernel_entries. valid_entry e" "valid_entry bss_entry"
  "listed (kernel_entries @ [bss_entry]) \<noteq> []"
  by (simp_all add: kernel_entries_def kernel_symbols_def bss_entry_def valid_entry_def
      is_space_def listed_def)

lemma kernel_last_addr:
  "\<forall>d\<in>set all_hooks. last_addr (kernel_entries @ [bss_entry]) (fst (snd d)) =
     Some (kernel_addr (fst (snd d)))"
  "last_addr (kernel_entries @ [bss_entry]) ''__bss_stop'' = Some 0xc0400000"
  by (simp_all add: last_addr_def listed_def kernel_entries_def kernel_symbols_def bss_entry_def
      kernel_addr_def allocator_hooks_def heap_functions_def)

definition kernel_table :: SymbolTable where
  "kernel_table = \<lparr>st_NameToAddressMap = last_addr (kernel_entries @ [bss_entry]),
     st_SymbolMap =
       build_symbols (fst (load_entries (kernel_entries @ [bss_entry]) ([], \<lambda>_. None))) []\<rparr>"

lemma kernel_lookup:
  "\<forall>d\<in>set all_hooks. st_NameToAddressMap kernel_table (fst (snd d)) =
     Some (kernel_addr (fst (snd d)))"
  "st_NameToAddressMap kernel_table ''__bss_stop'' = Some 0xc0400000"
  using kernel_last_addr by (simp_all only: kernel_table_def SymbolTable.SymbolTable.select_convs)

lemma kernel_distinct: "distinct (map (\<lambda>d. kernel_addr (fst (snd d))) all_hooks)"
  by (simp add: kernel_addr_def kernel_symbols_def allocator_hooks_def heap_functions_def)

theorem Init_registers_hooks_witness:
  "\<exists>s. QEMU_Init (\<lambda>_. \<lparr>l_addr = 0, l_type = CHR ''A'', l_name = []\<rparr>) (\<lambda>_. 0)
     (Some (map_lines kernel_entries @ print_entry bss_entry)) = Inr s \<and> checker_inv s \<and>
     mc_MemoryAccessStart s = 0xc0400000 \<and>
     (\<exists>i. hook_at s 0xc0101000 = Some i \<and> f_Class (fi_Functions s ! i) = MemCheck_Alloc)"
proof -
  have a: "kernel_addr ''MemCheck_Alloc'' = 0xc0101000"
    by (simp add: kernel_addr_def kernel_symbols_def)
  have d: "(MemCheck_Alloc, ''MemCheck_Alloc'', 2) \<in> set all_hooks" by (simp add: allocator_hooks_def)
  let ?j = "\<lambda>_. \<lparr>l_addr = 0, l_type = CHR ''A'', l_name = []\<rparr>"
  let ?f = "Some (map_lines kernel_entries @ print_entry bss_entry)"
  from Init_registers_hooks [OF Load_lines [OF kernel_valid, of ?j, folded kernel_table_def]
      kernel_lookup(1) kernel_distinct kernel_lookup(2), of "\<lambda>_. 0"]
  obtain s where s: "QEMU_Init ?j (\<lambda>_. 0) ?f = Inr s" "checker_inv s"
    "mc_MemoryAccessStart s = 0xc0400000"
    "\<forall>d\<in>set all_hooks. \<exists>i. hook_at s (kernel_addr (fst (snd d))) = Some i \<and>
       function_key (fi_Functions s ! i) = (fst d, kernel_addr (fst (snd d)), fst (snd d))"
    by blast
  from bspec [OF s(4) d] show ?thesis
    using s(1-3) by (simp only: fst_conv snd_conv a function_key_def) auto
qed

end
