(* ===== verification/SoftMMU.thy ===== *)
theory SoftMMU
  imports X86MMU CheckerInit
begin

text \<open>
  The memory accesses of translated code (\<^verbatim>\<open>softmmu_header.h\<close>, \<^verbatim>\<open>softmmu_template.h\<close>): the
  macros that call MemCheck and then try the TLB, and the functions for TLB misses, I/O and
  unaligned accesses. The templates are instantiated for data sizes of 1, 2, 4 and 8 bytes;
  the model has the size as the argument \<open>SHIFT\<close> and the values of all sizes as 64-bit words.
\<close>

section \<open>Raw accesses to host memory\<close>

abbreviation DATA_SIZE :: "nat \<Rightarrow> u32" where "DATA_SIZE SHIFT \<equiv> push_bit SHIFT 1"

definition DATA_TYPE :: "nat \<Rightarrow> u64 \<Rightarrow> u64" where
  "DATA_TYPE SHIFT v = take_bit (8 * 2 ^ SHIFT) v"

definition ld_raw :: "nat \<Rightarrow> u32 \<Rightarrow> 'a phys_scheme \<Rightarrow> u64" where
  "ld_raw SHIFT physaddr q =
     (let m = phys_ram q; a = physaddr - phys_ram_base q in
      if SHIFT = 0 then ucast (ldub_p m a)
      else if SHIFT = 1 then ucast (lduw_le_p m a)
      else if SHIFT = 2 then ucast (ldl_le_p m a)
      else ldq_le_p m a)"

definition st_raw :: "nat \<Rightarrow> u32 \<Rightarrow> u64 \<Rightarrow> 'a phys_scheme \<Rightarrow> 'a phys_scheme" where
  "st_raw SHIFT physaddr v q =
     (let m = phys_ram q; a = physaddr - phys_ram_base q in
      q\<lparr>phys_ram := (if SHIFT = 0 then stb_p a (ucast v) m
        else if SHIFT = 1 then stw_le_p a (ucast v) m
        else if SHIFT = 2 then stl_le_p a (ucast v) m
        else stq_le_p a v m)\<rparr>)"

section \<open>I/O accesses\<close>

text \<open>
  What the accesses rely on: the devices, the recovery of the guest state from a host return
  address, and the host's time stamp counter.
\<close>

record 'q host =
  h_board :: "'q board"
  h_restore :: "u32 \<Rightarrow> 'q \<Rightarrow> 'q"
  h_time :: "'q \<Rightarrow> u64"

definition io_read :: "('a cpu_x86_scheme) host \<Rightarrow> nat \<Rightarrow> u32 \<Rightarrow> u32 \<Rightarrow> 'a cpu_x86_scheme \<Rightarrow> u64 \<times> 'a cpu_x86_scheme" where
  "io_read H SHIFT physaddr tlb_addr q =
     (let index = io_region tlb_addr in
      case (if SHIFT \<le> 2 then
              case io_mem_read (h_board H) index SHIFT physaddr q of
                (v, q1) \<Rightarrow> (DATA_TYPE SHIFT (ucast v), q1)
            else
              case io_mem_read (h_board H) index 2 physaddr q of
                (lo, q1) \<Rightarrow> case io_mem_read (h_board H) index 2 (physaddr + 4) q1 of
                  (hi, q2) \<Rightarrow> (ucast lo OR push_bit 32 (ucast hi), q2)) of
        (res, q3) \<Rightarrow> (res, q3\<lparr>last_io_time := h_time H q3\<rparr>))"

definition io_write ::
  "('a cpu_x86_scheme) host \<Rightarrow> nat \<Rightarrow> u32 \<Rightarrow> u64 \<Rightarrow> u32 \<Rightarrow> u32 \<Rightarrow> 'a cpu_x86_scheme \<Rightarrow> 'a cpu_x86_scheme" where
  "io_write H SHIFT physaddr val tlb_addr retaddr q =
     (let index = io_region tlb_addr;
          q1 = q\<lparr>mem_write_vaddr := tlb_addr, mem_write_pc := retaddr\<rparr>;
          q2 = (if SHIFT \<le> 2
                then io_mem_write (h_board H) index SHIFT physaddr (ucast (DATA_TYPE SHIFT val)) q1
                else io_mem_write (h_board H) index 2 (physaddr + 4) (ucast (drop_bit 32 val))
                       (io_mem_write (h_board H) index 2 physaddr (ucast val) q1)) in
      q2\<lparr>last_io_time := h_time H q2\<rparr>)"

section \<open>Loads\<close>

text \<open>
  The result of an access is the exception a TLB fill has raised, or a value; \<open>None\<close> is an
  access that never returns. \<open>code\<close> selects \<^verbatim>\<open>addr_code\<close> and the access type of code fetches.
\<close>

type_synonym ('v, 'q) access = "((cpu_exception + 'v) \<times> 'q) option"

definition ADDR_READ :: "bool \<Rightarrow> CPUTLBEntry \<Rightarrow> u32" where
  "ADDR_READ code te = (if code then addr_code te else addr_read te)"

definition READ_ACCESS_TYPE :: "bool \<Rightarrow> nat" where
  "READ_ACCESS_TYPE code = (if code then 2 else 0)"

definition tlb_matches :: "u32 \<Rightarrow> u32 \<Rightarrow> bool" where
  "tlb_matches addr tlb_addr \<longleftrightarrow>
     page_bits addr = tlb_addr AND (TARGET_PAGE_MASK OR TLB_INVALID_MASK)"

definition spans_pages :: "nat \<Rightarrow> u32 \<Rightarrow> bool" where
  "spans_pages SHIFT addr \<longleftrightarrow> 0x1000 \<le> offset_bits addr + DATA_SIZE SHIFT - 1"

definition misaligned :: "nat \<Rightarrow> u32 \<Rightarrow> bool" where
  "misaligned SHIFT addr \<longleftrightarrow> addr AND (DATA_SIZE SHIFT - 1) \<noteq> 0"

partial_function (option) slow_ld ::
  "('a cpu_x86_scheme) host \<Rightarrow> bool \<Rightarrow> nat \<Rightarrow> nat \<Rightarrow> u32 \<Rightarrow> u32 \<Rightarrow> 'a cpu_x86_scheme \<Rightarrow>
   (u64, 'a cpu_x86_scheme) access" where
  "slow_ld H code SHIFT mmu_idx retaddr addr q =
     (let te = tlb_table q mmu_idx (tlb_index addr); tlb_addr = ADDR_READ code te in
      if tlb_matches addr tlb_addr then
        let physaddr = addr + addend te in
        if offset_bits tlb_addr \<noteq> 0 \<and> \<not> misaligned SHIFT addr then
          case io_read H SHIFT physaddr tlb_addr q of (v, q1) \<Rightarrow> Some (Inr v, q1)
        else if offset_bits tlb_addr \<noteq> 0 \<or> spans_pages SHIFT addr then
          let addr1 = addr AND NOT (DATA_SIZE SHIFT - 1); addr2 = addr1 + DATA_SIZE SHIFT in
          Option.bind (slow_ld H code SHIFT mmu_idx retaddr addr1 q) (\<lambda>r1. case r1 of
            (Inl e, q1) \<Rightarrow> Some (Inl e, q1)
          | (Inr res1, q1) \<Rightarrow>
              Option.bind (slow_ld H code SHIFT mmu_idx retaddr addr2 q1) (\<lambda>r2. case r2 of
                (Inl e, q2) \<Rightarrow> Some (Inl e, q2)
              | (Inr res2, q2) \<Rightarrow>
                  let shift = unat (addr AND (DATA_SIZE SHIFT - 1)) * 8 in
                  Some (Inr (DATA_TYPE SHIFT (drop_bit shift res1 OR
                               push_bit (8 * 2 ^ SHIFT - shift) res2)), q2)))
        else Some (Inr (ld_raw SHIFT physaddr q), q)
      else
        case tlb_fill (h_board H) (h_restore H) addr (READ_ACCESS_TYPE code) mmu_idx retaddr q of
          (Some e, q1) \<Rightarrow> Some (Inl e, q1)
        | (None, q1) \<Rightarrow> slow_ld H code SHIFT mmu_idx retaddr addr q1)"

text \<open>\<^verbatim>\<open>__ld\<close>, the function behind a miss of the inline test.\<close>

partial_function (option) ld_mmu ::
  "('a cpu_x86_scheme) host \<Rightarrow> bool \<Rightarrow> nat \<Rightarrow> nat \<Rightarrow> u32 \<Rightarrow> u32 \<Rightarrow> 'a cpu_x86_scheme \<Rightarrow>
   (u64, 'a cpu_x86_scheme) access" where
  "ld_mmu H code SHIFT mmu_idx retaddr addr q =
     (let te = tlb_table q mmu_idx (tlb_index addr); tlb_addr = ADDR_READ code te in
      if tlb_matches addr tlb_addr then
        let physaddr = addr + addend te in
        if offset_bits tlb_addr \<noteq> 0 \<and> \<not> misaligned SHIFT addr then
          case io_read H SHIFT physaddr tlb_addr q of (v, q1) \<Rightarrow> Some (Inr v, q1)
        else if offset_bits tlb_addr \<noteq> 0 \<or> spans_pages SHIFT addr then
          slow_ld H code SHIFT mmu_idx retaddr addr q
        else Some (Inr (ld_raw SHIFT physaddr q), q)
      else
        case tlb_fill (h_board H) (h_restore H) addr (READ_ACCESS_TYPE code) mmu_idx retaddr q of
          (Some e, q1) \<Rightarrow> Some (Inl e, q1)
        | (None, q1) \<Rightarrow> ld_mmu H code SHIFT mmu_idx retaddr addr q1)"

section \<open>Stores\<close>

text \<open>
  The one-byte instance of \<^verbatim>\<open>slow_st\<close>, which the loop of every instance calls. For one byte
  the loop would call the function again with the same arguments.
\<close>

partial_function (option) slow_stb ::
  "('a cpu_x86_scheme) host \<Rightarrow> nat \<Rightarrow> u32 \<Rightarrow> u32 \<Rightarrow> u64 \<Rightarrow> 'a cpu_x86_scheme \<Rightarrow>
   (unit, 'a cpu_x86_scheme) access" where
  "slow_stb H mmu_idx retaddr addr val q =
     (let te = tlb_table q mmu_idx (tlb_index addr); tlb_addr = addr_write te in
      if tlb_matches addr tlb_addr then
        let physaddr = addr + addend te in
        if offset_bits tlb_addr \<noteq> 0 \<and> \<not> misaligned 0 addr then
          Some (Inr (), io_write H 0 physaddr val tlb_addr retaddr q)
        else if offset_bits tlb_addr \<noteq> 0 \<or> spans_pages 0 addr then
          slow_stb H mmu_idx retaddr (addr + 0) (drop_bit 0 val) q
        else Some (Inr (), st_raw 0 physaddr val q)
      else
        case tlb_fill (h_board H) (h_restore H) addr 1 mmu_idx retaddr q of
          (Some e, q1) \<Rightarrow> Some (Inl e, q1)
        | (None, q1) \<Rightarrow> slow_stb H mmu_idx retaddr addr val q1)"

text \<open>The loop over the bytes, the highest first; an exception ends it.\<close>

fun st_bytes ::
  "('a cpu_x86_scheme) host \<Rightarrow> nat \<Rightarrow> u32 \<Rightarrow> u32 \<Rightarrow> u64 \<Rightarrow> nat \<Rightarrow> 'a cpu_x86_scheme \<Rightarrow>
   (unit, 'a cpu_x86_scheme) access" where
  "st_bytes H mmu_idx retaddr addr val 0 q = Some (Inr (), q)"
| "st_bytes H mmu_idx retaddr addr val (Suc i) q =
     Option.bind (slow_stb H mmu_idx retaddr (addr + of_nat i) (DATA_TYPE 0 (drop_bit (i * 8) val)) q)
       (\<lambda>r. case r of
          (Inl e, q1) \<Rightarrow> Some (Inl e, q1)
        | (Inr _, q1) \<Rightarrow> st_bytes H mmu_idx retaddr addr val i q1)"

partial_function (option) slow_st ::
  "('a cpu_x86_scheme) host \<Rightarrow> nat \<Rightarrow> nat \<Rightarrow> u32 \<Rightarrow> u32 \<Rightarrow> u64 \<Rightarrow> 'a cpu_x86_scheme \<Rightarrow>
   (unit, 'a cpu_x86_scheme) access" where
  "slow_st H SHIFT mmu_idx retaddr addr val q =
     (let te = tlb_table q mmu_idx (tlb_index addr); tlb_addr = addr_write te in
      if tlb_matches addr tlb_addr then
        let physaddr = addr + addend te in
        if offset_bits tlb_addr \<noteq> 0 \<and> \<not> misaligned SHIFT addr then
          Some (Inr (), io_write H SHIFT physaddr val tlb_addr retaddr q)
        else if offset_bits tlb_addr \<noteq> 0 \<or> spans_pages SHIFT addr then
          st_bytes H mmu_idx retaddr addr val (2 ^ SHIFT) q
        else Some (Inr (), st_raw SHIFT physaddr val q)
      else
        case tlb_fill (h_board H) (h_restore H) addr 1 mmu_idx retaddr q of
          (Some e, q1) \<Rightarrow> Some (Inl e, q1)
        | (None, q1) \<Rightarrow> slow_st H SHIFT mmu_idx retaddr addr val q1)"

text \<open>\<^verbatim>\<open>__st\<close>.\<close>

partial_function (option) st_mmu ::
  "('a cpu_x86_scheme) host \<Rightarrow> nat \<Rightarrow> nat \<Rightarrow> u32 \<Rightarrow> u32 \<Rightarrow> u64 \<Rightarrow> 'a cpu_x86_scheme \<Rightarrow>
   (unit, 'a cpu_x86_scheme) access" where
  "st_mmu H SHIFT mmu_idx retaddr addr val q =
     (let te = tlb_table q mmu_idx (tlb_index addr); tlb_addr = addr_write te in
      if tlb_matches addr tlb_addr then
        let physaddr = addr + addend te in
        if offset_bits tlb_addr \<noteq> 0 \<and> \<not> misaligned SHIFT addr then
          Some (Inr (), io_write H SHIFT physaddr val tlb_addr retaddr q)
        else if offset_bits tlb_addr \<noteq> 0 \<or> spans_pages SHIFT addr then
          slow_st H SHIFT mmu_idx retaddr addr val q
        else Some (Inr (), st_raw SHIFT physaddr val q)
      else
        case tlb_fill (h_board H) (h_restore H) addr 1 mmu_idx retaddr q of
          (Some e, q1) \<Rightarrow> Some (Inl e, q1)
        | (None, q1) \<Rightarrow> st_mmu H SHIFT mmu_idx retaddr addr val q1)"

section \<open>The inline accesses\<close>

definition cpu_mmu_index :: "'a cpu_x86_scheme \<Rightarrow> nat" where
  "cpu_mmu_index q = (if hflags q AND 3 = 3 then 1 else 0)"

text \<open>
  The call that MemCheck adds at the head of every access, on MemCheck's own state; \<open>M\<close> is the
  machine it reads the guest through and \<open>am\<close> the indeterminate values its report prints.
\<close>

definition MemoryAccess_hook ::
  "'q Machine \<Rightarrow> ambient \<Rightarrow> nat \<Rightarrow> 'q \<Rightarrow> u32 \<Rightarrow> memcheck \<Rightarrow> memcheck" where
  "MemoryAccess_hook M am SHIFT q ptr s =
     (if SHIFT = 0 then MemoryAccess_b M am q ptr s
      else if SHIFT = 1 then MemoryAccess_w M am q ptr s
      else if SHIFT = 2 then MemoryAccess_l M am q ptr s
      else MemoryAccess_q M am q ptr s)"

text \<open>\<open>idx\<close> is \<^verbatim>\<open>CPU_MMU_INDEX\<close>: a constant mode, or the mode of the CPU.\<close>

definition fast_entry :: "nat \<Rightarrow> u32 \<Rightarrow> u32 \<Rightarrow> bool" where
  "fast_entry SHIFT addr tlb_addr \<longleftrightarrow>
     tlb_addr = addr AND (TARGET_PAGE_MASK OR (DATA_SIZE SHIFT - 1))"

definition ldu ::
  "('a cpu_x86_scheme) Machine \<Rightarrow> ambient \<Rightarrow> ('a cpu_x86_scheme) host \<Rightarrow> bool \<Rightarrow> nat \<Rightarrow>
   ('a cpu_x86_scheme \<Rightarrow> nat) \<Rightarrow> u32 \<Rightarrow> u32 \<Rightarrow> memcheck \<Rightarrow> 'a cpu_x86_scheme \<Rightarrow>
   memcheck \<times> (u64, 'a cpu_x86_scheme) access" where
  "ldu M am H code SHIFT idx retaddr ptr s q =
     (let mmu_idx = idx q; te = tlb_table q mmu_idx (tlb_index ptr) in
      (MemoryAccess_hook M am SHIFT q ptr s,
       if \<not> fast_entry SHIFT ptr (ADDR_READ code te) then ld_mmu H code SHIFT mmu_idx retaddr ptr q
       else Some (Inr (ld_raw SHIFT (ptr + addend te) q), q)))"

definition lds_raw :: "nat \<Rightarrow> u32 \<Rightarrow> 'a phys_scheme \<Rightarrow> u32" where
  "lds_raw SHIFT physaddr q =
     (let m = phys_ram q; a = physaddr - phys_ram_base q in
      if SHIFT = 0 then ldsb_p m a else ldsw_le_p m a)"

definition DATA_STYPE :: "nat \<Rightarrow> u64 \<Rightarrow> u32" where
  "DATA_STYPE SHIFT v = (if SHIFT = 0 then scast (ucast v :: u8) else scast (ucast v :: u16))"

definition lds ::
  "('a cpu_x86_scheme) Machine \<Rightarrow> ambient \<Rightarrow> ('a cpu_x86_scheme) host \<Rightarrow> bool \<Rightarrow> nat \<Rightarrow>
   ('a cpu_x86_scheme \<Rightarrow> nat) \<Rightarrow> u32 \<Rightarrow> u32 \<Rightarrow> memcheck \<Rightarrow> 'a cpu_x86_scheme \<Rightarrow>
   memcheck \<times> (u32, 'a cpu_x86_scheme) access" where
  "lds M am H code SHIFT idx retaddr ptr s q =
     (let mmu_idx = idx q; te = tlb_table q mmu_idx (tlb_index ptr) in
      (MemoryAccess_hook M am SHIFT q ptr s,
       if \<not> fast_entry SHIFT ptr (ADDR_READ code te)
       then map_option (apfst (map_sum id (DATA_STYPE SHIFT))) (ld_mmu H code SHIFT mmu_idx retaddr ptr q)
       else Some (Inr (lds_raw SHIFT (ptr + addend te) q), q)))"

definition st ::
  "('a cpu_x86_scheme) Machine \<Rightarrow> ambient \<Rightarrow> ('a cpu_x86_scheme) host \<Rightarrow> nat \<Rightarrow>
   ('a cpu_x86_scheme \<Rightarrow> nat) \<Rightarrow> u32 \<Rightarrow> u32 \<Rightarrow> u64 \<Rightarrow> memcheck \<Rightarrow> 'a cpu_x86_scheme \<Rightarrow>
   memcheck \<times> (unit, 'a cpu_x86_scheme) access" where
  "st M am H SHIFT idx retaddr ptr v s q =
     (let mmu_idx = idx q; te = tlb_table q mmu_idx (tlb_index ptr) in
      (MemoryAccess_hook M am SHIFT q ptr s,
       if \<not> fast_entry SHIFT ptr (addr_write te) then st_mmu H SHIFT mmu_idx retaddr ptr v q
       else Some (Inr (), st_raw SHIFT (ptr + addend te) v q)))"

end
