(* ===== verification/X86MMUProps.thy ===== *)
theory X86MMUProps
  imports X86MMU
begin

text \<open>
  The page walk: what a successful walk grants, that filling the TLB makes the access hit,
  and that the walk for debug accesses finds the page that the MMU uses.
\<close>

section \<open>Bits of table entries\<close>

lemma mask_bits:
  fixes x :: "'w::len word"
  shows "x AND 1 = 0 \<longleftrightarrow> \<not> bit x 0" "x AND 2 = 0 \<longleftrightarrow> \<not> bit x 1" "x AND 4 = 0 \<longleftrightarrow> \<not> bit x 2"
    "x AND 0x20 = 0 \<longleftrightarrow> \<not> bit x 5" "x AND 0x40 = 0 \<longleftrightarrow> \<not> bit x 6" "x AND 0x80 = 0 \<longleftrightarrow> \<not> bit x 7"
    "x AND 0x8000000000000000 = 0 \<longleftrightarrow> \<not> bit x 63"
  using and_exp_eq_0_iff_not_bit [of x 0] and_exp_eq_0_iff_not_bit [of x 1]
    and_exp_eq_0_iff_not_bit [of x 2] and_exp_eq_0_iff_not_bit [of x 5]
    and_exp_eq_0_iff_not_bit [of x 6] and_exp_eq_0_iff_not_bit [of x 7]
    and_exp_eq_0_iff_not_bit [of x 63]
  by simp_all

lemma bit_63_u32 [simp]: "\<not> bit (x :: u32) 63"
  by (auto dest: bit_imp_le_length)

lemma denied_cong:
  assumes "bit p 1 = bit p' 1" "bit p 2 = bit p' 2"
  shows "access_denied u w c p = access_denied u w c p'"
  using assms by (simp add: access_denied_def mask_bits)

text \<open>An entry after marking: only the accessed and the dirty bit can change.\<close>

lemma mark_entry_bit:
  "bit (fst (mark_entry B w a e q)) n \<longleftrightarrow>
     bit e n \<or> n = 5 \<and> 5 < LENGTH('w) \<or> n = 6 \<and> 6 < LENGTH('w) \<and> w"
  for e :: "'w::len word"
proof -
  have "bit (0x20 :: 'w word) n \<longleftrightarrow> n = 5 \<and> 5 < LENGTH('w)" "bit (0x40 :: 'w word) n \<longleftrightarrow> n = 6 \<and> 6 < LENGTH('w)"
    using bit_exp_iff [where 'a = "'w word", of 5 n] bit_exp_iff [where 'a = "'w word", of 6 n]
    by (auto simp: possible_bit_word)
  then show ?thesis
    unfolding mark_entry_def Let_def mask_bits by (auto simp: bit_or_iff)
qed

section \<open>What the walk does not touch\<close>

definition cpu_ctl where
  "cpu_ctl q = (cr q, a20_mask q, l1_phys_map q, io_mem_watch q)"

text \<open>The callbacks of devices do not change the state that controls address translation.\<close>

definition io_quiet :: "('a cpu_x86_scheme) board \<Rightarrow> bool" where
  "io_quiet B \<longleftrightarrow> (\<forall>r w a v q. cpu_ctl (snd (io_mem_read B r w a q)) = cpu_ctl q \<and>
     cpu_ctl (io_mem_write B r w a v q) = cpu_ctl q)"

lemma cpu_ctlD:
  "cpu_ctl q = cpu_ctl q' \<Longrightarrow> cr q = cr q'" "cpu_ctl q = cpu_ctl q' \<Longrightarrow> a20_mask q = a20_mask q'"
  "cpu_ctl q = cpu_ctl q' \<Longrightarrow> l1_phys_map q = l1_phys_map q'"
  "cpu_ctl q = cpu_ctl q' \<Longrightarrow> io_mem_watch q = io_mem_watch q'"
  by (simp_all add: cpu_ctl_def)

lemma cpu_ctl_update [simp]:
  "cpu_ctl (q\<lparr>phys_ram := m\<rparr>) = cpu_ctl q" "cpu_ctl (q\<lparr>watchpoints := ws\<rparr>) = cpu_ctl q"
  "cpu_ctl (q\<lparr>tlb_table := t\<rparr>) = cpu_ctl q" "cpu_ctl (q\<lparr>last_io_time := x\<rparr>) = cpu_ctl q"
  "cpu_ctl (q\<lparr>mem_write_vaddr := a\<rparr>) = cpu_ctl q" "cpu_ctl (q\<lparr>mem_write_pc := b\<rparr>) = cpu_ctl q"
  by (simp_all add: cpu_ctl_def)

lemma io_quietD:
  assumes "io_quiet B"
  shows "cpu_ctl (snd (io_mem_read B r w a q)) = cpu_ctl q"
    "io_mem_read B r w a q = (x, q') \<Longrightarrow> cpu_ctl q' = cpu_ctl q"
    "cpu_ctl (io_mem_write B r w a v q) = cpu_ctl q"
proof -
  show *: "cpu_ctl (snd (io_mem_read B r w a q)) = cpu_ctl q"
    "cpu_ctl (io_mem_write B r w a v q) = cpu_ctl q"
    using assms by (simp_all add: io_quiet_def)
  show "io_mem_read B r w a q = (x, q') \<Longrightarrow> cpu_ctl q' = cpu_ctl q" using *(1) by simp
qed

lemma phys_access_ctl:
  assumes "io_quiet B"
  shows "cpu_ctl (snd (ldl_phys B a q)) = cpu_ctl q" "cpu_ctl (snd (ldq_phys B a q)) = cpu_ctl q"
    "cpu_ctl (stl_phys_notdirty B a v q) = cpu_ctl q" "cpu_ctl (snd (mark_entry B w a e q)) = cpu_ctl q"
  using io_quietD(1,3) [OF assms]
  by (simp_all add: ldl_phys_def ldq_phys_def stl_phys_notdirty_def mark_entry_def Let_def
      split: prod.split) (metis snd_conv)

section \<open>What a walk that finds a page grants\<close>

text \<open>
  The page is the one of the address, the rights allow the access, and after a store the entry
  is dirty.
\<close>

definition walk_grants :: "u32 \<Rightarrow> bool \<Rightarrow> nat \<Rightarrow> u32 \<Rightarrow> walk \<Rightarrow> bool" where
  "walk_grants addr u w1 cr0 x \<longleftrightarrow> (case x of
     Fault _ \<Rightarrow> True
   | Page pte ptep va sz \<Rightarrow>
       \<not> access_denied u (odd w1) cr0 ptep \<and> (odd w1 \<longrightarrow> bit pte 6) \<and>
       (w1 = 2 \<longrightarrow> \<not> bit ptep 63) \<and>
       (\<exists>m. sz = m + 1 \<and> va = addr AND NOT m \<and> 0xfff AND m = 0xfff))"

lemma walk_grants_Fault [simp]: "walk_grants addr u w1 cr0 (Fault c)"
  by (simp add: walk_grants_def)

lemma page_sizes:
  "(0x1000 :: u32) = 0xfff + 1 \<and> 0xfff AND (0xfff :: u32) = 0xfff"
  "(0x200000 :: u32) = 0x1fffff + 1 \<and> 0xfff AND (0x1fffff :: u32) = 0xfff"
  "(0x400000 :: u32) = 0x3fffff + 1 \<and> 0xfff AND (0x3fffff :: u32) = 0xfff"
  by simp_all

lemma walk_grantsI:
  assumes "\<not> access_denied u (odd w1) cr0 ptep" "odd w1 \<Longrightarrow> bit pte 6" "w1 = 2 \<Longrightarrow> \<not> bit ptep 63"
    and "(va, sz) \<in> {(addr AND NOT 0xfff, 0x1000), (addr AND NOT 0x1fffff, 0x200000), (addr AND NOT 0x3fffff, 0x400000)}"
  shows "walk_grants addr u w1 cr0 (Page pte ptep va sz)"
proof -
  have "\<exists>m. sz = m + 1 \<and> va = addr AND NOT m \<and> 0xfff AND m = 0xfff"
    using assms(4) page_sizes by blast
  then show ?thesis using assms(1-3) by (simp add: walk_grants_def)
qed

lemma legacy_walk_grants:
  assumes "io_quiet B" "legacy_walk B addr u (odd w1) q = (x, q')"
  shows "cpu_ctl q' = cpu_ctl q \<and> walk_grants addr u w1 (cr q 0) x"
proof -
  define pa where "pa = legacy_pde_addr addr q"
  obtain pde q1 where 1: "ldl_phys B pa q = (pde, q1)" by fastforce
  note c1 = phys_access_ctl(1) [OF assms(1), of pa q, unfolded 1 snd_conv]
  consider (none) "\<not> bit pde 0" | (big) "bit pde 0" "bit pde 7" "cr q1 4 AND CR4_PSE_MASK \<noteq> 0"
    | (small) "bit pde 0" "\<not> (bit pde 7 \<and> cr q1 4 AND CR4_PSE_MASK \<noteq> 0)" by blast
  then show ?thesis
  proof cases
    case none
    then show ?thesis using assms(2) c1
      by (auto simp: legacy_walk_def Let_def pa_def [symmetric] 1 mask_bits)
  next
    case big
    obtain pde1 q2 where 2: "mark_entry B (odd w1) pa pde q1 = (pde1, q2)" by fastforce
    note c2 = phys_access_ctl(4) [OF assms(1), of "odd w1" pa pde q1, unfolded 2 snd_conv]
    note b2 = mark_entry_bit [of B "odd w1" pa pde q1, unfolded 2 fst_conv]
    have d: "access_denied u (odd w1) c (ucast (pde1 AND NOT 0x3ff000)) = access_denied u (odd w1) c (ucast pde)" for c
      by (rule denied_cong) (simp_all add: bit_simps b2)
    have g: "walk_grants addr u w1 (cr q 0) (Page (pde1 AND NOT 0x3ff000) (ucast (pde1 AND NOT 0x3ff000))
        (addr AND NOT 0x3fffff) 0x400000)" if "\<not> access_denied u (odd w1) (cr q1 0) (ucast pde)"
      using that unfolding cpu_ctlD(1) [OF c1]
      by (intro walk_grantsI) (simp_all only: d, simp_all add: bit_simps b2)
    show ?thesis using assms(2) big c1 c2 g
      by (auto simp: legacy_walk_def Let_def pa_def [symmetric] 1 2 mask_bits split: if_splits)
  next
    case small
    obtain pde1 q2 where 2: "mark_entry B False pa pde q1 = (pde1, q2)" by fastforce
    note c2 = phys_access_ctl(4) [OF assms(1), of False pa pde q1, unfolded 2 snd_conv]
    define ta where "ta = legacy_pte_addr pde1 addr q2"
    obtain pte q3 where 3: "ldl_phys B ta q2 = (pte, q3)" by fastforce
    note c3 = phys_access_ctl(1) [OF assms(1), of ta q2, unfolded 3 snd_conv]
    obtain pte1 q4 where 4: "mark_entry B (odd w1) ta pte q3 = (pte1, q4)" by fastforce
    note c4 = phys_access_ctl(4) [OF assms(1), of "odd w1" ta pte q3, unfolded 4 snd_conv]
    note b4 = mark_entry_bit [of B "odd w1" ta pte q3, unfolded 4 fst_conv]
    have g: "walk_grants addr u w1 (cr q 0) (Page pte1 (ucast (pte AND pde1)) (addr AND NOT 0xfff) 0x1000)"
      if "\<not> access_denied u (odd w1) (cr q3 0) (ucast (pte AND pde1))"
      using that c1 c2 c3 cpu_ctlD(1) [of q3 q] by (intro walk_grantsI) (simp_all add: bit_simps b4)
    show ?thesis using assms(2) small c1 c2 c3 c4 g
      by (auto simp: legacy_walk_def Let_def pa_def [symmetric] 1 2 3 4 ta_def [symmetric] mask_bits
          split: if_splits)
  qed
qed

text \<open>The walk with 64-bit entries.\<close>

lemma pae_leaf_grants:
  assumes "io_quiet B" "pae_leaf B addr w1 u pde p q = (x, q')"
  shows "cpu_ctl q' = cpu_ctl q \<and> walk_grants addr u w1 (cr q 0) x"
proof -
  define ta where "ta = pae_pte_addr (ucast pde) addr q"
  obtain pte q1 where 1: "ldq_phys B ta q = (pte, q1)" by fastforce
  note c1 = phys_access_ctl(2) [OF assms(1), of ta q, unfolded 1 snd_conv]
  obtain pte1 q2 where 2: "mark_entry B (odd w1) ta pte q1 = (pte1, q2)" by fastforce
  note c2 = phys_access_ctl(4) [OF assms(1), of "odd w1" ta pte q1, unfolded 2 snd_conv]
  note b2 = mark_entry_bit [of B "odd w1" ta pte q1, unfolded 2 fst_conv]
  define ptep where "ptep = (p AND (pte XOR PG_NX_MASK)) XOR PG_NX_MASK"
  have g: "walk_grants addr u w1 (cr q 0) (Page (ucast (pte1 AND 0xffffffff)) ptep (addr AND NOT 0xfff) 0x1000)"
    if "\<not> pae_denied w1 u (cr q1 0) ptep"
    using that cpu_ctlD(1) [OF c1]
    by (intro walk_grantsI) (auto simp: pae_denied_def mask_bits bit_simps b2)
  show ?thesis using assms(2) c1 c2 g
    by (auto simp: pae_leaf_def Let_def ta_def [symmetric] ptep_def [symmetric] 1 2 split: if_splits)
qed

lemma pae_walk_grants:
  assumes "io_quiet B" "pae_walk B addr w1 u q = (x, q')"
  shows "cpu_ctl q' = cpu_ctl q \<and> walk_grants addr u w1 (cr q 0) x"
proof -
  define ra where "ra = pdpe_addr addr q"
  obtain pdpe q1 where 1: "ldq_phys B ra q = (pdpe, q1)" by fastforce
  note c1 = phys_access_ctl(2) [OF assms(1), of ra q, unfolded 1 snd_conv]
  define pa where "pa = pae_pde_addr (ucast pdpe) addr q1"
  obtain pde q2 where 2: "ldq_phys B pa q1 = (pde, q2)" by fastforce
  note c2 = phys_access_ctl(2) [OF assms(1), of pa q1, unfolded 2 snd_conv]
  define p where "p = 0x8000000000000006 AND (pde XOR PG_NX_MASK)"
  have q2: "cpu_ctl q2 = cpu_ctl q" using c1 c2 by simp
  show ?thesis
  proof (cases "pde AND PG_PSE_MASK = 0")
    case True
    obtain pde1 q3 where 3: "mark_entry B False pa pde q2 = (pde1, q3)" by fastforce
    note c3 = phys_access_ctl(4) [OF assms(1), of False pa pde q2, unfolded 3 snd_conv]
    have q3: "cpu_ctl q3 = cpu_ctl q" using q2 c3 by simp
    show ?thesis
      using assms(2) True c1 q2 pae_leaf_grants [OF assms(1), of addr w1 u pde1 p q3 x q'] q3 cpu_ctlD(1) [OF q3]
      by (auto simp: pae_walk_def Let_def ra_def [symmetric] pa_def [symmetric] p_def [symmetric] 1 2 3
          split: if_splits)
  next
    case False
    obtain pde1 q3 where 3: "mark_entry B (odd w1) pa pde q2 = (pde1, q3)" by fastforce
    note c3 = phys_access_ctl(4) [OF assms(1), of "odd w1" pa pde q2, unfolded 3 snd_conv]
    note b3 = mark_entry_bit [of B "odd w1" pa pde q2, unfolded 3 fst_conv]
    have g: "walk_grants addr u w1 (cr q 0) (Page (ucast (pde1 AND 0xffe00fff)) (p XOR PG_NX_MASK)
        (addr AND NOT 0x1fffff) 0x200000)" if "\<not> pae_denied w1 u (cr q2 0) (p XOR PG_NX_MASK)"
      using that cpu_ctlD(1) [OF q2] by (intro walk_grantsI) (auto simp: pae_denied_def mask_bits bit_simps b3)
    show ?thesis using assms(2) False c1 q2 c3 g
      by (auto simp: pae_walk_def Let_def ra_def [symmetric] pa_def [symmetric] p_def [symmetric] 1 2 3
          split: if_splits)
  qed
qed

section \<open>Tables in RAM\<close>

lemma page_bits_cong: "(\<And>n. 12 \<le> n \<Longrightarrow> bit x n = bit y n) \<Longrightarrow> page_bits x = page_bits y"
  unfolding page_mask by (rule bit_word_eqI) (auto simp: bit_simps)

text \<open>Two aligned words are the same or disjoint.\<close>

lemma aligned_words:
  assumes "4 dvd unat a" "4 dvd unat b" "a \<noteq> b"
  shows "bytes4 a \<inter> bytes4 (b :: u32) = {}"
proof -
  have u: "unat (x + of_nat i) = unat x + i" if x: "4 dvd unat x" "i < 4" for x :: u32 and i
  proof -
    have "unat x < 4 * 0x40000000" using unat_less_pow32 [of x] by simp
    moreover obtain k where "unat x = 4 * k" using x(1) by blast
    ultimately have "unat x + i < 2 ^ 32" using x(2) by simp
    then show ?thesis by (simp add: unat_word_ariths unat_of_nat)
  qed
  have ne: "a + of_nat i \<noteq> b + of_nat j" if "i < 4" "j < 4" for i j
  proof
    assume "a + of_nat i = b + of_nat j"
    then have e: "unat a + i = unat b + j" using u assms(1,2) that by metis
    have "(unat a + i) div 4 = unat a div 4" "(unat b + j) div 4 = unat b div 4"
      using assms(1,2) that by (auto simp: dvd_def)
    then have "unat a div 4 = unat b div 4" using e by simp
    then have "unat a = unat b" using assms(1,2) by (metis dvd_mult_div_cancel)
    then show False using assms(3) by simp
  qed
  have "{..<4 :: nat} = {0, 1, 2, 3}" by auto
  then have im: "bytes4 x = (\<lambda>i. x + of_nat i) ` {..<4 :: nat}" for x :: u32 by simp
  show ?thesis
  proof (rule equals0I)
    fix x assume "x \<in> bytes4 a \<inter> bytes4 b"
    then obtain i j where "i < 4" "j < 4" "x = a + of_nat i" "x = b + of_nat j" unfolding im by auto
    then show False using ne [of i j] by simp
  qed
qed

lemma aligned_host: "4 dvd unat a \<Longrightarrow> 4 dvd unat (host_addr q a)"
proof -
  assume "4 dvd unat a"
  have "4 dvd unat (offset_bits a)" unfolding unat_offset by (rule dvd_mod) (use \<open>4 dvd unat a\<close> in auto)
  moreover have "4 dvd unat (page_bits p)" for p :: u32
    using unat_offset [of "page_bits p"] by (auto simp: mod_eq_0_iff_dvd elim: dvd_trans [rotated])
  ultimately show ?thesis
    unfolding host_addr_def ram_offset_def unat_word_ariths by (intro dvd_mod dvd_add) simp_all
qed

lemma aligned_and: "4 dvd unat a \<Longrightarrow> 4 dvd unat ((a :: u32) AND m)"
proof -
  have d: "4 dvd unat x \<longleftrightarrow> take_bit 2 x = 0" for x :: u32
    by (simp add: take_bit_eq_mod unat_arith_simps unat_mod mod_eq_0_iff_dvd)
  show "4 dvd unat a \<Longrightarrow> 4 dvd unat (a AND m)" by (simp add: d take_bit_and)
qed

lemma same: "\<exists>m. q = q\<lparr>phys_ram := m\<rparr>"
  by (rule exI [of _ "phys_ram q"]) simp

definition phys_word :: "'a phys_scheme \<Rightarrow> u32 \<Rightarrow> u32" where
  "phys_word q a = ldl_le_p (phys_ram q) (host_addr q a)"

lemma ldl_ram: "writable q a \<Longrightarrow> ldl_phys B a q = (phys_word q a, q)"
  by (simp add: ldl_phys_def writable_def is_io_read_def phys_word_def host_addr_def Let_def)

text \<open>After an entry has been marked, any aligned word is unchanged but for these two bits.\<close>

lemma mark_entry_ram:
  assumes "writable q a" "4 dvd unat a" "mark_entry B w a (phys_word q a) q = (e, q')"
  shows "\<exists>m. q' = q\<lparr>phys_ram := m\<rparr>"
    and "writable q' b = writable q b"
    and "4 dvd unat b \<Longrightarrow> n \<notin> {5, 6} \<Longrightarrow> bit (phys_word q' b) n = bit (phys_word q b) n"
proof -
  have st: "stl_phys_notdirty B a v q = q\<lparr>phys_ram := stl_le_p (host_addr q a) v (phys_ram q)\<rparr>" for v
    using assms(1) by (simp add: stl_phys_notdirty_def writable_def host_addr_def Let_def)
  have e: "bit e n = bit (phys_word q a) n" if "n \<notin> {5, 6}" for n
    using mark_entry_bit [of B w a "phys_word q a" q n] that by (simp add: assms(3))
  have c: "q' = q \<or> q' = q\<lparr>phys_ram := stl_le_p (host_addr q a) e (phys_ram q)\<rparr>"
    using assms(3) by (auto simp: mark_entry_def Let_def st split: if_splits)
  then show m: "\<exists>m. q' = q\<lparr>phys_ram := m\<rparr>"
    by (metis phys.surjective phys.update_convs(3))
  then have l: "l1_phys_map q' = l1_phys_map q" by auto
  then show "writable q' b = writable q b" by (rule map_cong_l1)
  show "bit (phys_word q' b) n = bit (phys_word q b) n" if b: "4 dvd unat b" and n: "n \<notin> {5, 6}"
  proof (cases "q' = q")
    case False
    then have q': "phys_ram q' = stl_le_p (host_addr q a) e (phys_ram q)" using c by auto
    have h: "host_addr q' b = host_addr q b" using l by (rule map_cong_l1)
    have "host_addr q a = host_addr q b \<or> bytes4 (host_addr q a) \<inter> bytes4 (host_addr q b) = {}"
      using aligned_words aligned_host assms(2) b by blast
    then show ?thesis
    proof
      assume "host_addr q a = host_addr q b"
      then show ?thesis using e [OF n] by (simp add: phys_word_def h q')
    next
      assume d: "bytes4 (host_addr q a) \<inter> bytes4 (host_addr q b) = {}"
      show ?thesis by (simp only: phys_word_def h q' ldl_stl_other [OF d])
    qed
  qed simp
qed

lemma legacy_addr_aligned: "4 dvd unat (legacy_pde_addr addr q)" "4 dvd unat (legacy_pte_addr pde addr q)"
proof -
  have "4 dvd unat (x AND 0xffc)" for x :: u32
    using aligned_and [of "0xffc" x] by (simp add: and.commute)
  moreover have "4 dvd unat (x AND NOT 0xfff)" for x :: u32
    using aligned_and [of "NOT 0xfff" x] by (simp add: and.commute)
  ultimately have "4 dvd unat ((x AND NOT 0xfff) + (y AND 0xffc))" for x y :: u32
    unfolding unat_word_ariths by (intro dvd_mod dvd_add) simp_all
  then show "4 dvd unat (legacy_pde_addr addr q)" "4 dvd unat (legacy_pte_addr pde addr q)"
    unfolding legacy_pde_addr_def legacy_pte_addr_def by (rule aligned_and)+
qed

section \<open>Debug accesses see the MMU's page\<close>

lemma virt_page:
  assumes "0xfff AND m = (0xfff :: u32)"
  shows "(addr AND NOT m) + (page_bits addr AND m) = page_bits addr"
proof -
  have "bit m n" if "n < 12" for n
  proof -
    have "bit (mask 12 AND m) n = bit (mask 12 :: u32) n" using assms by (simp only: page_mask)
    then show ?thesis using that by (simp add: bit_simps)
  qed
  then have m: "12 \<le> n" if "\<not> bit m n" for n using that not_less by blast
  have "page_bits addr AND NOT m = addr AND NOT m"
    unfolding page_mask by (intro bit_word_eqI) (auto simp: bit_simps dest: m)
  moreover have "(p AND NOT m) AND (p AND m) = 0" for p by (rule bit_word_eqI) (auto simp: bit_simps)
  then have "(p AND NOT m) + (p AND m) = (p AND NOT m) OR (p AND m)" for p
    by (rule disjunctive_add_eq_or)
  moreover have "(p AND NOT m) OR (p AND m) = p" for p by (rule bit_word_eqI) (auto simp: bit_simps)
  ultimately show ?thesis by metis
qed

definition legacy_tables :: "'a cpu_x86_scheme \<Rightarrow> u32 \<Rightarrow> bool" where
  "legacy_tables q addr \<longleftrightarrow> writable q (legacy_pde_addr addr q) \<and>
     writable q (legacy_pte_addr (phys_word q (legacy_pde_addr addr q)) addr q)"

text \<open>The walk of the MMU against the walk for debug accesses.\<close>

definition walks_agree :: "u32 \<Rightarrow> u32 \<Rightarrow> walk \<Rightarrow> (u32 \<times> u32) option \<Rightarrow> bool" where
  "walks_agree addr a20 x d \<longleftrightarrow> (case x of
     Fault c \<Rightarrow> c = 0 \<and> d = None \<or> c = PG_ERROR_P_MASK \<and> d \<noteq> None
   | Page pte ptep va sz \<Rightarrow>
       (\<exists>pte'. d = Some (pte', sz) \<and> page_bits (pte AND a20) = page_bits pte') \<and>
       va + (page_bits addr AND (sz - 1)) = page_bits addr)"

lemma pte_addr_cong:
  assumes "\<And>n. n \<notin> {5, 6} \<Longrightarrow> bit pde n = bit pde' n" "a20_mask q = a20_mask q'"
  shows "legacy_pte_addr pde addr q = legacy_pte_addr pde' addr q'"
proof -
  have "page_bits pde = page_bits pde'" by (rule page_bits_cong) (use assms(1) in auto)
  moreover have "NOT 0xfff = TARGET_PAGE_MASK" by simp
  ultimately show ?thesis by (simp only: legacy_pte_addr_def assms(2))
qed

lemma legacy_walk_debug:
  assumes "legacy_tables q addr" "cr q 0 AND CR0_PG_MASK \<noteq> 0"
    and "legacy_walk B addr u w q = (x, q')" "debug_legacy B addr q = (d, q'')"
  shows "q'' = q \<and> (\<exists>m. q' = q\<lparr>phys_ram := m\<rparr>) \<and> walks_agree addr (a20_mask q) x d"
proof -
  define pa where "pa = legacy_pde_addr addr q"
  define pde where "pde = phys_word q pa"
  define ta where "ta = legacy_pte_addr pde addr q"
  have wr: "writable q pa" "writable q ta"
    using assms(1) by (simp_all add: legacy_tables_def pa_def pde_def ta_def)
  have al: "4 dvd unat pa" "4 dvd unat ta" unfolding pa_def ta_def by (rule legacy_addr_aligned)+
  note ld = ldl_ram [OF wr(1), of B, folded pde_def]
  note dbg = assms(4) [unfolded debug_legacy_def Let_def pa_def [symmetric] ld prod.case ta_def [symmetric]
      ldl_ram [OF wr(2)]]
  note wk = assms(3) [unfolded legacy_walk_def Let_def pa_def [symmetric] ld prod.case]
  consider (none) "\<not> bit pde 0" | (big) "bit pde 0" "bit pde 7 \<and> cr q 4 AND CR4_PSE_MASK \<noteq> 0"
    | (small) "bit pde 0" "\<not> (bit pde 7 \<and> cr q 4 AND CR4_PSE_MASK \<noteq> 0)" by blast
  then show ?thesis
  proof cases
    case none
    then show ?thesis using wk dbg assms(2) by (auto simp: mask_bits walks_agree_def same)
  next
    case big
    obtain pde1 q2 where 2: "mark_entry B w pa pde q = (pde1, q2)" by fastforce
    note b2 = mark_entry_bit [of B w pa pde q, unfolded 2 fst_conv]
    have pb: "page_bits (pde1 AND NOT 0x3ff000 AND a20_mask q) = page_bits (pde AND NOT 0x3ff000 AND a20_mask q)"
      by (rule page_bits_cong) (auto simp: bit_simps b2)
    have v: "(addr AND NOT 0x3fffff) + (page_bits addr AND 0x3fffff) = page_bits addr" by (rule virt_page) simp
    show ?thesis
      using wk [unfolded 2 prod.case] dbg big assms(2) pb v
        mark_entry_ram(1) [OF wr(1) al(1), of B w, folded pde_def, OF 2]
      by (auto simp: mask_bits walks_agree_def same and.assoc split: if_splits)
  next
    case small
    obtain pde1 q2 where 2: "mark_entry B False pa pde q = (pde1, q2)" by fastforce
    note b2 = mark_entry_bit [of B False pa pde q, unfolded 2 fst_conv]
    note r2 = mark_entry_ram [OF wr(1) al(1), of B False, folded pde_def, OF 2]
    obtain m2 where q2: "q2 = q\<lparr>phys_ram := m2\<rparr>" using r2(1) by blast
    have ta: "legacy_pte_addr pde1 addr q2 = ta"
      unfolding ta_def by (rule pte_addr_cong) (auto simp: b2 q2)
    define pte where "pte = phys_word q2 ta"
    have p: "bit pte n = bit (phys_word q ta) n" if "n \<notin> {5, 6}" for n
      unfolding pte_def by (rule r2(3) [OF al(2) that])
    have w2: "writable q2 ta" using r2(2) wr(2) by simp
    obtain pte1 q3 where 3: "mark_entry B w ta pte q2 = (pte1, q3)" by fastforce
    note b3 = mark_entry_bit [of B w ta pte q2, unfolded 3 fst_conv]
    obtain m3 where q3: "q3 = q\<lparr>phys_ram := m3\<rparr>"
      using mark_entry_ram(1) [OF w2 al(2), of B w, folded pte_def, OF 3] q2 by auto
    have pb: "page_bits (pte1 AND a20_mask q) = page_bits (phys_word q ta AND a20_mask q)"
      by (rule page_bits_cong) (auto simp: bit_simps b3 p)
    have v: "(addr AND NOT 0xfff) + (page_bits addr AND 0xfff) = page_bits addr" by (rule virt_page) simp
    show ?thesis
      using wk [unfolded 2 prod.case ta ldl_ram [OF w2] pte_def [symmetric] 3] dbg small assms(2) pb v p [of 0]
      by (auto simp: mask_bits walks_agree_def q2 q3 split: if_splits)
  qed
qed

lemma offset_page_sum: "offset_bits (page_bits x + (page_bits y AND m)) = 0"
proof -
  have "offset_bits (page_bits y AND m) = 0"
    unfolding page_mask by (rule bit_word_eqI) (auto simp: bit_simps)
  then have "4096 dvd unat (page_bits x)" "4096 dvd unat (page_bits y AND m)"
    by (simp_all flip: offset_zero_iff)
  then show ?thesis
    unfolding offset_zero_iff unat_word_ariths by (intro dvd_mod dvd_add) simp_all
qed

lemma page_not_minus1: "page_bits x + (page_bits y AND m) \<noteq> -1"
proof
  assume "page_bits x + (page_bits y AND m) = -1"
  then have "offset_bits (-1) = (0 :: u32)" using offset_page_sum [of x y m] by simp
  then show False by simp
qed

lemma set_page_ret: "fst (tlb_set_page_exec vaddr paddr prot mmu_idx q) = 0"
  by (simp add: tlb_set_page_exec_def Let_def split: prod.split)

lemma do_fault_result:
  "fst (do_fault B addr w u code q) \<noteq> 0"
  "error_code (snd (do_fault B addr w u code q)) AND PG_ERROR_P_MASK = code AND PG_ERROR_P_MASK"
  by (simp_all add: do_fault_def Let_def word_ao_dist)

definition debug_agrees :: "u32 \<Rightarrow> nat \<Rightarrow> u32 \<Rightarrow> int \<times> 'a cpu_x86_scheme \<Rightarrow> bool" where
  "debug_agrees addr mmu_idx p r \<longleftrightarrow>
     (if fst r = 0 then p \<noteq> -1 \<and> (\<exists>prot q. r = tlb_set_page_exec (page_bits addr) p prot mmu_idx q)
      else (p = -1 \<longleftrightarrow> error_code (snd r) AND PG_ERROR_P_MASK = 0))"

text \<open>
  \<^bold>\<open>C21\<close>. Without physical address extension, the walk for debug accesses (with which MemCheck
  reads the guest) agrees with the MMU, for every kind of access and with or without paging:
  if the MMU maps the page of the address, it maps it to the page that the debug walk returns;
  if it raises a page fault, the debug walk fails exactly when the fault is that of a page
  that is not present. The page directory and the page table lie in RAM.
\<close>

theorem debug_walk_agrees_with_mmu:
  assumes "cr q 4 AND CR4_PAE_MASK = 0" "cr q 0 AND CR0_PG_MASK \<noteq> 0 \<Longrightarrow> legacy_tables q addr"
  shows "debug_agrees addr mmu_idx (fst (cpu_get_phys_page_debug B addr q))
    (cpu_x86_handle_mmu_fault B addr is_write1 mmu_idx q)"
proof (cases "cr q 0 AND CR0_PG_MASK = 0")
  case True
  have "page_bits addr AND 0xfff = 0" by (simp add: and.assoc)
  then show ?thesis
    using assms(1) True page_not_minus1 [of "addr AND a20_mask q" addr "0xfff"]
    by (auto simp: cpu_x86_handle_mmu_fault_def do_mapping_def cpu_get_phys_page_debug_def debug_legacy_def
        debug_agrees_def Let_def set_page_ret)
next
  case False
  define u where "u = (mmu_idx = MMU_USER_IDX)"
  obtain x q' where w: "legacy_walk B addr u (odd is_write1) q = (x, q')" by fastforce
  obtain d q'' where d: "debug_legacy B addr q = (d, q'')" by fastforce
  have a: "walks_agree addr (a20_mask q) x d" and m: "\<exists>m. q' = q\<lparr>phys_ram := m\<rparr>"
    using legacy_walk_debug [OF assms(2) False w d] False by blast+
  have a20: "a20_mask q' = a20_mask q" using m by auto
  have mmu: "cpu_x86_handle_mmu_fault B addr is_write1 mmu_idx q =
      (case x of Fault code \<Rightarrow> do_fault B addr is_write1 u code q'
       | Page pte ptep va sz \<Rightarrow> do_mapping addr pte va sz (mmu_prot u (cr q' 0) pte ptep) mmu_idx q')"
    unfolding cpu_x86_handle_mmu_fault_def Let_def u_def [symmetric] w using assms(1) False by simp
  note dbg = cpu_get_phys_page_debug_def [of B addr q]
  show ?thesis
  proof (cases x)
    case (Fault c)
    then show ?thesis
      using a assms(1) False page_not_minus1
      by (auto simp: dbg mmu d walks_agree_def debug_agrees_def do_fault_result
          split: option.split)
  next
    case (Page pte ptep va sz)
    then obtain pte' where "d = Some (pte', sz)" "page_bits (pte AND a20_mask q) = page_bits pte'"
      "va + (page_bits addr AND (sz - 1)) = page_bits addr"
      using a by (auto simp: walks_agree_def)
    then show ?thesis
      using assms(1) False page_not_minus1 Page
      by (auto simp: dbg mmu d debug_agrees_def do_mapping_def Let_def set_page_ret a20)
  qed
qed

text \<open>Paging with a directory at \<open>0x1000\<close>, a table at \<open>0x2000\<close> and one page at \<open>0x5000\<close>.\<close>

definition sample_ram :: mem where
  "sample_ram a = (if a = 0x1004 then 0x07 else if a = 0x1005 then 0x20
     else if a = 0x200c then 0x67 else if a = 0x200d then 0x50 else if a = 0x5123 then 0x2a else 0)"

definition sample_x86 :: cpu_x86 where
  "sample_x86 = \<lparr>l1_phys_map = [0 \<mapsto> \<lambda>i. of_nat (4096 * i)], phys_ram_base = 0x1000000,
     phys_ram = sample_ram, phys_ram_dirty = (\<lambda>_. 0xff),
     current_tb = None, mem_write_pc = 0, mem_write_vaddr = 0,
     tlb_table = (\<lambda>_ _. \<lparr>addr_read = -1, addr_write = -1, addr_code = -1, addend = 0\<rparr>),
     tb_jmp_cache = (\<lambda>_. None), watchpoints = [], io_mem_watch = 0x50,
     tlb_flush_count = 0, last_io_time = 0,
     regs = (\<lambda>_. 0), eip = 0, eflags = 0, hflags = 3,
     cr = (\<lambda>i. if i = 0 then 0x80000001 else if i = 3 then 0x1000 else 0),
     a20_mask = 0xffffffff, efer = 0, vm_vmcb = 0, intercept_exceptions = 0,
     exception_index = 0, error_code = 0, interrupt_request = 0, interrupt_lock = False,
     cpuid_features = 0\<rparr>"

definition quiet_board :: "cpu_x86 board" where
  "quiet_board = \<lparr>io_mem_read = (\<lambda>_ _ _ q. (0, q)), io_mem_write = (\<lambda>_ _ _ _ q. q),
     tb_invalidate_phys_page_range = (\<lambda>_ _ _ q. q)\<rparr>"

lemma sample_x86_desc: "cpu_get_physical_page_desc a sample_x86 =
  (case l1_phys_map sample_x86 (unat (drop_bit 10 (drop_bit 12 a) AND 0x3ff)) of
     None \<Rightarrow> IO_MEM_UNASSIGNED | Some pd \<Rightarrow> pd (unat (drop_bit 12 a AND 0x3ff)))"
  by (simp add: cpu_get_physical_page_desc_def phys_page_find_def split: option.split)

lemma sample_tables:
  "cpu_get_physical_page_desc 0x1004 sample_x86 = 0x1000"
  "cpu_get_physical_page_desc 0x200c sample_x86 = 0x2000"
  "legacy_pde_addr 0x403123 sample_x86 = 0x1004" "phys_word sample_x86 0x1004 = 0x2007"
  "legacy_pte_addr 0x2007 0x403123 sample_x86 = 0x200c" "phys_word sample_x86 0x200c = 0x5067"
  "cr sample_x86 0 = 0x80000001" "cr sample_x86 4 = 0" "a20_mask sample_x86 = 0xffffffff"
proof -
  show d: "cpu_get_physical_page_desc 0x1004 sample_x86 = 0x1000"
    "cpu_get_physical_page_desc 0x200c sample_x86 = 0x2000"
    by (simp_all add: sample_x86_desc, simp_all add: sample_x86_def)
  show "legacy_pde_addr 0x403123 sample_x86 = 0x1004" "legacy_pte_addr 0x2007 0x403123 sample_x86 = 0x200c"
    "cr sample_x86 0 = 0x80000001" "cr sample_x86 4 = 0" "a20_mask sample_x86 = 0xffffffff"
    by (simp_all add: legacy_pde_addr_def legacy_pte_addr_def sample_x86_def)
  have "phys_ram sample_x86 = sample_ram" by (simp add: sample_x86_def)
  then show "phys_word sample_x86 0x1004 = 0x2007" "phys_word sample_x86 0x200c = 0x5067"
    by (simp_all add: phys_word_def host_addr_def ram_offset_def d ldl_le_p_def sample_ram_def)
qed

lemma sample_legacy_tables: "legacy_tables sample_x86 0x403123"
  by (simp add: legacy_tables_def sample_tables writable_def)

theorem debug_walk_agrees_with_mmu_witness:
  "fst (cpu_get_phys_page_debug quiet_board 0x403123 sample_x86) = 0x5000 \<and>
   debug_agrees 0x403123 1 0x5000 (cpu_x86_handle_mmu_fault quiet_board 0x403123 1 1 sample_x86)"
proof -
  have "writable sample_x86 0x1004" "writable sample_x86 0x200c" by (simp_all add: writable_def sample_tables)
  note ld = ldl_ram [OF this(1)] ldl_ram [OF this(2)]
  have "fst (cpu_get_phys_page_debug quiet_board 0x403123 sample_x86) = 0x5000"
    by (simp add: cpu_get_phys_page_debug_def debug_legacy_def sample_tables ld)
  then show ?thesis
    using debug_walk_agrees_with_mmu [of sample_x86 "0x403123" 1 quiet_board 1] sample_legacy_tables
    by (simp add: sample_tables)
qed

section \<open>Debug accesses with physical address extension\<close>

definition phys_quad :: "'a phys_scheme \<Rightarrow> u32 \<Rightarrow> u64" where
  "phys_quad q a = ldq_le_p (phys_ram q) (host_addr q a)"

lemma ldq_ram: "writable q a \<Longrightarrow> ldq_phys B a q = (phys_quad q a, q)"
  by (simp add: ldq_phys_def writable_def is_io_read_def phys_quad_def host_addr_def Let_def)

lemma phys_word_quad: "phys_word q a = ucast (phys_quad q a)"
  unfolding phys_word_def phys_quad_def ldq_le_p_def
  by (rule bit_word_eqI) (auto simp: bit_simps)

lemma mark_entry_accessed: "bit e 5 \<Longrightarrow> mark_entry B False a e q = (e, q)"
  by (simp add: mark_entry_def mask_bits)

text \<open>A walk to an entry that is not present: pointer, directory entry and table entry in RAM.\<close>

definition pae_absent :: "'a cpu_x86_scheme \<Rightarrow> u32 \<Rightarrow> bool" where
  "pae_absent q addr \<longleftrightarrow>
     (let pdpe = phys_quad q (pdpe_addr addr q);
          pa = pae_pde_addr (ucast pdpe) addr q; pde = phys_quad q pa;
          ta = pae_pte_addr (ucast pde) addr q in
      writable q (pdpe_addr addr q) \<and> writable q pa \<and> writable q ta \<and> bit pdpe 0 \<and>
      bit pde 0 \<and> bit pde 5 \<and> \<not> bit pde 7 \<and> \<not> bit pde 63 \<and> \<not> bit (phys_quad q ta) 0)"

text \<open>
  \<^bold>\<open>C40\<close>. With physical address extension the debug walk does not test that the entry of a 4 KB
  page is present: where the MMU raises a page fault for a page that is not present, the debug
  walk returns a page address, so a debug read gets the bytes of an unrelated physical page
  instead of an error.
\<close>

theorem pae_debug_walk_ignores_present:
  assumes "cr q 4 AND CR4_PAE_MASK \<noteq> 0" "cr q 0 AND CR0_PG_MASK \<noteq> 0" "pae_absent q addr"
  shows "fst (cpu_get_phys_page_debug B addr q) \<noteq> -1 \<and>
    (case cpu_x86_handle_mmu_fault B addr is_write1 mmu_idx q of
       (ret, q') \<Rightarrow> ret \<noteq> 0 \<and> error_code q' AND PG_ERROR_P_MASK = 0)"
proof -
  define pdpe where "pdpe = phys_quad q (pdpe_addr addr q)"
  define pa where "pa = pae_pde_addr (ucast pdpe) addr q"
  define pde where "pde = phys_quad q pa"
  define ta where "ta = pae_pte_addr (ucast pde) addr q"
  have w: "writable q (pdpe_addr addr q)" "writable q pa" "writable q ta"
    and b: "bit pdpe 0" "bit pde 0" "bit pde 5" "\<not> bit pde 7" "\<not> bit pde 63" "\<not> bit (phys_quad q ta) 0"
    using assms(3) unfolding pae_absent_def Let_def pdpe_def [symmetric] pa_def [symmetric]
      pde_def [symmetric] ta_def [symmetric] by auto
  note ldq = ldq_ram [OF w(1), of B, folded pdpe_def] ldq_ram [OF w(2), of B, folded pde_def] ldq_ram [OF w(3), of B]
  note ldl = ldl_ram [OF w(1), of B, unfolded phys_word_quad pdpe_def [symmetric]]
    ldl_ram [OF w(2), of B, unfolded phys_word_quad pde_def [symmetric]] ldl_ram [OF w(3), of B]
  have "debug_pae B addr q = (Some (phys_word q ta, 0x1000), q)"
    using b by (simp add: debug_pae_def ldl pa_def [symmetric] ta_def [symmetric] mask_bits bit_simps)
  then have "fst (cpu_get_phys_page_debug B addr q) \<noteq> -1"
    using assms(1) page_not_minus1 [of "phys_word q ta" addr 0] by (simp add: cpu_get_phys_page_debug_def)
  moreover have "pae_walk B addr is_write1 u q = (Fault 0, q)" for u
    using b by (simp add: pae_walk_def pae_leaf_def ldq pa_def [symmetric] ta_def [symmetric] mask_bits
        nx_reserved_def mark_entry_accessed)
  then have "cpu_x86_handle_mmu_fault B addr is_write1 mmu_idx q =
      do_fault B addr is_write1 (mmu_idx = MMU_USER_IDX) 0 q"
    using assms(1,2) by (simp add: cpu_x86_handle_mmu_fault_def)
  ultimately show ?thesis
    using do_fault_result [of B addr is_write1 "mmu_idx = MMU_USER_IDX" 0 q]
    by (simp add: split_beta)
qed

definition pae_ram :: mem where
  "pae_ram a = (if a = 0x1000 then 0x01 else if a = 0x1001 then 0x20
     else if a = 0x2000 then 0x23 else if a = 0x2001 then 0x30 else 0)"

definition sample_pae :: cpu_x86 where
  "sample_pae = sample_x86\<lparr>phys_ram := pae_ram,
     cr := (\<lambda>i. if i = 0 then 0x80000001 else if i = 3 then 0x1000 else if i = 4 then 0x20 else 0)\<rparr>"

lemma sample_pae_tables:
  "cpu_get_physical_page_desc 0x1000 sample_pae = 0x1000"
  "cpu_get_physical_page_desc 0x2000 sample_pae = 0x2000"
  "cpu_get_physical_page_desc 0x3008 sample_pae = 0x3000"
  "pdpe_addr 0x1000 sample_pae = 0x1000" "phys_quad sample_pae 0x1000 = 0x2001"
  "pae_pde_addr 0x2001 0x1000 sample_pae = 0x2000" "phys_quad sample_pae 0x2000 = 0x3023"
  "pae_pte_addr 0x3023 0x1000 sample_pae = 0x3008" "phys_quad sample_pae 0x3008 = 0"
  "cr sample_pae 0 = 0x80000001" "cr sample_pae 4 = 0x20"
proof -
  have l: "l1_phys_map sample_pae = l1_phys_map sample_x86" by (simp add: sample_pae_def)
  show d: "cpu_get_physical_page_desc 0x1000 sample_pae = 0x1000"
    "cpu_get_physical_page_desc 0x2000 sample_pae = 0x2000"
    "cpu_get_physical_page_desc 0x3008 sample_pae = 0x3000"
    unfolding desc_cong [OF l] by (simp_all add: sample_x86_desc, simp_all add: sample_x86_def)
  show "pdpe_addr 0x1000 sample_pae = 0x1000" "pae_pde_addr 0x2001 0x1000 sample_pae = 0x2000"
    "pae_pte_addr 0x3023 0x1000 sample_pae = 0x3008" "cr sample_pae 0 = 0x80000001" "cr sample_pae 4 = 0x20"
    by (simp_all add: pdpe_addr_def pae_pde_addr_def pae_pte_addr_def sample_pae_def sample_tables)
  have "phys_ram sample_pae = pae_ram" by (simp add: sample_pae_def)
  then show "phys_quad sample_pae 0x1000 = 0x2001" "phys_quad sample_pae 0x2000 = 0x3023"
    "phys_quad sample_pae 0x3008 = 0"
    by (simp_all add: phys_quad_def host_addr_def ram_offset_def d ldq_le_p_def ldl_le_p_def pae_ram_def)
qed

theorem pae_debug_walk_ignores_present_witness:
  "fst (cpu_get_phys_page_debug quiet_board 0x1000 sample_pae) \<noteq> -1 \<and>
   (case cpu_x86_handle_mmu_fault quiet_board 0x1000 0 0 sample_pae of
      (ret, q') \<Rightarrow> ret \<noteq> 0 \<and> error_code q' AND PG_ERROR_P_MASK = 0)"
proof -
  have "pae_absent sample_pae 0x1000"
    by (simp add: pae_absent_def sample_pae_tables writable_def)
  then show ?thesis
    using pae_debug_walk_ignores_present [of sample_pae "0x1000" quiet_board 0 0]
    by (simp add: sample_pae_tables)
qed

end
