(* ===== verification/DebugRead.thy ===== *)
theory DebugRead
  imports ExecPhysProps
begin

text \<open>
  Debug reads of guest memory through a page translation: what \<^verbatim>\<open>cpu_memory_rw_debug\<close> puts
  in the buffer, and what an access that fails half-way leaves there.
\<close>

definition vaddr_of :: "(u32 \<Rightarrow> 'a phys_scheme \<Rightarrow> u32 \<times> 'a phys_scheme) \<Rightarrow> 'a phys_scheme \<Rightarrow> u32 \<Rightarrow> u32" where
  "vaddr_of gp q a = fst (gp (page_bits a) q) + offset_bits a"

text \<open>The page of \<open>a\<close> is mapped, to memory that can be read, and looking it up has no effect.\<close>

definition mapped :: "(u32 \<Rightarrow> 'a phys_scheme \<Rightarrow> u32 \<times> 'a phys_scheme) \<Rightarrow> 'a phys_scheme \<Rightarrow> u32 \<Rightarrow> bool" where
  "mapped gp q a \<longleftrightarrow> snd (gp (page_bits a) q) = q \<and> fst (gp (page_bits a) q) \<noteq> -1 \<and>
     readable q (vaddr_of gp q a)"

definition unmapped :: "(u32 \<Rightarrow> 'a phys_scheme \<Rightarrow> u32 \<times> 'a phys_scheme) \<Rightarrow> 'a phys_scheme \<Rightarrow> u32 \<Rightarrow> bool" where
  "unmapped gp q a \<longleftrightarrow> gp (page_bits a) q = (-1, q)"

definition vbyte :: "(u32 \<Rightarrow> 'a phys_scheme \<Rightarrow> u32 \<times> 'a phys_scheme) \<Rightarrow> 'a phys_scheme \<Rightarrow> u32 \<Rightarrow> u8" where
  "vbyte gp q a = ram_byte q (vaddr_of gp q a)"

lemma vaddr_in_page: "i < chunk a len \<Longrightarrow> vaddr_of gp q (a + of_nat i) = vaddr_of gp q a + of_nat i"
  using in_page(2,3) [OF in_chunk, of i a len] by (simp add: vaddr_of_def add.assoc)

text \<open>One round: the page of \<open>addr\<close> is mapped.\<close>

lemma debug_step:
  assumes "buf \<noteq> []" and l: "l = chunk addr (length buf)"
    and m: "\<And>i. i < l \<Longrightarrow> mapped gp q (addr + of_nat i)"
  shows "cpu_memory_rw_debug B gp addr buf False q =
    (case cpu_memory_rw_debug B gp (addr + of_nat l) (drop l buf) False q of
       (ret, bs, q') \<Rightarrow> (ret, map (\<lambda>i. vbyte gp q (addr + of_nat i)) [0..<l] @ bs, q'))"
proof -
  have l0: "0 < l" "l \<le> length buf" using assms(1) by (simp_all add: l chunk_pos chunk_le)
  have v: "vaddr_of gp q (addr + of_nat i) = vaddr_of gp q addr + of_nat i" if "i < l" for i
    using vaddr_in_page that by (simp add: l)
  have m0: "mapped gp q addr" using m [of 0] l0 by simp
  have "phys_read B (vaddr_of gp q addr) l q =
      (map (\<lambda>i. ram_byte q (vaddr_of gp q addr + of_nat i)) [0..<l], q)"
    by (rule phys_read_ram) (use m v in \<open>auto simp: mapped_def\<close>)
  moreover have "map (\<lambda>i. ram_byte q (vaddr_of gp q addr + of_nat i)) [0..<l] =
      map (\<lambda>i. vbyte gp q (addr + of_nat i)) [0..<l]"
    by (rule map_cong) (simp_all add: vbyte_def v)
  moreover obtain p where "gp (page_bits addr) q = (p, q)" "p \<noteq> -1" "p + offset_bits addr = vaddr_of gp q addr"
    using m0 unfolding mapped_def vaddr_of_def by (metis prod.collapse)
  ultimately show ?thesis
    using assms(1) l0
    by (subst cpu_memory_rw_debug.simps)
      (simp add: cpu_physical_memory_rw_def l [symmetric] Let_def min_absorb2)
qed

text \<open>A page boundary inside the range lies behind the first chunk.\<close>

lemma boundary_after_chunk:
  assumes "0 < k" "k < len" "offset_bits (a + of_nat k) = 0"
  shows "chunk a len \<le> k"
proof (rule ccontr)
  assume "\<not> chunk a len \<le> k"
  then have k: "k < chunk a len" by simp
  have "unat (a + of_nat k) mod 4096 = 0" using assms(3) unat_offset [of "a + of_nat k"] by simp
  moreover have "unat (a + of_nat k) = unat a + k" by (rule in_page(1) [OF in_chunk [OF k]])
  moreover have "unat a mod 4096 + k < 4096" using in_chunk [OF k] by (simp add: unat_offset)
  ultimately have "unat a mod 4096 + k = 0" by (metis mod_add_left_eq mod_less)
  with assms(1) show False by simp
qed

lemma debug_prefix:
  "\<forall>i<k. mapped gp q (addr + of_nat i) \<Longrightarrow> k < length buf \<Longrightarrow>
   unmapped gp q (addr + of_nat k) \<Longrightarrow> k = 0 \<or> offset_bits (addr + of_nat k) = 0 \<Longrightarrow>
   cpu_memory_rw_debug B gp addr buf False q =
     (-1, map (\<lambda>i. vbyte gp q (addr + of_nat i)) [0..<k] @ drop k buf, q)"
proof (induction k arbitrary: addr buf rule: less_induct)
  case (less k)
  have ne: "buf \<noteq> []" using less.prems(2) by auto
  show ?case
  proof (cases "k = 0")
    case True
    then show ?thesis
      using less.prems(3) ne by (subst cpu_memory_rw_debug.simps) (simp add: unmapped_def)
  next
    case False
    define l where "l = chunk addr (length buf)"
    have l: "0 < l" "l \<le> k"
      using ne False less.prems(2,4) boundary_after_chunk [of k "length buf" addr]
      by (simp_all add: l_def chunk_pos)
    have sh: "addr + of_nat l + of_nat i = addr + of_nat (l + i)" for i by (simp add: add.assoc)
    have k: "l + (k - l) = k" using l by simp
    have ih: "cpu_memory_rw_debug B gp (addr + of_nat l) (drop l buf) False q =
        (-1, map (\<lambda>i. vbyte gp q (addr + of_nat l + of_nat i)) [0..<k - l] @ drop (k - l) (drop l buf), q)"
    proof (rule less.IH)
      show "k - l < k" using l by simp
      show "\<forall>i<k - l. mapped gp q (addr + of_nat l + of_nat i)"
        unfolding sh using less.prems(1) by (simp del: of_nat_add)
      show "k - l < length (drop l buf)" using less.prems(2) l by simp
      show "unmapped gp q (addr + of_nat l + of_nat (k - l))" unfolding sh k by (rule less.prems(3))
      show "k - l = 0 \<or> offset_bits (addr + of_nat l + of_nat (k - l)) = 0"
        unfolding sh k using less.prems(4) False by blast
    qed
    have "map (\<lambda>i. vbyte gp q (addr + of_nat i)) [0..<k] =
        map (\<lambda>i. vbyte gp q (addr + of_nat i)) [0..<l] @
        map (\<lambda>i. vbyte gp q (addr + of_nat l + of_nat i)) [0..<k - l]"
      unfolding sh by (rule nth_equalityI) (use l in \<open>auto simp: nth_append simp del: of_nat_add\<close>)
    then show ?thesis
      using debug_step [OF ne l_def, of gp q B] less.prems(1) l ih by simp
  qed
qed

lemma debug_all:
  "\<forall>i<length buf. mapped gp q (addr + of_nat i) \<Longrightarrow>
   cpu_memory_rw_debug B gp addr buf False q =
     (0, map (\<lambda>i. vbyte gp q (addr + of_nat i)) [0..<length buf], q)"
proof (induction "length buf" arbitrary: addr buf rule: less_induct)
  case less
  show ?case
  proof (cases "buf = []")
    case True
    then show ?thesis by (simp add: cpu_memory_rw_debug.simps)
  next
    case False
    define l where "l = chunk addr (length buf)"
    have l: "0 < l" "l \<le> length buf" using False by (simp_all add: l_def chunk_pos chunk_le)
    have sh: "addr + of_nat l + of_nat i = addr + of_nat (l + i)" for i by (simp add: add.assoc)
    have "cpu_memory_rw_debug B gp (addr + of_nat l) (drop l buf) False q =
        (0, map (\<lambda>i. vbyte gp q (addr + of_nat l + of_nat i)) [0..<length (drop l buf)], q)"
    proof (rule less.hyps)
      show "length (drop l buf) < length buf" using l by simp
      show "\<forall>i<length (drop l buf). mapped gp q (addr + of_nat l + of_nat i)"
        unfolding sh using less.prems by (simp del: of_nat_add)
    qed
    then show ?thesis
      using debug_step [OF False l_def, of gp q B] less.prems l
      by (simp add: upt_chunk [of _ "length buf" addr] l_def [symmetric] add.assoc)
  qed
qed

end
