(* ===== verification/MemoryProps.thy ===== *)
theory MemoryProps
  imports DebugRead
begin

text \<open>
  Guest memory as the checker and the devices see it: a write followed by a read over any
  range of RAM pages, and the debug read that stops at the first page that is not mapped.
\<close>

section \<open>Physical memory\<close>

lemma read_after_write:
  assumes "write_ok B addr buf q q'" "\<forall>i<length buf. writable q (addr + of_nat i)"
  shows "phys_read B addr (length buf) q' = (buf, q')"
proof -
  have l: "l1_phys_map q' = l1_phys_map q" using assms(1) by (simp add: write_ok_def)
  have "\<forall>i<length buf. readable q' (addr + of_nat i)"
    using assms(2) writable_readable [of q] by (simp add: map_cong_l1 [OF l])
  moreover have "map (\<lambda>i. ram_byte q' (addr + of_nat i)) [0..<length buf] = buf"
    using assms(1) by (intro nth_equalityI) (simp_all add: ram_byte_def map_cong_l1(3) [OF l] write_ok_def)
  ultimately show ?thesis by (simp add: phys_read_ram)
qed

text \<open>
  \<^bold>\<open>C22\<close>. Writing a buffer to a range of physical addresses that lie on RAM pages, each byte on
  a host byte of its own, and reading the range back returns the buffer, however many pages
  the range spans; every other byte of RAM keeps its value. (Invalidating translated code is
  assumed not to touch guest memory, \<open>tb_frame\<close>.)
\<close>

theorem physical_write_read:
  assumes "tb_frame B" "length buf \<le> 2 ^ 32" "length buf' = length buf"
    and "\<forall>i<length buf. writable q (addr + of_nat i)" "distinct_ram q addr (length buf)"
  shows "(let q' = snd (cpu_physical_memory_rw B addr buf True q) in
     cpu_physical_memory_rw B addr buf' False q' = (buf, q') \<and>
     (\<forall>a. (\<forall>i<length buf. host_addr q a \<noteq> host_addr q (addr + of_nat i)) \<longrightarrow>
        ram_byte q' a = ram_byte q a))"
proof -
  define q' where "q' = phys_write B addr buf q"
  have w: "write_ok B addr buf q q'"
    unfolding q'_def by (rule phys_write_ram [OF assms(1,2,4,5)])
  have l: "l1_phys_map q' = l1_phys_map q" using w by (simp add: write_ok_def)
  have "ram_byte q' a = ram_byte q a"
    if "\<forall>i<length buf. host_addr q a \<noteq> host_addr q (addr + of_nat i)" for a
    using w that by (simp add: ram_byte_def map_cong_l1(3) [OF l] write_ok_def)
  then show ?thesis
    using read_after_write [OF w assms(4)] assms(3)
    by (simp add: cpu_physical_memory_rw_def q'_def [symmetric] Let_def)
qed

text \<open>Three pages of RAM, the second and the third swapped in host memory.\<close>

definition swap_page :: "nat \<Rightarrow> u32" where
  "swap_page i = (if i = 0 then 0 else if i = 1 then 0x2000 else if i = 2 then 0x1000
     else IO_MEM_UNASSIGNED)"

definition sample_phys :: phys where
  "sample_phys = \<lparr>l1_phys_map = [0 \<mapsto> swap_page], phys_ram_base = 0,
     phys_ram = (\<lambda>a. ucast a), phys_ram_dirty = (\<lambda>_. 0)\<rparr>"

definition no_board :: "phys board" where
  "no_board = \<lparr>io_mem_read = (\<lambda>_ _ _ q. (0, q)), io_mem_write = (\<lambda>_ _ _ _ q. q),
     tb_invalidate_phys_page_range = (\<lambda>_ _ _ q. q)\<rparr>"

lemmas sample_desc = cpu_get_physical_page_desc_def phys_page_find_def sample_phys_def swap_page_def

lemma less_4: "(\<forall>i<4. P (i :: nat)) \<longleftrightarrow> P 0 \<and> P 1 \<and> P 2 \<and> P 3" "{..<4 :: nat} = {0, 1, 2, 3}"
  by (auto simp: less_Suc_eq numeral_eq_Suc)

theorem physical_write_read_witness:
  "(let q' = snd (cpu_physical_memory_rw no_board 0xffe [1, 2, 3, 4] True sample_phys) in
    cpu_physical_memory_rw no_board 0xffe [0, 0, 0, 0] False q' = ([1, 2, 3, 4], q') \<and>
    ram_byte q' 0x2000 = ram_byte sample_phys 0x2000)"
proof -
  have B: "tb_frame no_board" by (simp add: tb_frame_def no_board_def)
  have h: "host_addr sample_phys 0xffe = 0xffe" "host_addr sample_phys 0xfff = 0xfff"
    "host_addr sample_phys 0x1000 = 0x2000" "host_addr sample_phys 0x1001 = 0x2001"
    "host_addr sample_phys 0x2000 = 0x1000"
    by (simp_all add: host_addr_def sample_desc ram_offset_def)
  have w: "\<forall>i<4. writable sample_phys (0xffe + of_nat i)"
    by (simp add: less_4 writable_def sample_desc)
  have d: "distinct_ram sample_phys 0xffe 4"
    by (simp add: distinct_ram_def less_4 h)
  have o: "\<forall>i<4. host_addr sample_phys 0x2000 \<noteq> host_addr sample_phys (0xffe + of_nat i)"
    by (simp add: less_4 h)
  have n: "length [1, 2, 3, 4 :: u8] = 4" "length [0, 0, 0, 0 :: u8] = 4" by simp_all
  have "(4 :: nat) \<le> 2 ^ 32" by simp
  note * = physical_write_read [OF B, of "[1, 2, 3, 4]" "[0, 0, 0, 0]" sample_phys "0xffe",
      unfolded n, OF this refl w d]
  show ?thesis using * o by (simp add: Let_def)
qed

section \<open>Debug reads\<close>

text \<open>
  \<^bold>\<open>C23\<close>. A debug read of a virtual range whose pages are all mapped to memory returns 0 and
  fills the buffer with the bytes of the range as the page translation sees them, across page
  boundaries, and changes no state.
\<close>

theorem debug_read_complete:
  assumes "\<forall>i<length buf. mapped gp q (addr + of_nat i)"
  shows "cpu_memory_rw_debug B gp addr buf False q =
    (0, map (\<lambda>i. vbyte gp q (addr + of_nat i)) [0..<length buf], q)"
  using assms by (rule debug_all)

text \<open>The translation that maps page \<open>0x5000\<close> to page 0 and \<open>0x6000\<close> to page \<open>0x1000\<close>.\<close>

definition sample_gp :: "u32 \<Rightarrow> phys \<Rightarrow> u32 \<times> phys" where
  "sample_gp a q = (if a = 0x5000 then 0 else if a = 0x6000 then 0x1000 else -1, q)"

lemmas sample_map = mapped_def vbyte_def ram_byte_def readable_def is_io_read_def host_addr_def
  ram_offset_def vaddr_of_def sample_gp_def sample_desc

theorem debug_read_complete_witness:
  "cpu_memory_rw_debug no_board sample_gp 0x5ffe [9, 9, 9, 9] False sample_phys =
   (0, [0xfe, 0xff, 0, 1], sample_phys)"
proof -
  have "\<forall>i<4. mapped sample_gp sample_phys (0x5ffe + of_nat i)"
    by (simp add: less_4 sample_map)
  moreover have n: "length [9, 9, 9, 9 :: u8] = 4" by simp
  moreover have "[0..<4] = [0, 1, 2, 3 :: nat]" by (simp add: upt_rec)
  moreover have "map (\<lambda>i. vbyte sample_gp sample_phys (0x5ffe + of_nat i)) [0, 1, 2, 3 :: nat] =
    [0xfe, 0xff, 0, 1]"
    by (simp add: sample_map)
  ultimately show ?thesis
    using debug_read_complete [of "[9, 9, 9, 9]" sample_gp sample_phys "0x5ffe" no_board, unfolded n]
    by presburger
qed

text \<open>
  \<^bold>\<open>C26\<close>. A debug read that runs into a page that is not mapped returns -1. The bytes before
  that page have been read, the rest of the buffer keeps what it held: a caller that does not
  test the return value sees a mixture of guest bytes and its own old data.
\<close>

theorem debug_read_partial:
  assumes "\<forall>i<k. mapped gp q (addr + of_nat i)" "k < length buf"
    and "unmapped gp q (addr + of_nat k)" "k = 0 \<or> offset_bits (addr + of_nat k) = 0"
  shows "cpu_memory_rw_debug B gp addr buf False q =
    (-1, map (\<lambda>i. vbyte gp q (addr + of_nat i)) [0..<k] @ drop k buf, q)"
  using assms by (rule debug_prefix)

theorem debug_read_partial_witness:
  "cpu_memory_rw_debug no_board sample_gp 0x6ffc [9, 8, 7, 6, 5, 4] False sample_phys =
   (-1, [0xfc, 0xfd, 0xfe, 0xff, 5, 4], sample_phys)"
proof -
  have "\<forall>i<4. mapped sample_gp sample_phys (0x6ffc + of_nat i)"
    by (simp add: less_4 sample_map)
  moreover have "unmapped sample_gp sample_phys (0x6ffc + of_nat 4)"
    by (simp add: unmapped_def sample_gp_def)
  moreover have "[0..<4] = [0, 1, 2, 3 :: nat]" by (simp add: upt_rec)
  moreover have "map (\<lambda>i. vbyte sample_gp sample_phys (0x6ffc + of_nat i)) [0, 1, 2, 3 :: nat] =
    [0xfc, 0xfd, 0xfe, 0xff]"
    by (simp add: sample_map)
  ultimately show ?thesis
    using debug_read_partial [of 4 sample_gp sample_phys "0x6ffc" "[9, 8, 7, 6, 5, 4]" no_board]
    by simp
qed

end
