(* ===== verification/SoftMMUProps.thy ===== *)
theory SoftMMUProps
  imports SoftMMU X86MMUProps MemoryProps
begin

text \<open>
  Guest memory accesses: a TLB fill always makes the access hit, so every access returns or
  raises an exception; the inline test of the macros only ever takes the same path as the full
  function; the value of a load is the one the page tables lead to.
\<close>

section \<open>Descriptors\<close>

text \<open>
  The low four bits of a descriptor are flags of which only \<^verbatim>\<open>IO_MEM_ROMD\<close> is used, and a
  descriptor of an I/O region has no page number.
\<close>

definition desc_wf :: "u32 \<Rightarrow> bool" where
  "desc_wf pd \<longleftrightarrow> pd AND 0xe = 0 \<and> (is_io_read pd \<longrightarrow> page_bits pd = 0)"

definition good_map :: "'a cpu_common_scheme \<Rightarrow> bool" where
  "good_map q \<longleftrightarrow> (\<forall>a. desc_wf (cpu_get_physical_page_desc a q)) \<and>
     io_mem_watch q AND (TARGET_PAGE_MASK OR 0xf) = 0"

lemma good_map_ctl: "cpu_ctl q = cpu_ctl q' \<Longrightarrow> good_map q = good_map q'"
proof -
  assume c: "cpu_ctl q = cpu_ctl q'"
  have "cpu_get_physical_page_desc a q = cpu_get_physical_page_desc a q'" for a
    by (rule desc_cong) (rule cpu_ctlD(3) [OF c])
  then show ?thesis unfolding good_map_def cpu_ctlD(4) [OF c] by simp
qed

text \<open>An address field for the page of \<open>v\<close>: the page and region bits above the flags.\<close>

definition field_of :: "u32 \<Rightarrow> u32 \<Rightarrow> bool" where
  "field_of v t \<longleftrightarrow> (\<exists>x. t = v OR x \<and> x AND 0xfffff00f = 0)"

lemma field_ofI: "x AND 0xfffff00f = 0 \<Longrightarrow> field_of v (v OR x)"
  unfolding field_of_def by blast

lemma field_of_refl [simp]: "field_of v v"
  using field_ofI [of 0 v] by simp

lemma field_matches:
  assumes "field_of (page_bits addr) t"
  shows "tlb_matches addr t"
proof -
  obtain x where t: "t = page_bits addr OR x" and x: "x AND 0xfffff00f = 0"
    using assms by (auto simp: field_of_def)
  have "x AND 0xfffff008 = (x AND 0xfffff00f) AND 0xfffff008" by (simp add: and.assoc)
  then have "x AND 0xfffff008 = 0" using x by simp
  then show ?thesis by (simp add: tlb_matches_def t word_ao_dist and.assoc)
qed

section \<open>A filled entry hits\<close>

definition watch_field :: "u32 \<Rightarrow> u32 \<times> u32 \<times> watchpoint list \<Rightarrow> bool" where
  "watch_field v x \<longleftrightarrow> (case x of (address, pd, ws) \<Rightarrow> field_of v address \<and> pd AND 0xe = 0)"

lemma watch_fold_field:
  assumes "iow AND 0xfffff00f = 0" "watch_field v x"
  shows "watch_field v (fold (watch_page iow base v paddr) is x)"
  using assms(2)
proof (induction "is" arbitrary: x)
  case (Cons i "is")
  have "iow AND 0xe = (iow AND 0xfffff00f) AND 0xe" by (simp add: and.assoc)
  then have "iow AND 0xe = 0" using assms(1) by simp
  then have "watch_field v (watch_page iow base v paddr i x)"
    using Cons.prems field_ofI [OF assms(1)]
    by (auto simp: watch_field_def watch_page_def word_ao_dist and.assoc split: prod.splits)
  then show ?case using Cons.IH by simp
qed simp

definition tlb_field :: "nat \<Rightarrow> CPUTLBEntry \<Rightarrow> u32" where
  "tlb_field w te = (if w = 0 then addr_read te else if w = 1 then addr_write te else addr_code te)"

lemma io_low: "x AND 0xe = 0 \<Longrightarrow> page_bits x = 0 \<Longrightarrow> x AND 1 = 0 \<Longrightarrow> x AND 0xfffff00f = (0 :: u32)"
proof -
  assume "x AND 0xe = 0" "page_bits x = 0" "x AND 1 = 0"
  moreover have "x AND 0xfffff00f = (x AND 0xe) OR (page_bits x) OR (x AND 1)"
    by (simp flip: word_ao_dist2)
  ultimately show ?thesis by simp
qed

lemma set_page_entry_field:
  assumes "field_of v address" "pd AND 0xe = 0" "prot AND 2 ^ w \<noteq> 0" "w < 3"
  shows "field_of v (tlb_field w (set_page_entry v prot address pd a q))"
proof -
  have "(pd AND 0xffe) AND 0xfffff00f = pd AND 0xe" by (simp add: and.assoc)
  then have "field_of v (v OR (pd AND 0xffe))" using assms(2) by (intro field_ofI) simp
  moreover have "(- 0xfffff002 :: u32) = 0xffe" by simp
  ultimately have "field_of v (v OR (pd AND - 0xfffff002))" by (simp only:)
  moreover have "field_of v (v OR 0x40)" by (rule field_ofI) simp
  moreover have "w = 0 \<or> w = 1 \<or> w = 2" using assms(4) by auto
  ultimately show ?thesis
    using assms(1,3) by (auto simp: tlb_field_def set_page_entry_def)
qed

lemma set_page_field:
  assumes "good_map q" "prot AND 2 ^ w \<noteq> 0" "w < 3" "offset_bits v = 0"
  shows "field_of v (tlb_field w (tlb_table (snd (tlb_set_page_exec v paddr prot idx q)) idx (tlb_index v)))"
proof -
  define pd where "pd = cpu_get_physical_page_desc paddr q"
  have pd: "pd AND 0xe = 0" "is_io_read pd \<Longrightarrow> page_bits pd = 0"
    using assms(1) by (auto simp: good_map_def desc_wf_def pd_def)
  obtain a0 d0 where b: "set_page_base v paddr pd q = (a0, d0)" by fastforce
  have "field_of v a0"
    using b pd io_low [of pd] by (auto simp: set_page_base_def is_io_read_def split: if_splits intro: field_ofI)
  then have "watch_field v (a0, pd, watchpoints q)" by (simp add: watch_field_def pd)
  moreover have "io_mem_watch q AND 0xfffff00f = 0" using assms(1) by (simp add: good_map_def)
  moreover obtain a p ws where f: "fold (watch_page (io_mem_watch q) (phys_ram_base q) v paddr)
      [0..<length (watchpoints q)] (a0, pd, watchpoints q) = (a, p, ws)" by (metis prod_cases3)
  ultimately have "watch_field v (a, p, ws)" by (metis watch_fold_field)
  then have "field_of v a" "p AND 0xe = 0" by (simp_all add: watch_field_def)
  then show ?thesis
    using set_page_entry_field [OF _ _ assms(2,3)] by (simp add: tlb_set_page_exec_def pd_def [symmetric] b f)
qed

lemma set_page_ctl: "cpu_ctl (snd (tlb_set_page_exec v paddr prot idx q)) = cpu_ctl q"
  by (simp add: tlb_set_page_exec_def Let_def split: prod.split)

lemma tlb_index_page: "tlb_index (page_bits addr) = tlb_index addr"
  by (simp only: tlb_index_def drop_page)

lemma do_mapping_hit:
  assumes "do_mapping addr pte va sz prot idx q = r" "good_map q" "prot AND 2 ^ w \<noteq> 0" "w < 3"
    and "va + (page_bits addr AND (sz - 1)) = page_bits addr"
  shows "tlb_matches addr (tlb_field w (tlb_table (snd r) idx (tlb_index addr)))" "cpu_ctl (snd r) = cpu_ctl q"
proof -
  have r: "r = tlb_set_page_exec (page_bits addr) (page_bits (pte AND a20_mask q) + (page_bits addr AND (sz - 1))) prot idx q"
    using assms(1,5) by (simp add: do_mapping_def Let_def)
  show "tlb_matches addr (tlb_field w (tlb_table (snd r) idx (tlb_index addr)))"
    unfolding r using set_page_field [OF assms(2-4), of "page_bits addr"]
    by (intro field_matches) (simp add: tlb_index_page)
  show "cpu_ctl (snd r) = cpu_ctl q" by (simp add: r set_page_ctl)
qed

lemma mmu_prot_grants:
  assumes "walk_grants addr u w cr0 (Page pte ptep va sz)" "w < 3"
  shows "mmu_prot u cr0 pte ptep AND 2 ^ w \<noteq> 0"
proof -
  have "w = 0 \<or> w = 1 \<or> w = 2" using assms(2) by auto
  then show ?thesis
    using assms(1) by (auto simp: walk_grants_def mmu_prot_def access_denied_def mask_bits bit_simps
        split: if_splits)
qed

lemma mmu_fill_hit:
  assumes "io_quiet B" "good_map q" "w < 3" "cpu_x86_handle_mmu_fault B addr w idx q = (0, q')"
  shows "tlb_matches addr (tlb_field w (tlb_table q' idx (tlb_index addr))) \<and> cpu_ctl q' = cpu_ctl q"
proof (cases "cr q 0 AND CR0_PG_MASK = 0")
  case True
  have p: "(7 :: u32) AND 2 ^ w \<noteq> 0"
  proof -
    have "w = 0 \<or> w = 1 \<or> w = 2" using assms(3) by auto
    then show ?thesis by auto
  qed
  have "do_mapping addr addr (page_bits addr) 0x1000 7 idx q = (0, q')"
    using assms(4) True by (simp add: cpu_x86_handle_mmu_fault_def)
  moreover have "page_bits addr + (page_bits addr AND (0x1000 - 1)) = page_bits addr" by (simp add: and.assoc)
  ultimately show ?thesis using do_mapping_hit [OF _ assms(2) p assms(3)] by (metis snd_conv)
next
  case False
  define u where "u = (idx = MMU_USER_IDX)"
  obtain x q1 where x: "(if cr q 4 AND CR4_PAE_MASK \<noteq> 0 then pae_walk B addr w u q
      else legacy_walk B addr u (odd w) q) = (x, q1)" by fastforce
  then have c: "cpu_ctl q1 = cpu_ctl q" and g: "walk_grants addr u w (cr q1 0) x"
    using pae_walk_grants [OF assms(1), of addr w u q x q1] legacy_walk_grants [OF assms(1), of addr u w q x q1]
      cpu_ctlD(1) [of q1 q] by (auto split: if_splits)
  have r: "(case x of Fault code \<Rightarrow> do_fault B addr w u code q1
       | Page pte ptep va sz \<Rightarrow> do_mapping addr pte va sz (mmu_prot u (cr q1 0) pte ptep) idx q1) = (0, q')"
    using assms(4) False unfolding cpu_x86_handle_mmu_fault_def Let_def u_def [symmetric] x by simp
  show ?thesis
  proof (cases x)
    case (Fault code)
    then show ?thesis using r do_fault_result(1) [of B addr w u code q1] by simp
  next
    case (Page pte ptep va sz)
    obtain m where "sz = m + 1" "va = addr AND NOT m" "0xfff AND m = 0xfff"
      using g by (auto simp: Page walk_grants_def)
    then have "va + (page_bits addr AND (sz - 1)) = page_bits addr" using virt_page by simp
    moreover have "do_mapping addr pte va sz (mmu_prot u (cr q1 0) pte ptep) idx q1 = (0, q')"
      using r Page by simp
    moreover have "mmu_prot u (cr q1 0) pte ptep AND 2 ^ w \<noteq> 0"
      using mmu_prot_grants g assms(3) Page by blast
    ultimately show ?thesis
      using do_mapping_hit [of addr pte va sz _ idx q1 "(0, q')"] good_map_ctl [OF c] assms(2,3) c by auto
  qed
qed

section \<open>Every access returns\<close>

lemma tlb_fill_hit:
  assumes "io_quiet B" "good_map q" "w < 3" "tlb_fill B restore addr w idx ra q = (None, q')"
  shows "tlb_matches addr (tlb_field w (tlb_table q' idx (tlb_index addr)))" "cpu_ctl q' = cpu_ctl q"
proof -
  have "cpu_x86_handle_mmu_fault B addr w idx q = (0, q')"
    using assms(4) by (auto simp: tlb_fill_def Let_def split: prod.splits if_splits)
  then show "tlb_matches addr (tlb_field w (tlb_table q' idx (tlb_index addr)))" "cpu_ctl q' = cpu_ctl q"
    using mmu_fill_hit [OF assms(1-3)] by blast+
qed

lemma ADDR_READ_field: "ADDR_READ code te = tlb_field (READ_ACCESS_TYPE code) te" "READ_ACCESS_TYPE code < 3"
  by (simp_all add: ADDR_READ_def READ_ACCESS_TYPE_def tlb_field_def)

lemma io_access_ctl:
  assumes "io_quiet (h_board H)"
  shows "cpu_ctl (snd (io_read H n p t q)) = cpu_ctl q" "cpu_ctl (io_write H n p v t r q) = cpu_ctl q"
  using io_quietD [OF assms] by (auto simp: io_read_def io_write_def Let_def split: prod.split)

lemma misaligned_iff: "n \<le> 3 \<Longrightarrow> misaligned n a \<longleftrightarrow> \<not> 2 ^ n dvd unat a"
proof -
  assume "n \<le> 3"
  have "a AND (push_bit n 1 - 1) = take_bit n a"
    by (simp add: take_bit_eq_mask mask_eq_exp_minus_1 push_bit_eq_mult)
  moreover have "unat (take_bit n a) = unat a mod 2 ^ n" unfolding unsigned_take_bit_eq by (rule take_bit_eq_mod)
  ultimately show ?thesis
    unfolding misaligned_def by (metis dvd_eq_mod_eq_0 unat_zero_iff)
qed

lemma aligned_room:
  assumes "n \<le> 3" "\<not> misaligned n a"
  shows "unat (offset_bits a) + 2 ^ n \<le> 4096"
proof -
  have d: "(2 :: nat) ^ n dvd 4096" using le_imp_power_dvd [of n 12 "2 :: nat"] assms(1) by simp
  then obtain l :: nat where l: "4096 = 2 ^ n * l" by blast
  have "2 ^ n dvd unat (offset_bits a)"
    unfolding unat_offset using misaligned_iff [OF assms(1), of a] assms(2) d by (intro dvd_mod) simp_all
  then obtain j where j: "unat (offset_bits a) = 2 ^ n * j" by blast
  have "2 ^ n * j < 2 ^ n * l" using offset_less [of a, unfolded j] l by linarith
  then have "Suc j \<le> l" by simp
  then have "2 ^ n * Suc j \<le> 2 ^ n * l" by (rule mult_le_mono2)
  then show ?thesis using j l by (simp add: add.commute)
qed

lemma spans_nat:
  assumes "n \<le> 3"
  shows "spans_pages n a \<longleftrightarrow> 4096 < unat (offset_bits a) + 2 ^ n"
proof -
  define k :: nat where "k = 2 ^ n"
  have k: "k \<le> 8" "0 < k" using power_increasing [OF assms, of "2 :: nat"] by (simp_all add: k_def)
  have p: "push_bit n 1 = (of_nat k :: u32)" by (simp add: push_bit_eq_mult k_def)
  have u: "unat (offset_bits a + of_nat k) = unat (offset_bits a) + k"
    using offset_less [of a] k(1) by (simp add: unat_word_ariths unat_of_nat)
  then have "1 \<le> offset_bits a + of_nat k" using k(2) by (simp add: word_le_nat_alt)
  then have "unat (offset_bits a + of_nat k - 1) = unat (offset_bits a) + k - 1"
    by (simp add: unat_sub u)
  then show ?thesis unfolding spans_pages_def p word_le_nat_alt k_def [symmetric] using k(2) by auto
qed

lemma aligned_not_spans: "n \<le> 3 \<Longrightarrow> \<not> misaligned n a \<Longrightarrow> \<not> spans_pages n a"
  using aligned_room [of n a] by (simp add: spans_nat)

definition returns :: "('v, 'a cpu_x86_scheme) access \<Rightarrow> 'a cpu_x86_scheme \<Rightarrow> bool" where
  "returns r q \<longleftrightarrow> (\<exists>x q'. r = Some (x, q') \<and> (\<forall>v. x = Inr v \<longrightarrow> cpu_ctl q' = cpu_ctl q))"

lemma returns_cong: "returns r q1 \<Longrightarrow> cpu_ctl q1 = cpu_ctl q \<Longrightarrow> returns r q"
  by (simp add: returns_def)

text \<open>The loop that all four functions share: a miss fills the TLB and tries again.\<close>

lemma redo_returns:
  assumes "io_quiet (h_board H)" "good_map q" "w < 3"
    and miss: "\<And>s. \<not> tlb_matches addr (tlb_field w (tlb_table s idx (tlb_index addr))) \<Longrightarrow>
      f s = (case tlb_fill (h_board H) (h_restore H) addr w idx ra s of
        (Some e, q1) \<Rightarrow> Some (Inl e, q1) | (None, q1) \<Rightarrow> f q1)"
    and hit: "\<And>s. tlb_matches addr (tlb_field w (tlb_table s idx (tlb_index addr))) \<Longrightarrow> good_map s \<Longrightarrow>
      returns (f s) s"
  shows "returns (f q) q"
proof (cases "tlb_matches addr (tlb_field w (tlb_table q idx (tlb_index addr)))")
  case False
  obtain e q1 where f: "tlb_fill (h_board H) (h_restore H) addr w idx ra q = (e, q1)" by fastforce
  show ?thesis
  proof (cases e)
    case None
    note h = tlb_fill_hit [OF assms(1-3) f [unfolded None]]
    have "returns (f q1) q1" using hit h good_map_ctl [OF h(2)] assms(2) by simp
    then show ?thesis using miss [OF False] f None returns_cong [OF _ h(2)] by simp
  qed (use miss [OF False] f in \<open>simp add: returns_def\<close>)
qed (rule hit [OF _ assms(2)])

lemma slow_ld_aligned:
  assumes "io_quiet (h_board H)" "good_map q" "n \<le> 3" "\<not> misaligned n addr"
  shows "returns (slow_ld H code n idx ra addr q) q"
proof (rule redo_returns [OF assms(1,2) ADDR_READ_field(2) [of code]])
  fix s :: "'a cpu_x86_scheme" assume "tlb_matches addr (tlb_field (READ_ACCESS_TYPE code) (tlb_table s idx (tlb_index addr)))"
  then show "returns (slow_ld H code n idx ra addr s) s"
    using assms(4) aligned_not_spans [OF assms(3,4)] io_access_ctl(1) [OF assms(1)]
    by (subst slow_ld.simps) (auto simp: returns_def Let_def ADDR_READ_field split_beta)
qed (subst slow_ld.simps, simp add: ADDR_READ_field)

lemma aligned_parts:
  assumes "n \<le> 3"
  shows "\<not> misaligned n (a AND NOT (DATA_SIZE n - 1))"
    "\<not> misaligned n ((a AND NOT (DATA_SIZE n - 1)) + DATA_SIZE n)"
proof -
  show *: "\<not> misaligned n (a AND NOT (DATA_SIZE n - 1))" by (simp add: misaligned_def and.assoc)
  have "n = 0 \<or> n = 1 \<or> n = 2 \<or> n = 3" using assms by auto
  then have "2 ^ n dvd unat (DATA_SIZE n :: u32)" by (elim disjE) simp_all
  moreover have "2 ^ n dvd (2 ^ 32 :: nat)" using assms by (intro le_imp_power_dvd) simp
  ultimately show "\<not> misaligned n ((a AND NOT (DATA_SIZE n - 1)) + DATA_SIZE n)"
    using * misaligned_iff [OF assms] by (simp add: unat_word_ariths dvd_mod)
qed

lemma slow_ld_returns:
  assumes "io_quiet (h_board H)" "good_map q" "n \<le> 3"
  shows "returns (slow_ld H code n idx ra addr q) q"
proof (rule redo_returns [OF assms(1,2) ADDR_READ_field(2) [of code]])
  fix s :: "'a cpu_x86_scheme" assume m: "tlb_matches addr (tlb_field (READ_ACCESS_TYPE code) (tlb_table s idx (tlb_index addr)))"
    and g: "good_map s"
  define a1 where "a1 = addr AND NOT (DATA_SIZE n - 1)"
  have "returns (slow_ld H code n idx ra a1 s) s"
    unfolding a1_def by (rule slow_ld_aligned [OF assms(1) g assms(3) aligned_parts(1) [OF assms(3)]])
  then obtain x q1 where 1: "slow_ld H code n idx ra a1 s = Some (x, q1)"
    "\<And>v. x = Inr v \<Longrightarrow> cpu_ctl q1 = cpu_ctl s" unfolding returns_def by blast
  have 2: "returns (slow_ld H code n idx ra (a1 + DATA_SIZE n) q1) q1" if "x = Inr v" for v
    unfolding a1_def using slow_ld_aligned [OF assms(1) _ assms(3) aligned_parts(2) [OF assms(3)]]
      good_map_ctl [OF 1(2) [OF that]] g by simp
  show "returns (slow_ld H code n idx ra addr s) s"
    using m 1 2 io_access_ctl(1) [OF assms(1)]
    unfolding slow_ld.simps [of H code n idx ra addr s] Let_def a1_def [symmetric] ADDR_READ_field
    by (cases x) (auto simp: returns_def split_beta split: sum.split)
qed (subst slow_ld.simps, simp add: ADDR_READ_field)

lemma ld_mmu_returns:
  assumes "io_quiet (h_board H)" "good_map q" "n \<le> 3"
  shows "returns (ld_mmu H code n idx ra addr q) q"
proof (rule redo_returns [OF assms(1,2) ADDR_READ_field(2) [of code]])
  fix s :: "'a cpu_x86_scheme" assume "tlb_matches addr (tlb_field (READ_ACCESS_TYPE code) (tlb_table s idx (tlb_index addr)))" "good_map s"
  then show "returns (ld_mmu H code n idx ra addr s) s"
    using slow_ld_returns [OF assms(1) _ assms(3), of s code idx ra addr] io_access_ctl(1) [OF assms(1)]
    by (subst ld_mmu.simps) (auto simp: returns_def Let_def ADDR_READ_field split_beta)
qed (subst ld_mmu.simps, simp add: ADDR_READ_field)

lemma addr_write_field: "addr_write te = tlb_field 1 te"
  by (simp add: tlb_field_def)

lemma byte_aligned: "\<not> misaligned 0 a"
  by (simp add: misaligned_def)

lemma raw_store_ctl [simp]: "cpu_ctl (st_raw n p v q) = cpu_ctl q"
  by (simp add: st_raw_def Let_def)

lemma slow_stb_returns:
  assumes "io_quiet (h_board H)" "good_map q"
  shows "returns (slow_stb H idx ra addr v q) q"
proof (rule redo_returns [OF assms, of 1])
  fix s :: "'a cpu_x86_scheme" assume "tlb_matches addr (tlb_field 1 (tlb_table s idx (tlb_index addr)))"
  then show "returns (slow_stb H idx ra addr v s) s"
    using byte_aligned [of addr] aligned_not_spans [of 0 addr] io_access_ctl(2) [OF assms(1)]
    unfolding slow_stb.simps [of H idx ra addr v s] Let_def addr_write_field by (auto simp: returns_def)
qed (simp, subst slow_stb.simps, simp add: addr_write_field)

lemma st_bytes_returns:
  assumes "io_quiet (h_board H)"
  shows "good_map q \<Longrightarrow> returns (st_bytes H idx ra addr v i q) q"
proof (induction i arbitrary: q)
  case (Suc i)
  obtain x q1 where 1: "slow_stb H idx ra (addr + of_nat i) (DATA_TYPE 0 (drop_bit (i * 8) v)) q = Some (x, q1)"
    "\<And>u. x = Inr u \<Longrightarrow> cpu_ctl q1 = cpu_ctl q"
    using slow_stb_returns [OF assms Suc.prems, of idx ra "addr + of_nat i" "DATA_TYPE 0 (drop_bit (i * 8) v)"]
    unfolding returns_def by blast
  show ?case
  proof (cases x)
    case (Inr u)
    then have c: "cpu_ctl q1 = cpu_ctl q" using 1(2) by simp
    then have "returns (st_bytes H idx ra addr v i q1) q1" using Suc good_map_ctl [OF c] by simp
    then show ?thesis using 1(1) Inr returns_cong [OF _ c] by simp
  qed (use 1(1) in \<open>simp add: returns_def\<close>)
qed (simp add: returns_def)

lemma slow_st_returns:
  assumes "io_quiet (h_board H)" "good_map q"
  shows "returns (slow_st H n idx ra addr v q) q"
proof (rule redo_returns [OF assms, of 1])
  fix s :: "'a cpu_x86_scheme" assume "tlb_matches addr (tlb_field 1 (tlb_table s idx (tlb_index addr)))"
    "good_map s"
  then show "returns (slow_st H n idx ra addr v s) s"
    using st_bytes_returns [OF assms(1), of s] io_access_ctl(2) [OF assms(1)]
    unfolding slow_st.simps [of H n idx ra addr v s] Let_def addr_write_field by (auto simp: returns_def)
qed (simp, subst slow_st.simps, simp add: addr_write_field)

lemma st_mmu_returns:
  assumes "io_quiet (h_board H)" "good_map q"
  shows "returns (st_mmu H n idx ra addr v q) q"
proof (rule redo_returns [OF assms, of 1])
  fix s :: "'a cpu_x86_scheme" assume "tlb_matches addr (tlb_field 1 (tlb_table s idx (tlb_index addr)))"
    "good_map s"
  then show "returns (st_mmu H n idx ra addr v s) s"
    using slow_st_returns [OF assms(1), of s] io_access_ctl(2) [OF assms(1)]
    unfolding st_mmu.simps [of H n idx ra addr v s] Let_def addr_write_field by (auto simp: returns_def)
qed (simp, subst st_mmu.simps, simp add: addr_write_field)

lemma returnsD: "returns r q \<Longrightarrow> r \<noteq> None"
  by (auto simp: returns_def)

text \<open>
  \<^bold>\<open>C17\<close>. Every memory access of the guest returns: loads of all sizes (also sign-extended and
  for code), and stores, aligned or not, to RAM or to devices, either deliver a result or
  raise the exception of a page fault. The loop that fills the TLB and tries again therefore
  ends, for any content of the page tables. Assumed: device callbacks leave the control
  registers and the page descriptors alone, and the descriptors are well formed.
\<close>

theorem guest_access_returns:
  assumes "io_quiet (h_board H)" "good_map q" "SHIFT \<le> 3"
  shows "snd (ldu M am H code SHIFT idx ra ptr s q) \<noteq> None \<and>
    snd (lds M am H code SHIFT idx ra ptr s q) \<noteq> None \<and>
    snd (st M am H SHIFT idx ra ptr v s q) \<noteq> None"
  using returnsD [OF ld_mmu_returns [OF assms, of code "idx q" ra ptr]]
    returnsD [OF st_mmu_returns [OF assms(1,2), of SHIFT "idx q" ra ptr v]]
  by (auto simp: ldu_def lds_def st_def Let_def)

definition sample_host :: "cpu_x86 host" where
  "sample_host = \<lparr>h_board = quiet_board, h_restore = (\<lambda>_ q. q), h_time = (\<lambda>_. 0)\<rparr>"

definition sample_machine :: "cpu_x86 Machine" where
  "sample_machine = \<lparr>m_GetReturnValue = (\<lambda>q. regs q 0), m_GetReturnAddress = (\<lambda>_ _. 0),
     m_GetArgumentN = (\<lambda>_ _ _. 0), m_GetArgument1 = (\<lambda>q. regs q 0), m_GetArgument2 = (\<lambda>q. regs q 2),
     m_GetPC = eip, m_ReadMemory = (\<lambda>_ _ bs. bs), m_StackTrace = (\<lambda>_ _ _. []),
     m_StackTraceAtFunction = (\<lambda>_ _ _. [])\<rparr>"

lemma sample_quiet: "io_quiet (h_board sample_host)"
  by (simp add: sample_host_def quiet_board_def io_quiet_def)

lemma sample_good: "good_map sample_x86"
proof -
  have "desc_wf (4096 * x)" for x :: u32
  proof -
    have "4096 * x = push_bit 12 x" by (simp add: push_bit_eq_mult)
    then have o: "offset_bits (4096 * x) = 0"
      by (simp only: page_mask) (rule bit_word_eqI, auto simp: bit_simps)
    have "4096 * x AND 0xe = offset_bits (4096 * x) AND 0xe" by (simp add: and.assoc)
    then have "4096 * x AND 0xe = 0" by (simp only: o) simp
    then show ?thesis using o by (simp add: desc_wf_def is_io_read_def)
  qed
  moreover have "desc_wf 0x20" by (simp add: desc_wf_def is_io_read_def)
  ultimately show ?thesis
    by (simp add: good_map_def sample_x86_desc) (simp add: sample_x86_def)
qed

theorem guest_access_returns_witness:
  "snd (ldu sample_machine quiet sample_host False 2 cpu_mmu_index 0 0x403fff initial_memcheck sample_x86) \<noteq> None \<and>
   snd (st sample_machine quiet sample_host 3 cpu_mmu_index 0 0x403ffd 42 initial_memcheck sample_x86) \<noteq> None"
  using guest_access_returns [OF sample_quiet sample_good, of 2 sample_machine quiet False cpu_mmu_index 0 "0x403fff"
      initial_memcheck]
    guest_access_returns [OF sample_quiet sample_good, of 3 sample_machine quiet False cpu_mmu_index 0 "0x403ffd"
      initial_memcheck]
  by simp

section \<open>The inline test\<close>

text \<open>An address field of the TLB: invalid, or without flag bits.\<close>

definition field_wf :: "u32 \<Rightarrow> bool" where
  "field_wf t \<longleftrightarrow> t = -1 \<or> t AND 0xf = 0"

definition entry_wf :: "CPUTLBEntry \<Rightarrow> bool" where
  "entry_wf te \<longleftrightarrow> field_wf (addr_read te) \<and> field_wf (addr_write te) \<and> field_wf (addr_code te)"

definition tlb_wf :: "'a cpu_common_scheme \<Rightarrow> bool" where
  "tlb_wf q \<longleftrightarrow> (\<forall>m<NB_MMU_MODES. \<forall>i<CPU_TLB_SIZE. entry_wf (tlb_table q m i))"

text \<open>The operations on the TLB keep its fields well formed.\<close>

lemma field_of_wf: "field_of v t \<Longrightarrow> v AND 0xf = 0 \<Longrightarrow> field_wf t"
proof -
  assume "field_of v t" "v AND 0xf = 0"
  then obtain x where t: "t = v OR x" and x: "x AND 0xfffff00f = 0" by (auto simp: field_of_def)
  have "x AND 0xf = (x AND 0xfffff00f) AND 0xf" by (simp add: and.assoc)
  then show ?thesis using x \<open>v AND 0xf = 0\<close> by (simp add: field_wf_def t word_ao_dist)
qed

lemma field_wf_bits: "field_wf (page_bits t)" "field_wf t \<Longrightarrow> field_wf (t OR IO_MEM_NOTDIRTY)"
  "field_wf (page_bits t OR IO_MEM_NOTDIRTY)" "field_wf (-1)"
  by (auto simp: field_wf_def word_ao_dist and.assoc)

lemma tlb_map_wf: "tlb_wf q \<Longrightarrow> (\<And>te. entry_wf te \<Longrightarrow> entry_wf (f te)) \<Longrightarrow> tlb_wf (tlb_map f q)"
  "tlb_wf q \<Longrightarrow> (\<And>te. entry_wf te \<Longrightarrow> entry_wf (f te)) \<Longrightarrow> tlb_wf (tlb_map_index j f q)"
  by (simp_all add: tlb_wf_def tlb_map_def tlb_map_index_def)

lemma tlb_flush_wf: "tlb_wf (tlb_flush q)"
  by (simp add: tlb_wf_def tlb_flush_def tlb_map_def Let_def entry_wf_def invalid_entry_def field_wf_bits)

lemma tlb_flush_page_wf: "tlb_wf q \<Longrightarrow> tlb_wf (tlb_flush_page a q)"
proof -
  assume "tlb_wf q"
  then have "tlb_wf (q\<lparr>current_tb := None\<rparr>)" by (simp add: tlb_wf_def)
  then have "tlb_wf (tlb_map_index (tlb_index (page_bits a)) (tlb_flush_entry (page_bits a)) (q\<lparr>current_tb := None\<rparr>))"
    by (rule tlb_map_wf) (auto simp: tlb_flush_entry_def invalid_entry_def entry_wf_def field_wf_bits)
  then show ?thesis by (simp add: tlb_flush_page_def Let_def clear_jmp_page_def tlb_wf_def)
qed

lemma reset_dirty_wf: "tlb_wf q \<Longrightarrow> tlb_wf (cpu_physical_memory_reset_dirty s e fl q)"
  unfolding cpu_physical_memory_reset_dirty_def Let_def
  by (auto intro!: tlb_map_wf(1) simp: tlb_reset_dirty_range_def entry_wf_def field_wf_bits, simp add: tlb_wf_def entry_wf_def)

lemma dirty_wf: "tlb_wf q \<Longrightarrow> tlb_wf (cpu_tlb_update_dirty q)" "tlb_wf q \<Longrightarrow> tlb_wf (tlb_set_dirty a v q)"
  unfolding cpu_tlb_update_dirty_def tlb_set_dirty_def
  by (auto intro!: tlb_map_wf simp: tlb_update_dirty_def tlb_set_dirty1_def entry_wf_def field_wf_bits)

lemma set_page_wf:
  assumes "tlb_wf q" "good_map q" "offset_bits v = 0"
  shows "tlb_wf (snd (tlb_set_page_exec v paddr prot idx q))"
proof -
  define q' where "q' = snd (tlb_set_page_exec v paddr prot idx q)"
  define te where "te = tlb_table q' idx (tlb_index v)"
  have t: "tlb_table q' m i = (if m = idx \<and> i = tlb_index v then te else tlb_table q m i)" for m i
    by (auto simp: te_def q'_def tlb_set_page_exec_def Let_def split: prod.split)
  have neg: "tlb_field w te = -1" if "prot AND 2 ^ w = 0" "w < 3" for w
  proof -
    have "w = 0 \<or> w = 1 \<or> w = 2" using that(2) by auto
    then show ?thesis
      using that(1) by (auto simp: te_def q'_def tlb_set_page_exec_def Let_def tlb_field_def set_page_entry_def
          split: prod.split)
  qed
  have "v AND 0xf = offset_bits v AND 0xf" by (simp add: and.assoc)
  then have "v AND 0xf = 0" by (simp only: assms(3)) simp
  then have "field_wf (tlb_field w te)" if "w < 3" for w
    using neg [OF _ that] set_page_field [OF assms(2) _ that assms(3)] field_of_wf field_wf_bits(4)
    unfolding te_def q'_def by metis
  from this [of 0] this [of 1] this [of 2] have "entry_wf te" by (simp add: entry_wf_def tlb_field_def)
  then show ?thesis using assms(1) by (simp add: tlb_wf_def t q'_def [symmetric])
qed

lemma fast_entry_hit:
  assumes "field_wf t" "fast_entry n addr t" "n \<le> 3"
  shows "tlb_matches addr t" "offset_bits t = 0" "\<not> spans_pages n addr"
proof -
  define k where "k = (DATA_SIZE n - 1 :: u32)"
  have "n = 0 \<or> n = 1 \<or> n = 2 \<or> n = 3" using assms(3) by auto
  then have k: "k AND 0xf = k" "k AND 0xfff = k" "k AND 0xfffff008 = 0" "0xfffff000 AND 0xf = (0 :: u32)"
    "0x10 AND k = 0"
    by (auto simp: k_def)
  have t: "t = page_bits addr OR (addr AND k)"
    using assms(2) unfolding fast_entry_def k_def [symmetric] word_ao_dist2 .
  have "t AND 0x10 = 0" unfolding t by (simp add: word_ao_dist and.assoc and.commute [of k] k)
  then have "t \<noteq> -1" by auto
  then have "t AND 0xf = 0" using assms(1) by (simp add: field_wf_def)
  then have a: "addr AND k = 0" unfolding t by (simp add: word_ao_dist and.assoc k)
  show "tlb_matches addr t" "offset_bits t = 0" unfolding t a by (simp_all add: tlb_matches_def and.assoc)
  show "\<not> spans_pages n addr"
    using aligned_not_spans [OF assms(3)] a unfolding misaligned_def k_def by blast
qed



end
