(* ===== verification/SoftMMUData.thy ===== *)
theory SoftMMUData
  imports SoftMMUProps
begin

text \<open>
  The data of guest accesses, byte by byte: what a load assembles and a store scatters over
  RAM, for every size and alignment, within a page and across two.
\<close>

section \<open>Bytes of a value\<close>

definition byte_of :: "nat \<Rightarrow> u64 \<Rightarrow> u8" where
  "byte_of i v = ucast (drop_bit (8 * i) v)"

lemma bit_byte_of: "bit (byte_of i v) k \<longleftrightarrow> k < 8 \<and> bit v (8 * i + k)"
  by (auto simp: byte_of_def bit_simps)

lemma bytes_eqI:
  assumes "\<And>i. i < 2 ^ n \<Longrightarrow> byte_of i v = byte_of i w" "take_bit (8 * 2 ^ n) v = v" "take_bit (8 * 2 ^ n) w = w"
  shows "v = w"
proof (rule bit_word_eqI)
  fix m assume "m < LENGTH(64)"
  show "bit v m = bit w m"
  proof (cases "m < 8 * 2 ^ n")
    case True
    then have "m div 8 < 2 ^ n" by (simp add: less_mult_imp_div_less mult.commute)
    then have "bit (byte_of (m div 8) v) (m mod 8) = bit (byte_of (m div 8) w) (m mod 8)"
      using assms(1) by simp
    then show ?thesis by (simp add: bit_byte_of)
  next
    case False
    then have "\<not> bit v m" "\<not> bit w m"
      using assms(2,3) by (metis bit_take_bit_iff)+
    then show ?thesis by simp
  qed
qed

lemma shift_cases: "n \<le> 3 \<Longrightarrow> n = 0 \<or> n = 1 \<or> n = 2 \<or> n = (3 :: nat)"
  by auto

lemma less_cases:
  "i < 1 \<longleftrightarrow> i = 0" "i < 2 \<longleftrightarrow> i = 0 \<or> i = 1" "i < 4 \<longleftrightarrow> i = 0 \<or> i = 1 \<or> i = 2 \<or> i = 3"
  "i < 8 \<longleftrightarrow> i = 0 \<or> i = 1 \<or> i = 2 \<or> i = 3 \<or> i = 4 \<or> i = 5 \<or> i = 6 \<or> i = 7" for i :: nat
  by auto

lemma u8_no_bit [simp]: "8 \<le> j \<Longrightarrow> \<not> bit (x :: u8) j"
  using bit_imp_le_length [of x j] by auto

lemma u32_no_bit [simp]: "32 \<le> j \<Longrightarrow> \<not> bit (x :: u32) j"
  using bit_imp_le_length [of x j] by auto

lemma bit_ldl:
  assumes "i < 4" "k < 8"
  shows "bit (ldl_le_p m p) (8 * i + k) \<longleftrightarrow> bit (m (p + of_nat i)) k"
  using assms(1) unfolding less_cases
  by (elim disjE) (use assms(2) in \<open>simp_all add: ldl_le_p_def bit_simps\<close>)

lemma bit_lduw:
  assumes "i < 2" "k < 8"
  shows "bit (lduw_le_p m p) (8 * i + k) \<longleftrightarrow> bit (m (p + of_nat i)) k"
  using assms(1) unfolding less_cases
  by (elim disjE) (use assms(2) in \<open>simp_all add: lduw_le_p_def bit_simps\<close>)

lemma bit_ldq:
  assumes "i < 8" "k < 8"
  shows "bit (ldq_le_p m p) (8 * i + k) \<longleftrightarrow> bit (m (p + of_nat i)) k"
proof (cases "i < 4")
  case True
  then have "8 * i + k < 32" using assms(2) by simp
  then show ?thesis using bit_ldl [OF True assms(2), of m p] by (simp add: ldq_le_p_def bit_simps)
next
  case False
  then have i: "i = 4 + (i - 4)" "i - 4 < 4" using assms(1) by simp_all
  define j where "j = i - 4"
  have i: "i = 4 + j" "j < 4" using i by (simp_all add: j_def)
  show ?thesis
    using bit_ldl [OF i(2) assms(2), of m "p + 4"] assms(2) i(2)
    by (simp add: ldq_le_p_def bit_simps i(1) add.assoc)
qed

lemma ld_raw_byte:
  assumes "n \<le> 3" "i < 2 ^ n"
  shows "byte_of i (ld_raw n p q) = phys_ram q (p - phys_ram_base q + of_nat i)"
proof (rule bit_word_eqI)
  fix k assume k: "k < LENGTH(8)"
  then show "bit (byte_of i (ld_raw n p q)) k = bit (phys_ram q (p - phys_ram_base q + of_nat i)) k"
    using shift_cases [OF assms(1)] assms(2) bit_ldl [of i k "phys_ram q"] bit_lduw [of i k "phys_ram q"]
      bit_ldq [of i k "phys_ram q"]
    by (elim disjE) (simp_all add: bit_byte_of ld_raw_def Let_def bit_simps ldub_p_def)
qed

lemma ld_raw_size:
  assumes "n \<le> 3"
  shows "take_bit (8 * 2 ^ n) (ld_raw n p q) = ld_raw n p q"
proof (rule bit_word_eqI)
  fix j assume "j < LENGTH(64)"
  then show "bit (take_bit (8 * 2 ^ n) (ld_raw n p q)) j = bit (ld_raw n p q) j"
    using shift_cases [OF assms]
    by (elim disjE) (auto simp: bit_take_bit_iff ld_raw_def Let_def bit_ucast_iff ldub_p_def lduw_le_p_def
        bit_or_iff bit_push_bit_iff dest: bit_imp_le_length)
qed

section \<open>Where an address lies in RAM\<close>

definition ram_hit :: "nat \<Rightarrow> nat \<Rightarrow> 'a cpu_common_scheme \<Rightarrow> u32 \<Rightarrow> bool" where
  "ram_hit w idx q a \<longleftrightarrow> (let t = tlb_field w (tlb_table q idx (tlb_index a)) in
     tlb_matches a t \<and> offset_bits t = 0)"

definition host_of :: "nat \<Rightarrow> 'a cpu_common_scheme \<Rightarrow> u32 \<Rightarrow> u32" where
  "host_of idx q a = a + addend (tlb_table q idx (tlb_index a)) - phys_ram_base q"

lemma same_page:
  assumes "page_bits a = page_bits b"
  shows "ram_hit w idx q a = ram_hit w idx q b" "host_of idx q a = host_of idx q b + (a - b)"
proof -
  have "tlb_index a = tlb_index b" using tlb_index_page assms by metis
  then show "ram_hit w idx q a = ram_hit w idx q b" "host_of idx q a = host_of idx q b + (a - b)"
    using assms by (simp_all add: ram_hit_def tlb_matches_def host_of_def)
qed

lemma in_block:
  assumes "n \<le> 3" "\<not> misaligned n a" "i < 2 ^ n"
  shows "page_bits (a + of_nat i) = page_bits a" "host_of idx q (a + of_nat i) = host_of idx q a + of_nat i"
proof -
  show p: "page_bits (a + of_nat i) = page_bits a"
    using aligned_room [OF assms(1,2)] assms(3) by (intro in_page(2)) simp
  show "host_of idx q (a + of_nat i) = host_of idx q a + of_nat i"
    using same_page(2) [OF p, of idx q] by simp
qed

text \<open>The bytes of the guest's memory that the TLB leads to.\<close>

definition tlb_byte :: "nat \<Rightarrow> 'a cpu_common_scheme \<Rightarrow> u32 \<Rightarrow> u8" where
  "tlb_byte idx q a = phys_ram q (host_of idx q a)"

definition loaded :: "nat \<Rightarrow> nat \<Rightarrow> 'a cpu_common_scheme \<Rightarrow> u32 \<Rightarrow> u64 \<Rightarrow> bool" where
  "loaded n idx q a v \<longleftrightarrow> take_bit (8 * 2 ^ n) v = v \<and> (\<forall>i<2 ^ n. byte_of i v = tlb_byte idx q (a + of_nat i))"

text \<open>An access that stays in its page.\<close>

lemma loaded_raw:
  assumes "n \<le> 3" "\<And>i. i < 2 ^ n \<Longrightarrow> page_bits (a + of_nat i) = page_bits a"
  shows "loaded n idx q a (ld_raw n (a + addend (tlb_table q idx (tlb_index a))) q)"
proof -
  have "tlb_byte idx q (a + of_nat i) = phys_ram q (host_of idx q a + of_nat i)" if "i < 2 ^ n" for i
    using same_page(2) [OF assms(2) [OF that], of idx q] by (simp add: tlb_byte_def)
  then show ?thesis
    by (simp add: loaded_def host_of_def ld_raw_byte [OF assms(1)] ld_raw_size [OF assms(1)])
qed

lemma not_spans:
  assumes "n \<le> 3" "\<not> spans_pages n a" "i < 2 ^ n"
  shows "page_bits (a + of_nat i) = page_bits a"
  using assms(2,3) unfolding spans_nat [OF assms(1)] by (intro in_page(2)) simp

section \<open>Loads\<close>

lemma slow_ld_aligned_ram:
  assumes "n \<le> 3" "\<not> misaligned n a" "ram_hit (READ_ACCESS_TYPE code) idx q a"
  shows "\<exists>v. slow_ld H code n idx ra a q = Some (Inr v, q) \<and> loaded n idx q a v"
  using assms(3) aligned_not_spans [OF assms(1,2)] loaded_raw [OF assms(1) in_block(1) [OF assms(1,2)]]
  by (subst slow_ld.simps) (simp add: ram_hit_def ADDR_READ_field Let_def)

text \<open>The two halves of an unaligned load.\<close>

lemma loaded_halves:
  assumes "n \<le> 3" "loaded n idx q a1 v1" "loaded n idx q (a1 + DATA_SIZE n) v2"
    and "s < 2 ^ n" "a = a1 + of_nat s"
  shows "loaded n idx q a (DATA_TYPE n (drop_bit (s * 8) v1 OR push_bit (8 * 2 ^ n - s * 8) v2))"
proof -
  let ?v = "DATA_TYPE n (drop_bit (s * 8) v1 OR push_bit (8 * 2 ^ n - s * 8) v2)"
  have hi: "\<not> bit v1 j" if "8 * 2 ^ n \<le> j" for j
    using assms(2) that unfolding loaded_def by (metis bit_take_bit_iff not_less)
  have w: "8 * 2 ^ n \<le> (64 :: nat)" using power_increasing [OF assms(1), of "2 :: nat"] by simp
  have "byte_of i ?v = tlb_byte idx q (a + of_nat i)" if i: "i < 2 ^ n" for i
  proof (cases "i + s < 2 ^ n")
    case True
    have "byte_of i ?v = byte_of (s + i) v1"
    proof (rule bit_word_eqI)
      fix k assume "k < LENGTH(8)"
      then have k: "k < 8" by simp
      then have "8 * i + k < 8 * 2 ^ n - s * 8" "8 * i + k < 8 * 2 ^ n" using True i by linarith+
      then show "bit (byte_of i ?v) k = bit (byte_of (s + i) v1) k"
        using k by (simp add: bit_byte_of DATA_TYPE_def bit_take_bit_iff bit_or_iff bit_drop_bit_eq
            bit_push_bit_iff add.assoc algebra_simps)
    qed
    then show ?thesis
      using assms(2,5) True by (simp add: loaded_def add.commute add.left_commute flip: of_nat_add)
  next
    case False
    define j where "j = i + s - 2 ^ n"
    have j: "j < 2 ^ n" "i + s = 2 ^ n + j" using False assms(4) i by (simp_all add: j_def)
    have "byte_of i ?v = byte_of j v2"
    proof (rule bit_word_eqI)
      fix k assume "k < LENGTH(8)"
      then have k: "k < 8" by simp
      have e: "8 * i + k = (8 * 2 ^ n - s * 8) + (8 * j + k)" using j assms(4) by linarith
      have "8 * i + k < 8 * 2 ^ n" "8 * i + k < 64" "8 * 2 ^ n \<le> s * 8 + (8 * i + k)"
        using i k w j(2) by linarith+
      then show "bit (byte_of i ?v) k = bit (byte_of j v2) k"
        using k hi [of "s * 8 + (8 * i + k)"]
        by (simp add: bit_byte_of DATA_TYPE_def bit_take_bit_iff bit_or_iff bit_drop_bit_eq bit_push_bit_iff e)
    qed
    moreover have "a + of_nat i = a1 + DATA_SIZE n + of_nat j"
    proof -
      have "(of_nat (i + s) :: u32) = of_nat (2 ^ n + j)" using j(2) by simp
      then show ?thesis by (simp add: assms(5) push_bit_eq_mult algebra_simps)
    qed
    ultimately show ?thesis using assms(3) j(1) by (simp add: loaded_def)
  qed
  then show ?thesis by (simp add: loaded_def DATA_TYPE_def)
qed

lemma addr_halves:
  assumes "n \<le> 3"
  shows "a = (a AND NOT (DATA_SIZE n - 1)) + of_nat (unat (a AND (DATA_SIZE n - 1)))"
    "unat (a AND (DATA_SIZE n - 1)) < 2 ^ n"
proof -
  define m where "m = (DATA_SIZE n - 1 :: u32)"
  have "(a AND NOT m) AND (a AND m) = 0" "(a AND NOT m) OR (a AND m) = a"
    by (rule bit_word_eqI, auto simp: bit_simps)+
  then show "a = (a AND NOT m) + of_nat (unat (a AND m))" by (simp add: disjunctive_add_eq_or)
  have "n = 0 \<or> n = 1 \<or> n = 2 \<or> n = 3" using assms by auto
  then have "unat m < 2 ^ n" by (elim disjE) (simp_all add: m_def)
  then show "unat (a AND m) < 2 ^ n"
    using word_and_le1 [of a m] by (simp add: word_le_nat_alt)
qed

lemma slow_ld_ram:
  assumes "n \<le> 3" "\<forall>i<2 ^ n. ram_hit (READ_ACCESS_TYPE code) idx q (a + of_nat i)"
  shows "\<exists>v. slow_ld H code n idx ra a q = Some (Inr v, q) \<and> loaded n idx q a v"
proof (cases "spans_pages n a")
  case False
  have "ram_hit (READ_ACCESS_TYPE code) idx q (a + of_nat 0)" using assms(2) by (metis zero_less_numeral zero_less_power)
  then show ?thesis
    using False loaded_raw [OF assms(1) not_spans [OF assms(1) False]]
    by (subst slow_ld.simps) (simp add: ram_hit_def ADDR_READ_field Let_def)
next
  case True
  define a1 where "a1 = a AND NOT (DATA_SIZE n - 1)"
  define s where "s = unat (a AND (DATA_SIZE n - 1))"
  have a: "a = a1 + of_nat s" "s < 2 ^ n" unfolding a1_def s_def by (rule addr_halves [OF assms(1)])+
  have al: "\<not> misaligned n a1" "\<not> misaligned n (a1 + DATA_SIZE n)" unfolding a1_def by (rule aligned_parts [OF assms(1)])+
  have "0 < s" using True aligned_not_spans [OF assms(1), of a] a al(1) by (cases "s = 0") auto
  define e where "e = 2 ^ n - s"
  have e: "e < 2 ^ n" "a + of_nat e = a1 + DATA_SIZE n"
  proof -
    show "e < 2 ^ n" using \<open>0 < s\<close> a(2) by (simp add: e_def)
    have "s + e = 2 ^ n" using a(2) by (simp add: e_def)
    then have "(of_nat s + of_nat e :: u32) = of_nat (2 ^ n)" by (metis of_nat_add)
    then show "a + of_nat e = a1 + DATA_SIZE n" by (simp add: a(1) push_bit_eq_mult add.assoc)
  qed
  have "ram_hit (READ_ACCESS_TYPE code) idx q (a + of_nat 0)" using assms(2) by (metis zero_less_numeral zero_less_power)
  then have h: "ram_hit (READ_ACCESS_TYPE code) idx q a" by simp
  have h1: "ram_hit (READ_ACCESS_TYPE code) idx q a1"
    using same_page(1) [OF in_block(1) [OF assms(1) al(1) a(2)], of _ idx q] h a(1) by simp
  have h2: "ram_hit (READ_ACCESS_TYPE code) idx q (a1 + DATA_SIZE n)"
    using assms(2) e by metis
  obtain v1 where v1: "slow_ld H code n idx ra a1 q = Some (Inr v1, q)" "loaded n idx q a1 v1"
    using slow_ld_aligned_ram [OF assms(1) al(1) h1] by blast
  obtain v2 where v2: "slow_ld H code n idx ra (a1 + DATA_SIZE n) q = Some (Inr v2, q)" "loaded n idx q (a1 + DATA_SIZE n) v2"
    using slow_ld_aligned_ram [OF assms(1) al(2) h2] by blast
  have "loaded n idx q a (DATA_TYPE n (drop_bit (s * 8) v1 OR push_bit (8 * 2 ^ n - s * 8) v2))"
    by (rule loaded_halves [OF assms(1) v1(2) v2(2) a(2,1)])
  then show ?thesis
    using h True v1(1) v2(1)
    unfolding slow_ld.simps [of H code n idx ra a q] Let_def a1_def [symmetric] s_def [symmetric]
    by (simp add: ram_hit_def ADDR_READ_field Let_def)
qed

section \<open>Stores\<close>

definition stored :: "nat \<Rightarrow> (nat \<Rightarrow> u32) \<Rightarrow> u64 \<Rightarrow> mem \<Rightarrow> mem \<Rightarrow> bool" where
  "stored k h v m m' \<longleftrightarrow> (\<forall>i<k. m' (h i) = byte_of i v) \<and> (\<forall>x. (\<forall>i<k. x \<noteq> h i) \<longrightarrow> m' x = m x)"

lemma word_bytes:
  fixes v :: u64
  shows "(ucast (ucast v :: u32) :: u8) = ucast v"
    "k \<le> 24 \<Longrightarrow> (ucast (drop_bit k (ucast v :: u32)) :: u8) = ucast (drop_bit k v)"
    "(ucast (ucast (drop_bit 32 v) :: u32) :: u8) = ucast (drop_bit 32 v)"
    "k \<le> 24 \<Longrightarrow> (ucast (drop_bit k (ucast (drop_bit 32 v) :: u32)) :: u8) = ucast (drop_bit (k + 32) v)"
  by (rule bit_word_eqI, simp add: bit_simps ac_simps)+

lemma st_raw_stored:
  assumes "n \<le> 3"
  shows "\<exists>m. st_raw n p v q = q\<lparr>phys_ram := m\<rparr> \<and>
    stored (2 ^ n) (\<lambda>i. p - phys_ram_base q + of_nat i) v (phys_ram q) m"
proof -
  define m where "m = phys_ram (st_raw n p v q)"
  define a where "a = p - phys_ram_base q"
  have "st_raw n p v q = q\<lparr>phys_ram := m\<rparr>" by (simp add: m_def st_raw_def Let_def)
  moreover have "stored (2 ^ n) (\<lambda>i. a + of_nat i) v (phys_ram q) m"
    using shift_cases [OF assms]
  proof (elim disjE)
    assume n: "n = 0"
    then have "m = (phys_ram q)(a := ucast v)"
      by (simp add: m_def a_def st_raw_def stb_p_def Let_def word_bytes)
    then show ?thesis by (simp add: stored_def n byte_of_def)
  next
    assume n: "n = 1"
    then have "m = (phys_ram q)(a := ucast v, a + 1 := ucast (drop_bit 8 v))"
      by (simp add: m_def a_def st_raw_def stw_le_p_def Let_def word_bytes)
    then show ?thesis by (auto simp: stored_def n byte_of_def less_cases(2))
  next
    assume n: "n = 2"
    then have "m = (phys_ram q)(a := ucast v, a + 1 := ucast (drop_bit 8 v),
        a + 2 := ucast (drop_bit 16 v), a + 3 := ucast (drop_bit 24 v))"
      by (simp add: m_def a_def st_raw_def stl_le_p_def Let_def word_bytes)
    then show ?thesis by (auto simp: stored_def n byte_of_def less_cases(3))
  next
    assume n: "n = 3"
    then have "m = (phys_ram q)(a := ucast v, a + 1 := ucast (drop_bit 8 v),
        a + 2 := ucast (drop_bit 16 v), a + 3 := ucast (drop_bit 24 v),
        a + 4 := ucast (drop_bit 32 v), a + 5 := ucast (drop_bit 40 v),
        a + 6 := ucast (drop_bit 48 v), a + 7 := ucast (drop_bit 56 v))"
      by (simp add: m_def a_def st_raw_def stl_le_p_def stq_le_p_def Let_def word_bytes add.assoc)
    then show ?thesis by (auto simp: stored_def n byte_of_def less_cases(4))
  qed
  ultimately show ?thesis by (auto simp: a_def)
qed

text \<open>The distance from the guest page to its host page is a number of pages.\<close>

definition page_entry :: "nat \<Rightarrow> 'a cpu_common_scheme \<Rightarrow> u32 \<Rightarrow> bool" where
  "page_entry idx q a \<longleftrightarrow> offset_bits (addend (tlb_table q idx (tlb_index a)) - phys_ram_base q) = 0"

lemma unat_sum_mod: "unat (x + y :: u32) mod 4096 = (unat x + unat y) mod 4096"
proof -
  have "unat (x + y) mod 4096 = ((unat x + unat y) mod 2 ^ 32) mod 4096" by (simp add: unat_word_ariths)
  also have "\<dots> = (unat x + unat y) mod 4096" by (rule mod_mod_cancel) simp
  finally show ?thesis .
qed

lemma host_offset: "page_entry idx q a \<Longrightarrow> offset_bits (host_of idx q a) = offset_bits a"
proof -
  assume p: "page_entry idx q a"
  define d where "d = addend (tlb_table q idx (tlb_index a)) - phys_ram_base q"
  have "unat d mod 4096 = 0" using p unat_offset [of d] by (simp add: page_entry_def d_def)
  then obtain c where c: "unat d = 4096 * c" by auto
  then have "unat (a + d) mod 4096 = unat a mod 4096" by (simp add: unat_sum_mod)
  then have "unat (offset_bits (a + d)) = unat (offset_bits a)" by (simp only: unat_offset)
  then show ?thesis by (simp add: host_of_def d_def add_diff_eq)
qed

lemma host_distinct:
  assumes "page_entry idx q (a + of_nat i)" "page_entry idx q (a + of_nat j)" "i < 8" "j < 8"
    and "host_of idx q (a + of_nat i) = host_of idx q (a + of_nat j)"
  shows "i = j"
proof -
  have e: "unat (a + of_nat k) mod 4096 = (unat a mod 4096 + k) mod 4096" if "k < 8" for k
    using that by (simp add: unat_sum_mod unat_of_nat mod_add_left_eq)
  have "offset_bits (a + of_nat i) = offset_bits (a + of_nat j)"
    using host_offset [OF assms(1)] host_offset [OF assms(2)] assms(5) by simp
  then have "unat (a + of_nat i) mod 4096 = unat (a + of_nat j) mod 4096"
    using unat_offset by metis
  then have "(unat a mod 4096 + i) mod 4096 = (unat a mod 4096 + j) mod 4096"
    using e assms(3,4) by simp
  moreover have "unat a mod 4096 < 4096" by simp
  moreover have "(x + k) mod 4096 = (if x + k < 4096 then x + k else x + k - 4096)" if "x < 4096" "k < 8" for x k :: nat
    using that by (auto simp: mod_if)
  ultimately show ?thesis using assms(3,4) by (auto split: if_splits)
qed

lemma slow_stb_ram:
  assumes "ram_hit 1 idx q a"
  shows "slow_stb H idx ra a v q = Some (Inr (), q\<lparr>phys_ram := (phys_ram q)(host_of idx q a := ucast v)\<rparr>)"
proof -
  have "st_raw 0 (a + addend (tlb_table q idx (tlb_index a))) v q =
      q\<lparr>phys_ram := (phys_ram q)(host_of idx q a := ucast v)\<rparr>"
    by (simp add: st_raw_def stb_p_def host_of_def Let_def word_bytes)
  then show ?thesis
    using assms aligned_not_spans [of 0 a] byte_aligned [of a]
    by (subst slow_stb.simps) (simp add: ram_hit_def addr_write_field Let_def)
qed

lemma frame_ram [simp]:
  "ram_hit w idx (q\<lparr>phys_ram := m\<rparr>) a = ram_hit w idx q a"
  "host_of idx (q\<lparr>phys_ram := m\<rparr>) a = host_of idx q a"
  by (simp_all add: ram_hit_def host_of_def)

lemma st_bytes_ram:
  assumes "\<forall>i<k. ram_hit 1 idx q (a + of_nat i)"
    and "\<forall>i<k. \<forall>j<k. host_of idx q (a + of_nat i) = host_of idx q (a + of_nat j) \<longrightarrow> i = j"
  shows "\<exists>m. st_bytes H idx ra a v k q = Some (Inr (), q\<lparr>phys_ram := m\<rparr>) \<and>
    stored k (\<lambda>i. host_of idx q (a + of_nat i)) v (phys_ram q) m"
  using assms
proof (induction k arbitrary: q)
  case 0
  show ?case by (rule exI [of _ "phys_ram q"]) (simp add: stored_def)
next
  case (Suc k)
  let ?h = "\<lambda>i. host_of idx q (a + of_nat i)"
  define q1 where "q1 = q\<lparr>phys_ram := (phys_ram q)(?h k := byte_of k v)\<rparr>"
  have "ucast (DATA_TYPE 0 (drop_bit (k * 8) v)) = byte_of k v"
    by (rule bit_word_eqI) (simp add: DATA_TYPE_def byte_of_def bit_simps mult.commute)
  then have s: "st_bytes H idx ra a v (Suc k) q = st_bytes H idx ra a v k q1"
    using slow_stb_ram [of idx q "a + of_nat k" H ra] Suc.prems(1) by (simp add: q1_def)
  have q1: "host_of idx q1 x = host_of idx q x" "ram_hit 1 idx q1 x = ram_hit 1 idx q x" for x
    by (simp_all add: q1_def)
  obtain m where m: "st_bytes H idx ra a v k q1 = Some (Inr (), q1\<lparr>phys_ram := m\<rparr>)"
    "stored k ?h v (phys_ram q1) m"
    using Suc.IH [of q1] Suc.prems unfolding q1 by auto
  have "\<forall>i<k. ?h k \<noteq> ?h i" using Suc.prems(2) by (metis less_Suc_eq less_irrefl)
  then have "m (?h k) = phys_ram q1 (?h k)" using m(2) unfolding stored_def by blast
  then have "m (?h k) = byte_of k v" by (simp add: q1_def)
  then have "stored (Suc k) ?h v (phys_ram q) m"
    using m(2) by (auto simp: stored_def q1_def less_Suc_eq)
  then show ?case using s m(1) by (auto simp: q1_def)
qed

lemma host_in_page:
  assumes "n \<le> 3" "\<not> spans_pages n a" "i < 2 ^ n"
  shows "host_of idx q (a + of_nat i) = host_of idx q a + of_nat i"
  using same_page(2) [OF not_spans [OF assms], of idx q] by simp

lemma st_mmu_ram:
  assumes "n \<le> 3" "\<forall>i<2 ^ n. ram_hit 1 idx q (a + of_nat i)" "\<forall>i<2 ^ n. page_entry idx q (a + of_nat i)"
  shows "\<exists>m. st_mmu H n idx ra a v q = Some (Inr (), q\<lparr>phys_ram := m\<rparr>) \<and>
    stored (2 ^ n) (\<lambda>i. host_of idx q (a + of_nat i)) v (phys_ram q) m"
proof -
  have "ram_hit 1 idx q (a + of_nat 0)" using assms(2) by (metis zero_less_numeral zero_less_power)
  then have h: "ram_hit 1 idx q a" by simp
  have w: "(2 :: nat) ^ n \<le> 8" using power_increasing [OF assms(1), of "2 :: nat"] by simp
  show ?thesis
  proof (cases "spans_pages n a")
    case True
    have "\<forall>i<2 ^ n. \<forall>j<2 ^ n. host_of idx q (a + of_nat i) = host_of idx q (a + of_nat j) \<longrightarrow> i = j"
      using host_distinct assms(3) w by (meson less_le_trans)
    moreover have "st_mmu H n idx ra a v q = st_bytes H idx ra a v (2 ^ n) q"
      using h True by (subst st_mmu.simps, subst slow_st.simps) (simp add: ram_hit_def addr_write_field Let_def)
    ultimately show ?thesis using st_bytes_ram [OF assms(2)] by simp
  next
    case False
    obtain m where m: "st_raw n (a + addend (tlb_table q idx (tlb_index a))) v q = q\<lparr>phys_ram := m\<rparr>"
      "stored (2 ^ n) (\<lambda>i. host_of idx q a + of_nat i) v (phys_ram q) m"
      using st_raw_stored [OF assms(1), of "a + addend (tlb_table q idx (tlb_index a))" v q]
      by (auto simp: host_of_def)
    have "stored (2 ^ n) (\<lambda>i. host_of idx q (a + of_nat i)) v (phys_ram q) m"
      using m(2) host_in_page [OF assms(1) False, of _ idx q] by (simp add: stored_def)
    then show ?thesis
      using h False m(1) by (subst st_mmu.simps) (auto simp: ram_hit_def addr_write_field Let_def)
  qed
qed

lemma ld_mmu_ram:
  assumes "n \<le> 3" "\<forall>i<2 ^ n. ram_hit (READ_ACCESS_TYPE code) idx q (a + of_nat i)"
  shows "\<exists>v. ld_mmu H code n idx ra a q = Some (Inr v, q) \<and> loaded n idx q a v"
proof -
  have "ram_hit (READ_ACCESS_TYPE code) idx q (a + of_nat 0)" using assms(2) by (metis zero_less_numeral zero_less_power)
  then show ?thesis
    using slow_ld_ram [OF assms, of H ra] loaded_raw [OF assms(1) not_spans [OF assms(1)]]
    by (subst ld_mmu.simps) (auto simp: ram_hit_def ADDR_READ_field Let_def)
qed

section \<open>Store and load\<close>

text \<open>
  \<^bold>\<open>C18\<close>. A guest store to RAM followed by a load of the same size from the same address
  returns the value stored, whatever the alignment and whether or not the bytes lie on two
  pages, even if both pages are mapped to the same RAM; no other byte of RAM changes. The pages
  are in the TLB as RAM.
\<close>

theorem guest_store_then_load:
  assumes "SHIFT \<le> 3" "\<forall>i<2 ^ SHIFT. page_entry idx q (ptr + of_nat i)"
    and "\<forall>i<2 ^ SHIFT. ram_hit 0 idx q (ptr + of_nat i) \<and> ram_hit 1 idx q (ptr + of_nat i)"
  shows "\<exists>q'. st_mmu H SHIFT idx ra ptr v q = Some (Inr (), q') \<and>
    ld_mmu H False SHIFT idx ra ptr q' = Some (Inr (DATA_TYPE SHIFT v), q') \<and>
    (\<forall>x. (\<forall>i<2 ^ SHIFT. x \<noteq> host_of idx q (ptr + of_nat i)) \<longrightarrow> phys_ram q' x = phys_ram q x)"
proof -
  obtain m where m: "st_mmu H SHIFT idx ra ptr v q = Some (Inr (), q\<lparr>phys_ram := m\<rparr>)"
    "stored (2 ^ SHIFT) (\<lambda>i. host_of idx q (ptr + of_nat i)) v (phys_ram q) m"
    using st_mmu_ram [OF assms(1) _ assms(2), of H ra v] assms(3) by blast
  define q' where "q' = q\<lparr>phys_ram := m\<rparr>"
  have "\<forall>i<2 ^ SHIFT. ram_hit (READ_ACCESS_TYPE False) idx q' (ptr + of_nat i)"
    using assms(3) by (simp add: q'_def READ_ACCESS_TYPE_def)
  then obtain w where w: "ld_mmu H False SHIFT idx ra ptr q' = Some (Inr w, q')" "loaded SHIFT idx q' ptr w"
    using ld_mmu_ram [OF assms(1), of False idx q' ptr H ra] by blast
  have "w = DATA_TYPE SHIFT v"
  proof (rule bytes_eqI [of SHIFT])
    fix i :: nat assume i: "i < 2 ^ SHIFT"
    have "byte_of i w = m (host_of idx q (ptr + of_nat i))"
      using w(2) i by (simp add: loaded_def tlb_byte_def q'_def)
    also have "\<dots> = byte_of i v" using m(2) i by (simp add: stored_def)
    also have "\<dots> = byte_of i (DATA_TYPE SHIFT v)"
      using i by (intro bit_word_eqI) (auto simp: bit_byte_of DATA_TYPE_def bit_take_bit_iff)
    finally show "byte_of i w = byte_of i (DATA_TYPE SHIFT v)" .
  qed (use w(2) in \<open>simp_all add: loaded_def DATA_TYPE_def\<close>)
  then show ?thesis using m w(1) by (auto simp: q'_def stored_def)
qed

text \<open>Two pages that are adjacent in the guest and apart in RAM.\<close>

definition sample_entry :: "u32 \<Rightarrow> u32 \<Rightarrow> CPUTLBEntry" where
  "sample_entry v p = \<lparr>addr_read = v, addr_write = v, addr_code = v, addend = 0x1000000 + p - v\<rparr>"

definition sample_tlb :: cpu_x86 where
  "sample_tlb = sample_x86\<lparr>tlb_table := (\<lambda>m i.
     if i = 3 then sample_entry 0x403000 0x5000 else sample_entry 0x404000 0x9000)\<rparr>"

theorem guest_store_then_load_witness:
  "\<exists>q'. st_mmu sample_host 3 1 0 0x403ffd 0x1122334455667788 sample_tlb = Some (Inr (), q') \<and>
     ld_mmu sample_host False 3 1 0 0x403ffd q' = Some (Inr 0x1122334455667788, q') \<and>
     phys_ram q' 0x6000 = phys_ram sample_tlb 0x6000"
proof -
  let ?a = "\<lambda>i. 0x403ffd + of_nat i :: u32"
  have "phys_ram_base sample_tlb = 0x1000000" by (simp add: sample_tlb_def sample_x86_def)
  note ev = this less_cases(4) ram_hit_def page_entry_def host_of_def sample_entry_def tlb_index_def tlb_field_def tlb_matches_def
  have t: "tlb_table sample_tlb m 3 = sample_entry 0x403000 0x5000" "tlb_table sample_tlb m 4 = sample_entry 0x404000 0x9000" for m
    by (simp_all add: sample_tlb_def)
  have p: "\<forall>i<8. page_entry 1 sample_tlb (?a i)" by (auto simp: ev t)
  have h: "\<forall>i<8. ram_hit 0 1 sample_tlb (?a i) \<and> ram_hit 1 1 sample_tlb (?a i)" by (auto simp: ev t)
  have o: "\<forall>i<8. 0x6000 \<noteq> host_of 1 sample_tlb (?a i)" by (auto simp: ev t)
  have "(8 :: nat) = 2 ^ 3" by simp
  note * = guest_store_then_load [of 3 1 sample_tlb "0x403ffd" sample_host 0 "0x1122334455667788", folded this, OF _ p h]
  then show ?thesis using o by (auto simp: DATA_TYPE_def)
qed

end
