(* ===== verification/MachineI386.thy ===== *)
theory MachineI386
  imports SoftMMUData
begin

text \<open>
  \<^verbatim>\<open>MachineQEMUi386.cpp\<close>: MemCheck's view of an i386 guest, the implementation of the class
  \<^verbatim>\<open>Machine\<close> on the CPU state of the emulator. Arguments follow the register calling
  convention of the Linux kernel; memory is read through the debug interface.
\<close>

section \<open>Methods\<close>

abbreviation (input) R_EAX :: nat where "R_EAX \<equiv> 0"
abbreviation (input) R_ECX :: nat where "R_ECX \<equiv> 1"
abbreviation (input) R_EDX :: nat where "R_EDX \<equiv> 2"
abbreviation (input) R_ESP :: nat where "R_ESP \<equiv> 4"
abbreviation (input) R_EBP :: nat where "R_EBP \<equiv> 5"

text \<open>
  The buffer after a debug read; the return value is ignored by every caller. The effects that
  a debug read of a device register has on the device are left out.
\<close>

definition i386_read ::
  "('a cpu_x86_scheme) board \<Rightarrow> 'a cpu_x86_scheme \<Rightarrow> Addr32 \<Rightarrow> u8 list \<Rightarrow> u8 list" where
  "i386_read B q a buf =
     (case cpu_memory_rw_debug B (cpu_get_phys_page_debug B) a buf False q of (_, bs, _) \<Rightarrow> bs)"

definition i386_GetReturnValue :: "'a cpu_x86_scheme \<Rightarrow> Word32" where
  "i386_GetReturnValue q = regs q R_EAX"

definition i386_GetReturnAddress ::
  "('a cpu_x86_scheme) board \<Rightarrow> 'a cpu_x86_scheme \<Rightarrow> u8 list \<Rightarrow> Addr32" where
  "i386_GetReturnAddress B q junk = le32 (i386_read B q (regs q R_ESP) junk)"

definition i386_GetArgumentN ::
  "('a cpu_x86_scheme) board \<Rightarrow> 'a cpu_x86_scheme \<Rightarrow> u8 list \<Rightarrow> u32 \<Rightarrow> Word32" where
  "i386_GetArgumentN B q junk argN =
     (if argN = 1 then regs q R_EAX
      else if argN = 2 then regs q R_EDX
      else if argN = 3 then regs q R_ECX
      else le32 (i386_read B q (regs q R_ESP + 4 + 4 * (argN - 3 - 1)) junk))"

definition i386_GetArgument1 :: "'a cpu_x86_scheme \<Rightarrow> Word32" where
  "i386_GetArgument1 q = regs q R_EAX"

definition i386_GetArgument2 :: "'a cpu_x86_scheme \<Rightarrow> Word32" where
  "i386_GetArgument2 q = regs q R_EDX"

definition i386_GetPC :: "'a cpu_x86_scheme \<Rightarrow> Addr32" where
  "i386_GetPC q = eip q"

section \<open>Stack traces\<close>

text \<open>
  The walk along the frame pointers. \<open>junk\<close> gives, by depth, the indeterminate content of the
  local return address; the frame pointer is read into itself, so that it keeps its value where
  the stack cannot be read.
\<close>

function i386_RecurseStackTrace ::
  "('a cpu_x86_scheme) board \<Rightarrow> 'a cpu_x86_scheme \<Rightarrow> (nat \<Rightarrow> u8 list) \<Rightarrow> SymbolTable \<Rightarrow> Addr32 \<Rightarrow> nat \<Rightarrow>
   trace_line list" where
  "i386_RecurseStackTrace B q junk symbolTable framePointer depth =
     (if depth < 20 \<and> framePointer \<noteq> 0 then
        let returnAddress = le32 (i386_read B q (framePointer + 4) (junk depth)) in
        if returnAddress = 0 then []
        else PrintPC (of_nat depth) returnAddress symbolTable @
             i386_RecurseStackTrace B q junk symbolTable
               (le32 (i386_read B q (framePointer + 0) (le_bytes 4 framePointer))) (depth + 1)
      else [])"
  by pat_completeness auto
termination
  by (relation "measure (\<lambda>(B, q, junk, symbolTable, framePointer, depth). 20 - depth)") auto

declare i386_RecurseStackTrace.simps [simp del]

definition i386_StackTrace ::
  "('a cpu_x86_scheme) board \<Rightarrow> 'a cpu_x86_scheme \<Rightarrow> (nat \<Rightarrow> u8 list) \<Rightarrow> SymbolTable \<Rightarrow> trace_line list" where
  "i386_StackTrace B q junk symbolTable =
     Trace # PrintPC 0 (eip q) symbolTable @
       i386_RecurseStackTrace B q junk symbolTable (regs q R_EBP) 1"

definition i386_StackTraceAtFunction ::
  "('a cpu_x86_scheme) board \<Rightarrow> 'a cpu_x86_scheme \<Rightarrow> (nat \<Rightarrow> u8 list) \<Rightarrow> SymbolTable \<Rightarrow> trace_line list" where
  "i386_StackTraceAtFunction B q junk symbolTable =
     (let returnAddress = le32 (i386_read B q (regs q R_ESP) (junk 1)) in
      Trace # PrintPC 0 (eip q) symbolTable @ PrintPC 1 returnAddress symbolTable @
        i386_RecurseStackTrace B q junk symbolTable (regs q R_EBP) 2)"

text \<open>The machine that the checker runs on.\<close>

definition i386_machine :: "('a cpu_x86_scheme) board \<Rightarrow> ('a cpu_x86_scheme) Machine" where
  "i386_machine B =
     \<lparr>m_GetReturnValue = i386_GetReturnValue,
      m_GetReturnAddress = i386_GetReturnAddress B,
      m_GetArgumentN = i386_GetArgumentN B,
      m_GetArgument1 = i386_GetArgument1,
      m_GetArgument2 = i386_GetArgument2,
      m_GetPC = i386_GetPC,
      m_ReadMemory = i386_read B,
      m_StackTrace = (\<lambda>q junk. i386_StackTrace B q (\<lambda>_. junk)),
      m_StackTraceAtFunction = (\<lambda>q junk. i386_StackTraceAtFunction B q (\<lambda>_. junk))\<rparr>"

end
