(* ===== verification/MachineI386Props.thy ===== *)
theory MachineI386Props
  imports MachineI386
begin

text \<open>
  What MemCheck reads of an i386 guest: words of mapped memory as the guest would read them,
  stack traces that follow the frame pointers and always end, and indeterminate values where
  the stack is not mapped.
\<close>

section \<open>Words of guest memory\<close>

definition word_mapped :: "('a cpu_x86_scheme) board \<Rightarrow> 'a cpu_x86_scheme \<Rightarrow> Addr32 \<Rightarrow> bool" where
  "word_mapped B q a \<longleftrightarrow> (\<forall>i<4. mapped (cpu_get_phys_page_debug B) q (a + of_nat i))"

definition guest_word :: "('a cpu_x86_scheme) board \<Rightarrow> 'a cpu_x86_scheme \<Rightarrow> Addr32 \<Rightarrow> u32" where
  "guest_word B q a = le32 (map (\<lambda>i. vbyte (cpu_get_phys_page_debug B) q (a + of_nat i)) [0..<4])"

lemma i386_read_mapped:
  "word_mapped B q a \<Longrightarrow> length buf = 4 \<Longrightarrow> le32 (i386_read B q a buf) = guest_word B q a"
  using debug_all [of buf "cpu_get_phys_page_debug B" q a B]
  by (simp add: i386_read_def guest_word_def word_mapped_def)

lemma i386_read_unmapped:
  "unmapped (cpu_get_phys_page_debug B) q a \<Longrightarrow> i386_read B q a buf = buf"
  by (cases "buf = []")
    (simp_all add: i386_read_def unmapped_def cpu_memory_rw_debug.simps)

lemma length_le_bytes [simp]: "length (le_bytes n v) = n"
  by (simp add: le_bytes_def)

section \<open>Stack traces\<close>

text \<open>The return addresses along the frame pointers, up to a null pointer or address.\<close>

fun frames :: "('a cpu_x86_scheme) board \<Rightarrow> 'a cpu_x86_scheme \<Rightarrow> Addr32 \<Rightarrow> Addr32 list \<Rightarrow> bool" where
  "frames B q fp [] \<longleftrightarrow> fp = 0 \<or> word_mapped B q (fp + 4) \<and> guest_word B q (fp + 4) = 0"
| "frames B q fp (r # rs) \<longleftrightarrow> fp \<noteq> 0 \<and> word_mapped B q (fp + 4) \<and> guest_word B q (fp + 4) = r \<and> r \<noteq> 0 \<and>
     word_mapped B q fp \<and> frames B q (guest_word B q fp) rs"

definition print_from :: "SymbolTable \<Rightarrow> nat \<Rightarrow> Addr32 list \<Rightarrow> trace_line list" where
  "print_from tab d rs = concat (map (\<lambda>i. PrintPC (of_nat (d + i)) (rs ! i) tab) [0..<length rs])"

lemma print_from_simps [simp]:
  "print_from tab d [] = []" "print_from tab d (r # rs) = PrintPC (of_nat d) r tab @ print_from tab (Suc d) rs"
proof -
  have "[0..<length (r # rs)] = 0 # map Suc [0..<length rs]" by (simp add: upt_conv_Cons map_Suc_upt del: upt_Suc)
  then show "print_from tab d (r # rs) = PrintPC (of_nat d) r tab @ print_from tab (Suc d) rs"
    by (simp add: print_from_def comp_def ac_simps)
qed (simp add: print_from_def)

lemma RecurseStackTrace_frames:
  assumes "\<And>d. length (junk d) = 4"
  shows "frames B q fp rs \<Longrightarrow> i386_RecurseStackTrace B q junk tab fp d = print_from tab d (take (20 - d) rs)"
proof (induction rs arbitrary: fp d)
  case Nil
  then show ?case
    by (subst i386_RecurseStackTrace.simps) (auto simp: i386_read_mapped assms Let_def)
next
  case (Cons r rs)
  show ?case
  proof (cases "d < 20")
    case True
    then have "take (20 - d) (r # rs) = r # take (20 - Suc d) rs" by (simp add: take_Cons')
    then show ?thesis
      using Cons True by (subst i386_RecurseStackTrace.simps) (simp add: i386_read_mapped assms)
  next
    case False
    then show ?thesis by (subst i386_RecurseStackTrace.simps) simp
  qed
qed

text \<open>
  \<^bold>\<open>C27\<close>. On a readable stack the trace prints the program counter and then the return
  addresses along the chain of frame pointers, in order and numbered from 1, up to the end of
  the chain or the nineteenth frame.
\<close>

theorem stack_trace_follows_frames:
  assumes "frames B q (regs q R_EBP) rets" "\<And>d. length (junk d) = 4"
  shows "i386_StackTrace B q junk tab =
    Trace # PrintPC 0 (eip q) tab @ print_from tab 1 (take 19 rets)"
  using RecurseStackTrace_frames [OF assms(2,1), where tab = tab and d = 1] by (simp add: i386_StackTrace_def)

definition stack_ram :: mem where
  "stack_ram a = (if a = 0x5104 then 0x00 else if a = 0x5106 then 0x10 else if a = 0x5107 then 0xc0
     else sample_ram a)"

definition sample_stack :: cpu_x86 where
  "sample_stack = sample_x86\<lparr>phys_ram := stack_ram, regs := (\<lambda>i. if i = 5 then 0x403100 else 0), eip := 0xc0200000\<rparr>"

lemma sample_stack_tables:
  "cpu_get_phys_page_debug quiet_board 0x403000 sample_stack = (0x5000, sample_stack)"
  "cpu_get_physical_page_desc a sample_stack = cpu_get_physical_page_desc a sample_x86"
proof -
  show d: "cpu_get_physical_page_desc a sample_stack = cpu_get_physical_page_desc a sample_x86" for a
    by (rule desc_cong) (simp add: sample_stack_def)
  have c: "cr sample_stack = cr sample_x86" "a20_mask sample_stack = 0xffffffff" "phys_ram sample_stack = stack_ram"
    by (simp_all add: sample_stack_def sample_tables)
  have p: "legacy_pde_addr 0x403000 sample_stack = 0x1004" "legacy_pte_addr 0x2007 0x403000 sample_stack = 0x200c"
    by (simp_all add: legacy_pde_addr_def legacy_pte_addr_def c) (simp add: sample_x86_def)
  have w: "phys_word sample_stack 0x1004 = 0x2007" "phys_word sample_stack 0x200c = 0x5067"
    by (simp_all add: phys_word_def host_addr_def ram_offset_def d sample_tables c ldl_le_p_def stack_ram_def sample_ram_def)
  have "writable sample_stack 0x1004" "writable sample_stack 0x200c" by (simp_all add: writable_def d sample_tables)
  note ld = ldl_ram [OF this(1)] ldl_ram [OF this(2)]
  show "cpu_get_phys_page_debug quiet_board 0x403000 sample_stack = (0x5000, sample_stack)"
    by (simp add: cpu_get_phys_page_debug_def debug_legacy_def c sample_tables p ld w)
qed

lemma le32_4: "le32 [a, b, c, d] = ucast a + ucast b * 2 ^ 8 + ucast c * 2 ^ 16 + ucast d * 2 ^ 24"
proof -
  have "{..<4} = {0, 1, 2, 3 :: nat}" by auto
  then show ?thesis by (simp add: le32_def)
qed

lemma sample_stack_byte:
  assumes "page_bits a = 0x403000" "drop_bit 12 (0x5000 + offset_bits a) = 5"
  shows "mapped (cpu_get_phys_page_debug quiet_board) sample_stack a"
    "vbyte (cpu_get_phys_page_debug quiet_board) sample_stack a = stack_ram (0x5000 + ((0x5000 + offset_bits a) AND 0xfff))"
proof -
  have d: "cpu_get_physical_page_desc (0x5000 + offset_bits a) sample_x86 = 0x5000"
    using assms(2) by (simp add: sample_x86_desc) (simp add: sample_x86_def)
  have r: "phys_ram sample_stack = stack_ram" by (simp add: sample_stack_def)
  show "mapped (cpu_get_phys_page_debug quiet_board) sample_stack a"
    by (simp add: mapped_def vaddr_of_def assms(1) sample_stack_tables readable_def is_io_read_def d)
  show "vbyte (cpu_get_phys_page_debug quiet_board) sample_stack a =
      stack_ram (0x5000 + ((0x5000 + offset_bits a) AND 0xfff))"
    by (simp add: vbyte_def vaddr_of_def assms(1) sample_stack_tables ram_byte_def host_addr_def ram_offset_def d r)
qed

lemma sample_stack_words:
  "word_mapped quiet_board sample_stack 0x403104" "guest_word quiet_board sample_stack 0x403104 = 0xc0100000"
  "word_mapped quiet_board sample_stack 0x403100" "guest_word quiet_board sample_stack 0x403100 = 0"
proof -
  have u: "[0..<4] = [0, 1, 2, 3 :: nat]" by (simp add: upt_rec)
  show "word_mapped quiet_board sample_stack 0x403104" "word_mapped quiet_board sample_stack 0x403100"
    by (simp_all add: word_mapped_def less_4 sample_stack_byte)
  show "guest_word quiet_board sample_stack 0x403104 = 0xc0100000" "guest_word quiet_board sample_stack 0x403100 = 0"
    by (simp_all add: guest_word_def u le32_4 sample_stack_byte stack_ram_def sample_ram_def)
qed

theorem stack_trace_follows_frames_witness:
  "i386_StackTrace quiet_board sample_stack (\<lambda>_. [1, 2, 3, 4]) empty_SymbolTable =
   [Trace, PCPlain 0 0xc0200000, PCPlain 1 0xc0100000]"
proof -
  have f: "frames quiet_board sample_stack (regs sample_stack R_EBP) [0xc0100000]"
    using sample_stack_words by (simp add: sample_stack_def [THEN arg_cong, of regs])
  show ?thesis
    using stack_trace_follows_frames [OF f, of "\<lambda>_. [1, 2, 3, 4]" empty_SymbolTable]
    by (simp add: PrintPC_def empty_SymbolTable_def Lookup_def sample_stack_def)
qed

lemma length_PrintPC [simp]: "length (PrintPC d pc tab) = 1"
  by (simp add: PrintPC_def split: option.split)

lemma RecurseStackTrace_length: "length (i386_RecurseStackTrace B q junk tab fp d) \<le> 20 - d"
proof (induction B q junk tab fp d rule: i386_RecurseStackTrace.induct)
  case (1 B q junk tab fp d)
  let ?r = "le32 (i386_read B q (fp + 4) (junk d))"
  show ?case
  proof (cases "d < 20 \<and> fp \<noteq> 0 \<and> ?r \<noteq> 0")
    case True
    then show ?thesis using 1 by (subst i386_RecurseStackTrace.simps) (auto simp: Let_def)
  next
    case False
    then show ?thesis by (subst i386_RecurseStackTrace.simps) (auto simp: Let_def)
  qed
qed

section \<open>Unreadable stacks\<close>

text \<open>
  \<^bold>\<open>C39\<close>. Where the stack is not mapped, the return address and the fourth and later arguments
  are the indeterminate content of an uninitialised local: the failure of the debug read is
  not tested.
\<close>

theorem unmapped_stack_is_indeterminate:
  assumes "unmapped (cpu_get_phys_page_debug B) q (regs q R_ESP)"
    and "argN \<notin> {1, 2, 3}"
    and "unmapped (cpu_get_phys_page_debug B) q (regs q R_ESP + 4 + 4 * (argN - 3 - 1))"
  shows "i386_GetReturnAddress B q junk = le32 junk \<and> i386_GetArgumentN B q junk argN = le32 junk"
  using assms i386_read_unmapped
  by (simp add: i386_GetReturnAddress_def i386_GetArgumentN_def i386_read_unmapped)

definition sample_unmapped :: cpu_x86 where
  "sample_unmapped = sample_x86\<lparr>regs := (\<lambda>i. if i = 4 then 0x800100 else 0)\<rparr>"

lemma sample_unmapped_page: "cpu_get_phys_page_debug quiet_board 0x800000 sample_unmapped = (-1, sample_unmapped)"
proof -
  have d: "cpu_get_physical_page_desc a sample_unmapped = cpu_get_physical_page_desc a sample_x86" for a
    by (rule desc_cong) (simp add: sample_unmapped_def)
  have c: "cr sample_unmapped = cr sample_x86" "a20_mask sample_unmapped = 0xffffffff"
    "phys_ram sample_unmapped = phys_ram sample_x86"
    by (simp_all add: sample_unmapped_def sample_tables)
  have e: "cpu_get_physical_page_desc 0x1008 sample_x86 = 0x1000"
    by (simp add: sample_x86_desc) (simp add: sample_x86_def)
  have p: "legacy_pde_addr 0x800000 sample_unmapped = 0x1008"
    by (simp add: legacy_pde_addr_def c) (simp add: sample_x86_def)
  have w: "phys_word sample_unmapped 0x1008 = 0"
    by (simp add: phys_word_def host_addr_def ram_offset_def d e c ldl_le_p_def) (simp add: sample_x86_def sample_ram_def)
  have "writable sample_unmapped 0x1008" by (simp add: writable_def d e)
  note ld = ldl_ram [OF this]
  show ?thesis
    by (simp add: cpu_get_phys_page_debug_def debug_legacy_def c sample_tables p ld w)
qed

theorem unmapped_stack_is_indeterminate_witness:
  "i386_GetReturnAddress quiet_board sample_unmapped [1, 2, 3, 4] = 0x04030201 \<and>
   i386_GetArgumentN quiet_board sample_unmapped [1, 2, 3, 4] 5 = 0x04030201"
proof -
  have r: "regs sample_unmapped 4 = 0x800100" by (simp add: sample_unmapped_def)
  then have "unmapped (cpu_get_phys_page_debug quiet_board) sample_unmapped (regs sample_unmapped 4)"
    "unmapped (cpu_get_phys_page_debug quiet_board) sample_unmapped (regs sample_unmapped 4 + 4 + 4 * (5 - 3 - 1))"
    by (simp_all add: unmapped_def sample_unmapped_page)
  then show ?thesis
    using unmapped_stack_is_indeterminate [of quiet_board sample_unmapped 5 "[1, 2, 3, 4]"] by (simp add: le32_4)
qed

end
