(* ===== verification/MachineMips.thy ===== *)
theory MachineMips
  imports ExecTLB MemCheckCore
begin

text \<open>
  \<^verbatim>\<open>MachineQEMUmips.cpp\<close>: MemCheck's view of a MIPS guest. All of the calling convention is
  in registers of the current thread context; there is no frame chain, so a stack trace stops
  at the return address. The debug walk of the page tables is the parameter \<open>gp\<close>.
\<close>

record cpu_mips = cpu_common +
  mips_gpr :: "nat \<Rightarrow> nat \<Rightarrow> u32"
  mips_PC :: "nat \<Rightarrow> u32"
  mips_current_tc :: nat

abbreviation (input) MIPS_GPR_V0 :: nat where "MIPS_GPR_V0 \<equiv> 2"
abbreviation (input) MIPS_GPR_A0 :: nat where "MIPS_GPR_A0 \<equiv> 4"
abbreviation (input) MIPS_GPR_A1 :: nat where "MIPS_GPR_A1 \<equiv> 5"
abbreviation (input) MIPS_GPR_A2 :: nat where "MIPS_GPR_A2 \<equiv> 6"
abbreviation (input) MIPS_GPR_A3 :: nat where "MIPS_GPR_A3 \<equiv> 7"
abbreviation (input) MIPS_GPR_RA :: nat where "MIPS_GPR_RA \<equiv> 31"

definition mips_GetReturnValue :: "'a cpu_mips_scheme \<Rightarrow> Word32" where
  "mips_GetReturnValue q = mips_gpr q MIPS_GPR_V0 (mips_current_tc q)"

definition mips_GetReturnAddress :: "'a cpu_mips_scheme \<Rightarrow> Addr32" where
  "mips_GetReturnAddress q = mips_gpr q MIPS_GPR_RA (mips_current_tc q)"

definition mips_GetArgumentN :: "'a cpu_mips_scheme \<Rightarrow> u32 \<Rightarrow> Word32" where
  "mips_GetArgumentN q argN =
     (if argN = 1 then mips_gpr q MIPS_GPR_A0 (mips_current_tc q)
      else if argN = 2 then mips_gpr q MIPS_GPR_A1 (mips_current_tc q)
      else if argN = 3 then mips_gpr q MIPS_GPR_A2 (mips_current_tc q)
      else if argN = 4 then mips_gpr q MIPS_GPR_A3 (mips_current_tc q)
      else -1)"

definition mips_GetArgument1 :: "'a cpu_mips_scheme \<Rightarrow> Word32" where
  "mips_GetArgument1 q = mips_gpr q MIPS_GPR_A0 (mips_current_tc q)"

definition mips_GetArgument2 :: "'a cpu_mips_scheme \<Rightarrow> Word32" where
  "mips_GetArgument2 q = mips_gpr q MIPS_GPR_A1 (mips_current_tc q)"

definition mips_GetPC :: "'a cpu_mips_scheme \<Rightarrow> Addr32" where
  "mips_GetPC q = mips_PC q (mips_current_tc q)"

definition mips_ReadMemory ::
  "('a cpu_mips_scheme) board \<Rightarrow> (u32 \<Rightarrow> 'a cpu_mips_scheme \<Rightarrow> u32 \<times> 'a cpu_mips_scheme) \<Rightarrow>
   'a cpu_mips_scheme \<Rightarrow> Addr32 \<Rightarrow> u8 list \<Rightarrow> u8 list" where
  "mips_ReadMemory B gp q a buf = (case cpu_memory_rw_debug B gp a buf False q of (_, bs, _) \<Rightarrow> bs)"

definition mips_StackTraceAtFunction :: "'a cpu_mips_scheme \<Rightarrow> SymbolTable \<Rightarrow> trace_line list" where
  "mips_StackTraceAtFunction q symbolTable =
     Trace # PrintPC 0 (mips_PC q (mips_current_tc q)) symbolTable @
       PrintPC 1 (mips_gpr q MIPS_GPR_RA (mips_current_tc q)) symbolTable"

definition mips_StackTrace :: "'a cpu_mips_scheme \<Rightarrow> SymbolTable \<Rightarrow> trace_line list" where
  "mips_StackTrace q symbolTable = Trace # PrintPC 0 (mips_PC q (mips_current_tc q)) symbolTable"

definition mips_machine ::
  "('a cpu_mips_scheme) board \<Rightarrow> (u32 \<Rightarrow> 'a cpu_mips_scheme \<Rightarrow> u32 \<times> 'a cpu_mips_scheme) \<Rightarrow>
   ('a cpu_mips_scheme) Machine" where
  "mips_machine B gp =
     \<lparr>m_GetReturnValue = mips_GetReturnValue,
      m_GetReturnAddress = (\<lambda>q _. mips_GetReturnAddress q),
      m_GetArgumentN = (\<lambda>q _. mips_GetArgumentN q),
      m_GetArgument1 = mips_GetArgument1,
      m_GetArgument2 = mips_GetArgument2,
      m_GetPC = mips_GetPC,
      m_ReadMemory = mips_ReadMemory B gp,
      m_StackTrace = (\<lambda>q _. mips_StackTrace q),
      m_StackTraceAtFunction = (\<lambda>q _. mips_StackTraceAtFunction q)\<rparr>"

end
