(* ===== verification/MachinePpc.thy ===== *)
theory MachinePpc
  imports ExecTLB MemCheckCore
begin

text \<open>
  \<^verbatim>\<open>MachineQEMUppc.cpp\<close>: MemCheck's view of a PowerPC guest. Eight arguments in registers,
  the return address in the link register; the walk along the frames is commented out. The
  debug walk of the page tables is the parameter \<open>gp\<close>.
\<close>

record cpu_ppc = cpu_common +
  ppc_gpr :: "nat \<Rightarrow> u32"
  ppc_lr :: u32
  ppc_nip :: u32

definition ppc_GetReturnValue :: "'a cpu_ppc_scheme \<Rightarrow> Word32" where
  "ppc_GetReturnValue q = ppc_gpr q 3"

definition ppc_GetReturnAddress :: "'a cpu_ppc_scheme \<Rightarrow> Addr32" where
  "ppc_GetReturnAddress q = ppc_lr q"

definition ppc_GetArgumentN :: "'a cpu_ppc_scheme \<Rightarrow> u32 \<Rightarrow> Word32" where
  "ppc_GetArgumentN q argN =
     (if 1 \<le> argN \<and> argN \<le> 8 then ppc_gpr q (unat (argN - 1 + 3)) else -1)"

definition ppc_GetArgument1 :: "'a cpu_ppc_scheme \<Rightarrow> Word32" where
  "ppc_GetArgument1 q = ppc_gpr q 3"

definition ppc_GetArgument2 :: "'a cpu_ppc_scheme \<Rightarrow> Word32" where
  "ppc_GetArgument2 q = ppc_gpr q 4"

definition ppc_GetPC :: "'a cpu_ppc_scheme \<Rightarrow> Addr32" where
  "ppc_GetPC q = ppc_nip q"

definition ppc_ReadMemory ::
  "('a cpu_ppc_scheme) board \<Rightarrow> (u32 \<Rightarrow> 'a cpu_ppc_scheme \<Rightarrow> u32 \<times> 'a cpu_ppc_scheme) \<Rightarrow>
   'a cpu_ppc_scheme \<Rightarrow> Addr32 \<Rightarrow> u8 list \<Rightarrow> u8 list" where
  "ppc_ReadMemory B gp q a buf = (case cpu_memory_rw_debug B gp a buf False q of (_, bs, _) \<Rightarrow> bs)"

definition ppc_StackTraceAtFunction :: "'a cpu_ppc_scheme \<Rightarrow> SymbolTable \<Rightarrow> trace_line list" where
  "ppc_StackTraceAtFunction q symbolTable =
     Trace # PrintPC 0 (ppc_nip q) symbolTable @ PrintPC 1 (ppc_lr q) symbolTable"

definition ppc_StackTrace :: "'a cpu_ppc_scheme \<Rightarrow> SymbolTable \<Rightarrow> trace_line list" where
  "ppc_StackTrace q symbolTable = Trace # PrintPC 0 (ppc_nip q) symbolTable"

definition ppc_machine ::
  "('a cpu_ppc_scheme) board \<Rightarrow> (u32 \<Rightarrow> 'a cpu_ppc_scheme \<Rightarrow> u32 \<times> 'a cpu_ppc_scheme) \<Rightarrow>
   ('a cpu_ppc_scheme) Machine" where
  "ppc_machine B gp =
     \<lparr>m_GetReturnValue = ppc_GetReturnValue,
      m_GetReturnAddress = (\<lambda>q _. ppc_GetReturnAddress q),
      m_GetArgumentN = (\<lambda>q _. ppc_GetArgumentN q),
      m_GetArgument1 = ppc_GetArgument1,
      m_GetArgument2 = ppc_GetArgument2,
      m_GetPC = ppc_GetPC,
      m_ReadMemory = ppc_ReadMemory B gp,
      m_StackTrace = (\<lambda>q _. ppc_StackTrace q),
      m_StackTraceAtFunction = (\<lambda>q _. ppc_StackTraceAtFunction q)\<rparr>"

end
