(* ===== verification/Machines.thy ===== *)
theory Machines
  imports MachineI386Props MachineMips MachinePpc
begin

text \<open>
  What the checker relies on of a machine, as an interface: the first two arguments can be
  read in two ways, and a stack trace is short. The three implementations provide it.
\<close>

locale guest_machine =
  fixes M :: "'cpu Machine"
  assumes argument_1: "m_GetArgumentN M cpu junk 1 = m_GetArgument1 M cpu"
    and argument_2: "m_GetArgumentN M cpu junk 2 = m_GetArgument2 M cpu"
    and trace_short: "length (m_StackTrace M cpu junk tab) \<le> 21"
    and trace_at_short: "length (m_StackTraceAtFunction M cpu junk tab) \<le> 21"
begin

lemma comm_short: "length (mc_Out (PrintKernelComm M am cpu s)) \<le> length (mc_Out s) + 1"
  by (simp add: PrintKernelComm_def emit_def Let_def split: prod.split)

lemma access_output: "length (mc_Out (MemoryAccess M am cpu a n s)) \<le> length (mc_Out s) + 23"
proof -
  have "length (mc_Out (DumpTrace M am cpu s')) \<le> length (mc_Out s') + 22" for s'
    using comm_short [of am cpu s']
      trace_short [of cpu "am_word am" "mc_SymbolTable (PrintKernelComm M am cpu s')"]
    by (simp add: DumpTrace_def emit_def Let_def)
  from this [of "emit [OutOfBound a n] s"] show ?thesis
    by (simp add: MemoryAccess_def emit_def split: option.split)
qed

lemma enter_output:
  assumes "f_Debug f" "f_NumberOfArguments f = 2"
  shows "debug_enter M am f r cpu s =
    emit [EnterLine (f_SymbolName f) (m_GetPC M cpu) r [m_GetArgument1 M cpu, m_GetArgument2 M cpu]] s"
proof -
  have "[1..<Suc 2] = [1, 2]" by (simp add: upt_rec)
  then show ?thesis using assms argument_1 [of cpu "am_word am"] argument_2 [of cpu "am_word am"]
    by (simp add: debug_enter_def)
qed

end

lemma i386_traces_short:
  "length (i386_StackTrace B q junk tab) \<le> 21" "length (i386_StackTraceAtFunction B q junk tab) \<le> 21"
proof -
  note l = RecurseStackTrace_length [of B q junk tab "regs q R_EBP"]
  show "length (i386_StackTrace B q junk tab) \<le> 21" "length (i386_StackTraceAtFunction B q junk tab) \<le> 21"
    using l [of 1] l [of 2] by (simp_all add: i386_StackTrace_def i386_StackTraceAtFunction_def Let_def)
qed

interpretation i386: guest_machine "i386_machine B"
  by unfold_locales
    (simp_all add: i386_machine_def i386_GetArgumentN_def i386_GetArgument1_def i386_GetArgument2_def
      i386_traces_short)

interpretation mips: guest_machine "mips_machine B gp"
  by unfold_locales
    (simp_all add: mips_machine_def mips_GetArgumentN_def mips_GetArgument1_def mips_GetArgument2_def
      mips_StackTrace_def mips_StackTraceAtFunction_def)

interpretation ppc: guest_machine "ppc_machine B gp"
  by unfold_locales
    (simp_all add: ppc_machine_def ppc_GetArgumentN_def ppc_GetArgument1_def ppc_GetArgument2_def
      ppc_StackTrace_def ppc_StackTraceAtFunction_def)


text \<open>
  With debugging on, the line printed at the entry of a function of two arguments
  shows on every target the two values that the hooks of the allocator act on.
\<close>

lemma enter_line_shows_operands:
  fixes q :: "'a cpu_x86_scheme" and mq :: "'b cpu_mips_scheme" and pq :: "'c cpu_ppc_scheme"
  assumes "f_Debug f" "f_NumberOfArguments f = 2"
  shows "debug_enter (i386_machine B) am f r q s = emit [EnterLine (f_SymbolName f) (eip q) r
      [i386_GetArgument1 q, i386_GetArgument2 q]] s"
    "debug_enter (mips_machine B' gp') am f r mq s = emit [EnterLine (f_SymbolName f) (mips_GetPC mq) r
      [mips_GetArgument1 mq, mips_GetArgument2 mq]] s"
    "debug_enter (ppc_machine B'' gp'') am f r pq s = emit [EnterLine (f_SymbolName f) (ppc_GetPC pq) r
      [ppc_GetArgument1 pq, ppc_GetArgument2 pq]] s"
  using i386.enter_output [OF assms, of B am r q s] mips.enter_output [OF assms, of B' gp' am r mq s]
    ppc.enter_output [OF assms, of B'' gp'' am r pq s]
  by (simp_all add: i386_machine_def mips_machine_def ppc_machine_def i386_GetPC_def)

end
