(* ===== verification/TBCache.thy ===== *)
theory TBCache
  imports SoftMMU
begin

text \<open>
  The cache of translated code (\<^verbatim>\<open>exec.c\<close>, \<^verbatim>\<open>exec-all.h\<close>) for the i386 target on a host
  without direct jumps (Windows, where MemCheck is built): translation blocks, the hash table
  by physical address, the lists of blocks per physical page, the circular lists of patched
  jumps, and the invalidation of blocks whose guest code is overwritten.

  A pointer to a block is its index in the array \<^verbatim>\<open>tbs\<close>; the two low bits that the code
  packs into some pointers are a second component. The result \<open>None\<close> of an operation means
  that it does not return: it follows a null pointer or loops forever.
\<close>

section \<open>State\<close>

type_synonym tb_ref = "nat \<times> nat"

record TranslationBlock =
  tb_pc :: u32
  tb_cs_base :: u32
  tb_flags :: u64
  tb_size :: u16
  tb_cflags :: u16
  tc_ptr :: u32
  phys_hash_next :: "nat option"
  page_next :: "nat \<Rightarrow> tb_ref option"
  page_addr :: "nat \<Rightarrow> u32"
  tb_next_offset :: "nat \<Rightarrow> u16"
  tb_next :: "nat \<Rightarrow> u32"
  jmp_next :: "nat \<Rightarrow> tb_ref option"
  jmp_first :: "tb_ref option"

record PageDesc =
  first_tb :: "tb_ref option"
  code_write_count :: u32
  code_bitmap :: "u8 list option"

text \<open>
  The cache extends the state of the CPU. \<open>in_cpu_exec\<close> tells that \<^verbatim>\<open>cpu_single_env\<close> is not
  null, \<open>cs_seg_base\<close> is \<^verbatim>\<open>segs[R_CS].base\<close>, and \<open>mc\<close> is the state of MemCheck.
\<close>

record tb_ctx = cpu_x86 +
  tbs :: "nat \<Rightarrow> TranslationBlock"
  nb_tbs :: nat
  code_gen_ptr :: u32
  tb_phys_hash :: "nat \<Rightarrow> nat option"
  l1_map :: "nat \<rightharpoonup> (nat \<Rightarrow> PageDesc)"
  tb_invalidated_flag :: bool
  tb_flush_count :: u32
  tb_phys_invalidate_count :: u32
  in_cpu_exec :: bool
  cs_seg_base :: u32
  intercept :: u64
  breakpoints :: "u32 list"
  singlestep_enabled :: u32
  mc :: memcheck

text \<open>A function returns a value, or leaves by \<^verbatim>\<open>longjmp\<close> to the main loop.\<close>

datatype ('v, 'q) result = Done 'v 'q | Longjmp 'q

definition and_then ::
  "('v, 'q) result option \<Rightarrow> ('v \<Rightarrow> 'q \<Rightarrow> ('w, 'q) result option) \<Rightarrow> ('w, 'q) result option" where
  "and_then r f =
     (case r of
        None \<Rightarrow> None
      | Some (Longjmp q) \<Rightarrow> Some (Longjmp q)
      | Some (Done v q) \<Rightarrow> f v q)"

text \<open>
  The surroundings: the memory and the machine, what MemCheck's locals hold, the translator
  \<^verbatim>\<open>cpu_gen_code\<close> (with the size of the code it generates), \<^verbatim>\<open>cpu_restore_state\<close>, the
  address of the code buffer and the space a block may need at most.
\<close>

record 'q trans =
  x_host :: "'q host"
  x_machine :: "'q Machine"
  x_ambient :: ambient
  cpu_gen_code :: "nat \<Rightarrow> 'q \<Rightarrow> (u32, 'q) result"
  cpu_restore_state :: "nat \<Rightarrow> u32 \<Rightarrow> 'q \<Rightarrow> 'q"
  code_gen_buffer :: u32
  code_gen_max_block_size :: u32

abbreviation (input) CODE_GEN_MAX_BLOCKS :: nat where "CODE_GEN_MAX_BLOCKS \<equiv> 131072"
abbreviation (input) CODE_GEN_BUFFER_SIZE :: u32 where "CODE_GEN_BUFFER_SIZE \<equiv> 0x1000000"
abbreviation (input) CF_SINGLE_INSN :: u16 where "CF_SINGLE_INSN \<equiv> 8"
abbreviation (input) SMC_BITMAP_USE_THRESHOLD :: u32 where "SMC_BITMAP_USE_THRESHOLD \<equiv> 10"

definition set_tb :: "nat \<Rightarrow> (TranslationBlock \<Rightarrow> TranslationBlock) \<Rightarrow> 'a tb_ctx_scheme \<Rightarrow> 'a tb_ctx_scheme" where
  "set_tb tb f q = q\<lparr>tbs := (tbs q)(tb := f (tbs q tb))\<rparr>"

definition tb_jmp_cache_hash_func :: "u32 \<Rightarrow> nat" where
  "tb_jmp_cache_hash_func pc =
     (let tmp = pc XOR drop_bit 6 pc in unat ((drop_bit 6 tmp AND 0xfc0) OR (tmp AND 0x3f)))"

definition tb_phys_hash_func :: "u32 \<Rightarrow> nat" where
  "tb_phys_hash_func pc = unat (pc AND 0x7fff)"

section \<open>Page descriptors\<close>

definition empty_page :: PageDesc where
  "empty_page = \<lparr>first_tb = None, code_write_count = 0, code_bitmap = None\<rparr>"

definition page_find :: "u32 \<Rightarrow> 'a tb_ctx_scheme \<Rightarrow> PageDesc option" where
  "page_find index q =
     (case l1_map q (unat (drop_bit 10 index)) of
        None \<Rightarrow> None
      | Some p \<Rightarrow> Some (p (unat (index AND 0x3ff))))"

definition page_find_alloc :: "u32 \<Rightarrow> 'a tb_ctx_scheme \<Rightarrow> 'a tb_ctx_scheme" where
  "page_find_alloc index q =
     (case l1_map q (unat (drop_bit 10 index)) of
        None \<Rightarrow> q\<lparr>l1_map := (l1_map q)(unat (drop_bit 10 index) \<mapsto> (\<lambda>_. empty_page))\<rparr>
      | Some _ \<Rightarrow> q)"

text \<open>A change through the pointer that \<^verbatim>\<open>page_find\<close> has returned.\<close>

definition set_page :: "u32 \<Rightarrow> (PageDesc \<Rightarrow> PageDesc) \<Rightarrow> 'a tb_ctx_scheme \<Rightarrow> 'a tb_ctx_scheme" where
  "set_page index f q =
     (case l1_map q (unat (drop_bit 10 index)) of
        None \<Rightarrow> q
      | Some p \<Rightarrow> q\<lparr>l1_map := (l1_map q)(unat (drop_bit 10 index) \<mapsto>
            p(unat (index AND 0x3ff) := f (p (unat (index AND 0x3ff)))))\<rparr>)"

definition invalidate_page_bitmap :: "PageDesc \<Rightarrow> PageDesc" where
  "invalidate_page_bitmap p = p\<lparr>code_bitmap := None, code_write_count := 0\<rparr>"

definition page_flush_tb :: "'a tb_ctx_scheme \<Rightarrow> 'a tb_ctx_scheme" where
  "page_flush_tb q =
     q\<lparr>l1_map := (\<lambda>i. map_option (\<lambda>p j. invalidate_page_bitmap (p j\<lparr>first_tb := None\<rparr>)) (l1_map q i))\<rparr>"

definition tb_flush :: "('a tb_ctx_scheme) trans \<Rightarrow> 'a tb_ctx_scheme \<Rightarrow> 'a tb_ctx_scheme" where
  "tb_flush X q =
     (let q1 = page_flush_tb (q\<lparr>nb_tbs := 0, tb_jmp_cache := (\<lambda>_. None), tb_phys_hash := (\<lambda>_. None)\<rparr>) in
      q1\<lparr>code_gen_ptr := code_gen_buffer X, tb_flush_count := tb_flush_count q1 + 1\<rparr>)"

section \<open>Removal from the lists\<close>

text \<open>The places that the pointer \<^verbatim>\<open>ptb\<close> of the loops can point to.\<close>

datatype hash_slot = HashHead nat | HashNext nat

fun get_hash :: "hash_slot \<Rightarrow> 'a tb_ctx_scheme \<Rightarrow> nat option" where
  "get_hash (HashHead h) q = tb_phys_hash q h"
| "get_hash (HashNext tb) q = phys_hash_next (tbs q tb)"

fun set_hash :: "hash_slot \<Rightarrow> nat option \<Rightarrow> 'a tb_ctx_scheme \<Rightarrow> 'a tb_ctx_scheme" where
  "set_hash (HashHead h) v q = q\<lparr>tb_phys_hash := (tb_phys_hash q)(h := v)\<rparr>"
| "set_hash (HashNext tb) v q = set_tb tb (\<lambda>b. b\<lparr>phys_hash_next := v\<rparr>) q"

partial_function (option) tb_remove ::
  "hash_slot \<Rightarrow> nat \<Rightarrow> 'a tb_ctx_scheme \<Rightarrow> 'a tb_ctx_scheme option" where
  "tb_remove ptb tb q =
     (case get_hash ptb q of
        None \<Rightarrow> None
      | Some tb1 \<Rightarrow>
          if tb1 = tb then Some (set_hash ptb (phys_hash_next (tbs q tb1)) q)
          else tb_remove (HashNext tb1) tb q)"

datatype page_slot = PageHead u32 | PageNext nat nat

fun get_page_slot :: "page_slot \<Rightarrow> 'a tb_ctx_scheme \<Rightarrow> tb_ref option" where
  "get_page_slot (PageHead i) q = Option.bind (page_find i q) first_tb"
| "get_page_slot (PageNext tb n) q = page_next (tbs q tb) n"

fun set_page_slot :: "page_slot \<Rightarrow> tb_ref option \<Rightarrow> 'a tb_ctx_scheme \<Rightarrow> 'a tb_ctx_scheme" where
  "set_page_slot (PageHead i) v q = set_page i (\<lambda>p. p\<lparr>first_tb := v\<rparr>) q"
| "set_page_slot (PageNext tb n) v q = set_tb tb (\<lambda>b. b\<lparr>page_next := (page_next b)(n := v)\<rparr>) q"

partial_function (option) tb_page_remove ::
  "page_slot \<Rightarrow> nat \<Rightarrow> 'a tb_ctx_scheme \<Rightarrow> 'a tb_ctx_scheme option" where
  "tb_page_remove ptb tb q =
     (case get_page_slot ptb q of
        None \<Rightarrow> None
      | Some (tb1, n1) \<Rightarrow>
          if tb1 = tb then Some (set_page_slot ptb (page_next (tbs q tb1) n1) q)
          else tb_page_remove (PageNext tb1 n1) tb q)"

datatype jmp_slot = JmpFirst nat | JmpNext nat nat

fun get_jmp :: "jmp_slot \<Rightarrow> 'a tb_ctx_scheme \<Rightarrow> tb_ref option" where
  "get_jmp (JmpFirst tb) q = jmp_first (tbs q tb)"
| "get_jmp (JmpNext tb n) q = jmp_next (tbs q tb) n"

fun set_jmp :: "jmp_slot \<Rightarrow> tb_ref option \<Rightarrow> 'a tb_ctx_scheme \<Rightarrow> 'a tb_ctx_scheme" where
  "set_jmp (JmpFirst tb) v q = set_tb tb (\<lambda>b. b\<lparr>jmp_first := v\<rparr>) q"
| "set_jmp (JmpNext tb n) v q = set_tb tb (\<lambda>b. b\<lparr>jmp_next := (jmp_next b)(n := v)\<rparr>) q"

text \<open>The search for the slot that points to the jump \<open>n\<close> of the block.\<close>

partial_function (option) jmp_search ::
  "jmp_slot \<Rightarrow> nat \<Rightarrow> nat \<Rightarrow> 'a tb_ctx_scheme \<Rightarrow> jmp_slot option" where
  "jmp_search ptb tb n q =
     (case get_jmp ptb q of
        None \<Rightarrow> None
      | Some (tb1, n1) \<Rightarrow>
          if n1 = n \<and> tb1 = tb then Some ptb
          else jmp_search (if n1 = 2 then JmpFirst tb1 else JmpNext tb1 n1) tb n q)"

definition tb_jmp_remove :: "nat \<Rightarrow> nat \<Rightarrow> 'a tb_ctx_scheme \<Rightarrow> 'a tb_ctx_scheme option" where
  "tb_jmp_remove tb n q =
     (if jmp_next (tbs q tb) n = None then Some q
      else Option.bind (jmp_search (JmpNext tb n) tb n q) (\<lambda>ptb.
        Some (set_jmp (JmpNext tb n) None (set_jmp ptb (jmp_next (tbs q tb) n) q))))"

section \<open>Patched jumps\<close>

definition tb_set_jmp_target :: "nat \<Rightarrow> nat \<Rightarrow> u32 \<Rightarrow> 'a tb_ctx_scheme \<Rightarrow> 'a tb_ctx_scheme" where
  "tb_set_jmp_target tb n addr q = set_tb tb (\<lambda>b. b\<lparr>tb_next := (tb_next b)(n := addr)\<rparr>) q"

definition tb_reset_jump :: "nat \<Rightarrow> nat \<Rightarrow> 'a tb_ctx_scheme \<Rightarrow> 'a tb_ctx_scheme" where
  "tb_reset_jump tb n q =
     tb_set_jmp_target tb n (tc_ptr (tbs q tb) + ucast (tb_next_offset (tbs q tb) n)) q"

definition tb_add_jump :: "nat \<Rightarrow> nat \<Rightarrow> nat \<Rightarrow> 'a tb_ctx_scheme \<Rightarrow> 'a tb_ctx_scheme" where
  "tb_add_jump tb n nxt q =
     (if jmp_next (tbs q tb) n = None then
        let q1 = tb_set_jmp_target tb n (tc_ptr (tbs q nxt)) q in
        set_jmp (JmpFirst nxt) (Some (tb, n)) (set_jmp (JmpNext tb n) (jmp_first (tbs q1 nxt)) q1)
      else q)"

text \<open>The loop that undoes the jumps of a circular list, up to the entry of its own block.\<close>

partial_function (option) reset_jumps ::
  "tb_ref option \<Rightarrow> 'a tb_ctx_scheme \<Rightarrow> 'a tb_ctx_scheme option" where
  "reset_jumps r q =
     (case r of
        None \<Rightarrow> None
      | Some (tb1, n1) \<Rightarrow>
          if n1 = 2 then Some q
          else reset_jumps (jmp_next (tbs q tb1) n1)
                 (set_jmp (JmpNext tb1 n1) None (tb_reset_jump tb1 n1 q)))"

text \<open>The entry that ends a circular list, with its block.\<close>

partial_function (option) jmp_head :: "tb_ref option \<Rightarrow> 'a tb_ctx_scheme \<Rightarrow> nat option" where
  "jmp_head r q =
     (case r of
        None \<Rightarrow> None
      | Some (tb1, n1) \<Rightarrow> if n1 = 2 then Some tb1 else jmp_head (jmp_next (tbs q tb1) n1) q)"

text \<open>
  \<^verbatim>\<open>tb_reset_jump_recursive\<close> is unfolded in its inner function. The search for the jump is the
  one above: from an entry with tag 2 it goes on at \<^verbatim>\<open>jmp_next[2]\<close>, which is \<^verbatim>\<open>jmp_first\<close>, the
  next field of the structure.
\<close>

partial_function (option) tb_reset_jump_recursive2 ::
  "nat \<Rightarrow> nat \<Rightarrow> 'a tb_ctx_scheme \<Rightarrow> 'a tb_ctx_scheme option" where
  "tb_reset_jump_recursive2 tb n q =
     (if jmp_next (tbs q tb) n = None then Some q
      else Option.bind (jmp_head (jmp_next (tbs q tb) n) q) (\<lambda>nxt.
        Option.bind (jmp_search (JmpFirst nxt) tb n q) (\<lambda>ptb.
          let q1 = set_jmp (JmpNext tb n) None (set_jmp ptb (jmp_next (tbs q tb) n) q);
              q2 = tb_reset_jump tb n q1 in
          Option.bind (tb_reset_jump_recursive2 nxt 0 q2) (\<lambda>q3.
            tb_reset_jump_recursive2 nxt 1 q3))))"

definition tb_reset_jump_recursive :: "nat \<Rightarrow> 'a tb_ctx_scheme \<Rightarrow> 'a tb_ctx_scheme option" where
  "tb_reset_jump_recursive tb q =
     Option.bind (tb_reset_jump_recursive2 tb 0 q) (tb_reset_jump_recursive2 tb 1)"

section \<open>Invalidation of a block\<close>

definition phys_pc_of :: "TranslationBlock \<Rightarrow> u32" where
  "phys_pc_of b = page_addr b 0 + offset_bits (tb_pc b)"

text \<open>The removal of a block from the list of its page \<open>n\<close>.\<close>

definition leave_page :: "nat \<Rightarrow> nat \<Rightarrow> 'a tb_ctx_scheme \<Rightarrow> 'a tb_ctx_scheme option" where
  "leave_page tb n q =
     (let i = drop_bit 12 (page_addr (tbs q tb) n) in
      map_option (set_page i invalidate_page_bitmap) (tb_page_remove (PageHead i) tb q))"

text \<open>The block leaves the two jump lists it is on, and the jumps to it are undone.\<close>

definition cut_jumps :: "nat \<Rightarrow> 'a tb_ctx_scheme \<Rightarrow> 'a tb_ctx_scheme option" where
  "cut_jumps tb q =
     Option.bind (tb_jmp_remove tb 0 q) (\<lambda>q1.
     Option.bind (tb_jmp_remove tb 1 q1) (\<lambda>q2.
     Option.bind (reset_jumps (jmp_first (tbs q2 tb)) q2) (\<lambda>q3.
     Some (set_jmp (JmpFirst tb) (Some (tb, 2)) q3))))"

definition tb_phys_invalidate :: "nat \<Rightarrow> u32 \<Rightarrow> 'a tb_ctx_scheme \<Rightarrow> 'a tb_ctx_scheme option" where
  "tb_phys_invalidate tb paddr q =
     Option.bind (tb_remove (HashHead (tb_phys_hash_func (phys_pc_of (tbs q tb)))) tb q) (\<lambda>q1.
     Option.bind (if page_addr (tbs q1 tb) 0 \<noteq> paddr then leave_page tb 0 q1 else Some q1) (\<lambda>q2.
     Option.bind (if page_addr (tbs q2 tb) 1 \<noteq> -1 \<and> page_addr (tbs q2 tb) 1 \<noteq> paddr
                  then leave_page tb 1 q2 else Some q2) (\<lambda>q3.
     let h = tb_jmp_cache_hash_func (tb_pc (tbs q3 tb));
         q4 = q3\<lparr>tb_invalidated_flag := True,
                 tb_jmp_cache := (if tb_jmp_cache q3 h = Some tb then (tb_jmp_cache q3)(h := None)
                                  else tb_jmp_cache q3)\<rparr> in
     Option.bind (cut_jumps tb q4) (\<lambda>q5.
     Some (q5\<lparr>tb_phys_invalidate_count := tb_phys_invalidate_count q5 + 1\<rparr>)))))"

section \<open>The bitmap of code bytes\<close>

text \<open>\<^verbatim>\<open>*tab |= mask\<close> and \<^verbatim>\<open>*tab = 0xff\<close>; the index must be in range.\<close>

definition or_byte :: "nat \<Rightarrow> u8 \<Rightarrow> u8 list \<Rightarrow> u8 list" where
  "or_byte i m tab = tab[i := tab ! i OR m]"

function fill_bytes :: "nat \<Rightarrow> nat \<Rightarrow> nat \<Rightarrow> u8 list \<Rightarrow> nat \<times> nat \<times> u8 list" where
  "fill_bytes i start end1 tab =
     (if start < end1 then fill_bytes (i + 1) (start + 8) end1 (tab[i := 0xff]) else (i, start, tab))"
  by pat_completeness auto
termination
  by (relation "measure (\<lambda>(i, start, end1, tab). end1 - start)") auto

declare fill_bytes.simps [simp del]

definition set_bits :: "u8 list \<Rightarrow> nat \<Rightarrow> nat \<Rightarrow> u8 list" where
  "set_bits tab start len =
     (let end0 = start + len; i = start div 8; m = push_bit (start mod 8) 0xff in
      if start div 8 = end0 div 8 then
        if start < end0 then or_byte i (m AND NOT (push_bit (end0 mod 8) 0xff)) tab else tab
      else
        let tab1 = or_byte i m tab in
        case fill_bytes (i + 1) ((start + 8) div 8 * 8) (end0 div 8 * 8) tab1 of
          (i2, start2, tab2) \<Rightarrow>
            if start2 < end0 then or_byte i2 (NOT (push_bit (end0 mod 8) 0xff)) tab2 else tab2)"

text \<open>The bytes of a page that a block covers, for the first and the second page of the block.\<close>

definition tb_span :: "TranslationBlock \<Rightarrow> nat \<Rightarrow> nat \<times> nat" where
  "tb_span b n =
     (if n = 0 then
        let tb_start = unat (offset_bits (tb_pc b)); tb_end = tb_start + unat (tb_size b) in
        (tb_start, if TARGET_PAGE_SIZE < tb_end then TARGET_PAGE_SIZE else tb_end)
      else (0, unat (offset_bits (tb_pc b + ucast (tb_size b)))))"

partial_function (option) bitmap_loop ::
  "tb_ref option \<Rightarrow> 'a tb_ctx_scheme \<Rightarrow> u8 list \<Rightarrow> u8 list option" where
  "bitmap_loop r q tab =
     (case r of
        None \<Rightarrow> Some tab
      | Some (tb, n) \<Rightarrow>
          case tb_span (tbs q tb) n of (tb_start, tb_end) \<Rightarrow>
            bitmap_loop (page_next (tbs q tb) n) q (set_bits tab tb_start (tb_end - tb_start)))"

definition build_page_bitmap :: "u32 \<Rightarrow> 'a tb_ctx_scheme \<Rightarrow> 'a tb_ctx_scheme option" where
  "build_page_bitmap index q =
     Option.bind (page_find index q) (\<lambda>p.
     Option.bind (bitmap_loop (first_tb p) q (replicate 512 0)) (\<lambda>tab.
     Some (set_page index (\<lambda>p. p\<lparr>code_bitmap := Some tab\<rparr>) q)))"

section \<open>Finding and creating blocks\<close>

text \<open>The binary search for the block that a host address belongs to.\<close>

function tb_search :: "(nat \<Rightarrow> TranslationBlock) \<Rightarrow> u32 \<Rightarrow> int \<Rightarrow> int \<Rightarrow> int" where
  "tb_search bs pc m_min m_max =
     (if m_min \<le> m_max then
        let m = (m_min + m_max) div 2; v = tc_ptr (bs (nat m)) in
        if v = pc then m
        else if pc < v then tb_search bs pc m_min (m - 1)
        else tb_search bs pc (m + 1) m_max
      else m_max)"
  by pat_completeness auto
termination
  by (relation "measure (\<lambda>(bs, pc, m_min, m_max). nat (m_max - m_min + 1))") auto

declare tb_search.simps [simp del]

definition tb_find_pc :: "('a tb_ctx_scheme) trans \<Rightarrow> u32 \<Rightarrow> 'a tb_ctx_scheme \<Rightarrow> nat option" where
  "tb_find_pc X pc q =
     (if nb_tbs q = 0 then None
      else if pc < code_gen_buffer X \<or> code_gen_ptr q \<le> pc then None
      else Some (nat (tb_search (tbs q) pc 0 (int (nb_tbs q) - 1))))"

definition tb_alloc :: "('a tb_ctx_scheme) trans \<Rightarrow> u32 \<Rightarrow> 'a tb_ctx_scheme \<Rightarrow> (nat \<times> 'a tb_ctx_scheme) option" where
  "tb_alloc X pc q =
     (if CODE_GEN_MAX_BLOCKS \<le> nb_tbs q \<or>
         CODE_GEN_BUFFER_SIZE - code_gen_max_block_size X \<le> code_gen_ptr q - code_gen_buffer X
      then None
      else Some (nb_tbs q, set_tb (nb_tbs q) (\<lambda>b. b\<lparr>tb_pc := pc, tb_cflags := 0\<rparr>)
                   (q\<lparr>nb_tbs := nb_tbs q + 1\<rparr>)))"

definition tb_alloc_page :: "nat \<Rightarrow> nat \<Rightarrow> u32 \<Rightarrow> 'a tb_ctx_scheme \<Rightarrow> 'a tb_ctx_scheme" where
  "tb_alloc_page tb n paddr q =
     (let i = drop_bit 12 paddr;
          q1 = page_find_alloc i (set_tb tb (\<lambda>b. b\<lparr>page_addr := (page_addr b)(n := paddr)\<rparr>) q);
          last = get_page_slot (PageHead i) q1;
          q2 = set_tb tb (\<lambda>b. b\<lparr>page_next := (page_next b)(n := last)\<rparr>) q1;
          q3 = set_page i (\<lambda>p. invalidate_page_bitmap (p\<lparr>first_tb := Some (tb, n)\<rparr>)) q2 in
      if last = None then tlb_protect_code paddr q3 else q3)"

definition tb_link_phys :: "nat \<Rightarrow> u32 \<Rightarrow> u32 \<Rightarrow> 'a tb_ctx_scheme \<Rightarrow> 'a tb_ctx_scheme" where
  "tb_link_phys tb phys_pc phys_page2 q =
     (let h = tb_phys_hash_func phys_pc;
          q1 = set_hash (HashHead h) (Some tb) (set_hash (HashNext tb) (get_hash (HashHead h) q) q);
          q2 = tb_alloc_page tb 0 (page_bits phys_pc) q1;
          q3 = (if phys_page2 \<noteq> -1 then tb_alloc_page tb 1 phys_page2 q2
                else set_tb tb (\<lambda>b. b\<lparr>page_addr := (page_addr b)(1 := -1)\<rparr>) q2);
          q4 = set_tb tb (\<lambda>b. b\<lparr>jmp_first := Some (tb, 2), jmp_next := (jmp_next b)(0 := None, 1 := None)\<rparr>) q3;
          q5 = (if tb_next_offset (tbs q4 tb) 0 \<noteq> 0xffff then tb_reset_jump tb 0 q4 else q4) in
      if tb_next_offset (tbs q5 tb) 1 \<noteq> 0xffff then tb_reset_jump tb 1 q5 else q5)"

text \<open>
  The address of guest code in host memory, relative to \<^verbatim>\<open>phys_ram_base\<close>. A miss loads a byte
  through the soft MMU, with the call of MemCheck; outside RAM and ROM the emulator aborts.
\<close>

definition get_phys_addr_code ::
  "('a tb_ctx_scheme) trans \<Rightarrow> u32 \<Rightarrow> 'a tb_ctx_scheme \<Rightarrow> (u32, 'a tb_ctx_scheme) result option" where
  "get_phys_addr_code X addr q =
     (let mmu_idx = cpu_mmu_index q; index = tlb_index addr;
          fetched = (if addr_code (tlb_table q mmu_idx index) \<noteq> page_bits addr
            then (case ldu (x_machine X) (x_ambient X) (x_host X) True 0 cpu_mmu_index 0 addr (mc q) q of
                    (s, Some (Inr _, q1)) \<Rightarrow> Some (Done () (q1\<lparr>mc := s\<rparr>))
                  | (s, Some (Inl _, q1)) \<Rightarrow> Some (Longjmp (q1\<lparr>mc := s\<rparr>))
                  | (s, None) \<Rightarrow> None)
            else Some (Done () q)) in
      and_then fetched (\<lambda>_ q1.
        let te = tlb_table q1 mmu_idx index; pd = offset_bits (addr_code te) in
        if IO_MEM_ROM < pd \<and> pd AND IO_MEM_ROMD = 0 then None
        else Some (Done (addr + addend te - phys_ram_base q1) q1)))"

text \<open>
  The common part of \<^verbatim>\<open>tb_gen_code\<close> and \<^verbatim>\<open>tb_find_slow\<close> after the block is allocated: the
  translation, and the link into the tables.
\<close>

definition gen_and_link ::
  "('a tb_ctx_scheme) trans \<Rightarrow> nat \<Rightarrow> u32 \<Rightarrow> u32 \<Rightarrow> 'a tb_ctx_scheme \<Rightarrow> (nat, 'a tb_ctx_scheme) result option" where
  "gen_and_link X tb pc phys_pc q =
     and_then (Some (cpu_gen_code X tb q)) (\<lambda>code_gen_size q1.
       let q2 = q1\<lparr>code_gen_ptr := (code_gen_ptr q1 + code_gen_size + 15) AND NOT 15\<rparr>;
           virt_page2 = page_bits (pc + ucast (tb_size (tbs q2 tb)) - 1) in
       and_then (if page_bits pc \<noteq> virt_page2 then get_phys_addr_code X virt_page2 q2
                 else Some (Done (-1) q2)) (\<lambda>phys_page2 q3.
         Some (Done tb (tb_link_phys tb phys_pc phys_page2 q3))))"

text \<open>A new block; if there is no room the whole cache is flushed first.\<close>

definition tb_alloc_flush ::
  "('a tb_ctx_scheme) trans \<Rightarrow> u32 \<Rightarrow> 'a tb_ctx_scheme \<Rightarrow> (bool \<times> nat \<times> 'a tb_ctx_scheme) option" where
  "tb_alloc_flush X pc q =
     (case tb_alloc X pc q of
        Some (tb, q1) \<Rightarrow> Some (False, tb, q1)
      | None \<Rightarrow> map_option (\<lambda>(tb, q1). (True, tb, q1)) (tb_alloc X pc (tb_flush X q)))"

definition tb_gen_code ::
  "('a tb_ctx_scheme) trans \<Rightarrow> u32 \<Rightarrow> u32 \<Rightarrow> u32 \<Rightarrow> u16 \<Rightarrow> 'a tb_ctx_scheme \<Rightarrow> (nat, 'a tb_ctx_scheme) result option" where
  "tb_gen_code X pc cs_base flags cflags q =
     and_then (get_phys_addr_code X pc q) (\<lambda>phys_pc q1.
       case tb_alloc_flush X pc q1 of
         None \<Rightarrow> None
       | Some (_, tb, q2) \<Rightarrow>
           gen_and_link X tb pc phys_pc
             (set_tb tb (\<lambda>b. b\<lparr>tc_ptr := code_gen_ptr q2, tb_cs_base := cs_base,
                                tb_flags := scast flags, tb_cflags := cflags\<rparr>) q2))"

end
