(* ===== verification/TBInvalidate.thy ===== *)
theory TBInvalidate
  imports TBCache
begin

text \<open>
  Overwritten guest code (\<^verbatim>\<open>exec.c\<close>): the invalidation of the blocks that intersect a range
  of a physical page, with the exact handling of a block that modifies itself, the test of
  the code bitmap before a store, and the breakpoints and watchpoints that rely on it.
\<close>

section \<open>Interrupts\<close>

text \<open>\<^verbatim>\<open>cpu_interrupt\<close> with the unlinking of the block that runs.\<close>

definition cpu_interrupt_tb :: "u32 \<Rightarrow> 'a tb_ctx_scheme \<Rightarrow> 'a tb_ctx_scheme option" where
  "cpu_interrupt_tb m q =
     (let q1 = q\<lparr>interrupt_request := interrupt_request q OR m\<rparr> in
      case current_tb q1 of
        None \<Rightarrow> Some q1
      | Some tb \<Rightarrow>
          if interrupt_lock q1 then Some q1
          else map_option (\<lambda>q2. q2\<lparr>interrupt_lock := False\<rparr>)
                 (tb_reset_jump_recursive tb (q1\<lparr>interrupt_lock := True, current_tb := None\<rparr>)))"

section \<open>A range of a page\<close>

text \<open>
  What the loop remembers of the block that runs, if it is hit: the locals
  \<^verbatim>\<open>current_tb_not_found\<close>, \<^verbatim>\<open>current_tb_modified\<close>, \<^verbatim>\<open>current_tb\<close>, \<^verbatim>\<open>current_pc\<close>,
  \<^verbatim>\<open>current_cs_base\<close> and \<^verbatim>\<open>current_flags\<close>.
\<close>

record smc =
  not_found :: bool
  modified :: bool
  current :: "nat option"
  current_pc :: u32
  current_cs_base :: u32
  current_flags :: u32

abbreviation (input) IOPL_TF_VM_MASK :: u32 where "IOPL_TF_VM_MASK \<equiv> 0x23100"

definition tb_bounds :: "TranslationBlock \<Rightarrow> nat \<Rightarrow> u32 \<times> u32" where
  "tb_bounds b n =
     (if n = 0 then
        let tb_start = page_addr b 0 + offset_bits (tb_pc b) in (tb_start, tb_start + ucast (tb_size b))
      else (page_addr b 1, page_addr b 1 + offset_bits (tb_pc b + ucast (tb_size b))))"

definition intersects :: "u32 \<Rightarrow> u32 \<Rightarrow> TranslationBlock \<Rightarrow> nat \<Rightarrow> bool" where
  "intersects start end0 b n =
     (case tb_bounds b n of (tb_start, tb_end) \<Rightarrow> \<not> (tb_end \<le> start \<or> end0 \<le> tb_start))"

definition smc_update ::
  "('a tb_ctx_scheme) trans \<Rightarrow> nat \<Rightarrow> smc \<Rightarrow> 'a tb_ctx_scheme \<Rightarrow> smc \<times> 'a tb_ctx_scheme" where
  "smc_update X tb sm q =
     (let sm1 = (if not_found sm
                 then sm\<lparr>not_found := False,
                         current := (if mem_write_pc q \<noteq> 0 then tb_find_pc X (mem_write_pc q) q else None)\<rparr>
                 else sm) in
      if current sm1 = Some tb \<and> tb_cflags (tbs q tb) AND CF_SINGLE_INSN = 0 then
        let q1 = cpu_restore_state X tb (mem_write_pc q) q in
        (sm1\<lparr>modified := True,
             current_flags := hflags q1 OR (eflags q1 AND IOPL_TF_VM_MASK),
             current_cs_base := cs_seg_base q1,
             current_pc := cs_seg_base q1 + eip q1\<rparr>, q1)
      else (sm1, q))"

definition invalidate_one :: "nat \<Rightarrow> 'a tb_ctx_scheme \<Rightarrow> 'a tb_ctx_scheme option" where
  "invalidate_one tb q =
     (let saved_tb = current_tb q;
          q1 = (if in_cpu_exec q then q\<lparr>current_tb := None\<rparr> else q) in
      Option.bind (tb_phys_invalidate tb (-1) q1) (\<lambda>q2.
        if in_cpu_exec q2 then
          let q3 = q2\<lparr>current_tb := saved_tb\<rparr> in
          if interrupt_request q3 \<noteq> 0 \<and> current_tb q3 \<noteq> None
          then cpu_interrupt_tb (interrupt_request q3) q3 else Some q3
        else Some q2))"

partial_function (option) range_loop ::
  "('a tb_ctx_scheme) trans \<Rightarrow> u32 \<Rightarrow> u32 \<Rightarrow> tb_ref option \<Rightarrow> smc \<Rightarrow> 'a tb_ctx_scheme \<Rightarrow>
   (smc \<times> 'a tb_ctx_scheme) option" where
  "range_loop X start end0 r sm q =
     (case r of
        None \<Rightarrow> Some (sm, q)
      | Some (tb, n) \<Rightarrow>
          let nxt = page_next (tbs q tb) n in
          if intersects start end0 (tbs q tb) n then
            case smc_update X tb sm q of (sm1, q1) \<Rightarrow>
              Option.bind (invalidate_one tb q1) (\<lambda>q2. range_loop X start end0 nxt sm1 q2)
          else range_loop X start end0 nxt sm q)"

definition tb_invalidate_phys_page_range_full ::
  "('a tb_ctx_scheme) trans \<Rightarrow> u32 \<Rightarrow> u32 \<Rightarrow> bool \<Rightarrow> 'a tb_ctx_scheme \<Rightarrow> (unit, 'a tb_ctx_scheme) result option" where
  "tb_invalidate_phys_page_range_full X start end0 is_cpu_write_access q =
     (let i = drop_bit 12 start in
      case page_find i q of
        None \<Rightarrow> Some (Done () q)
      | Some p \<Rightarrow>
          let q1 = (if code_bitmap p = None
                    then set_page i (\<lambda>p. p\<lparr>code_write_count := code_write_count p + 1\<rparr>) q else q) in
          Option.bind
            (if code_bitmap p = None \<and> SMC_BITMAP_USE_THRESHOLD \<le> code_write_count p + 1 \<and> is_cpu_write_access
             then build_page_bitmap i q1 else Some q1) (\<lambda>q2.
          Option.bind
            (range_loop X start end0 (get_page_slot (PageHead i) q2)
               \<lparr>not_found = is_cpu_write_access, modified = False, current = None, current_pc = 0,
                current_cs_base = 0, current_flags = 0\<rparr> q2) (\<lambda>(sm, q3).
          let q4 = (if get_page_slot (PageHead i) q3 = None then
                      let q' = set_page i invalidate_page_bitmap q3 in
                      if is_cpu_write_access then tlb_unprotect_code_phys start q' else q'
                    else q3) in
          if modified sm then
            and_then (tb_gen_code X (current_pc sm) (current_cs_base sm) (current_flags sm) CF_SINGLE_INSN
                        (q4\<lparr>current_tb := None\<rparr>)) (\<lambda>_ q5. Some (Longjmp q5))
          else Some (Done () q4))))"

text \<open>The length is 1, 2, 4 or 8 and divides the start.\<close>

definition tb_invalidate_phys_page_fast ::
  "('a tb_ctx_scheme) trans \<Rightarrow> u32 \<Rightarrow> nat \<Rightarrow> 'a tb_ctx_scheme \<Rightarrow> (unit, 'a tb_ctx_scheme) result option" where
  "tb_invalidate_phys_page_fast X start len q =
     (case page_find (drop_bit 12 start) q of
        None \<Rightarrow> Some (Done () q)
      | Some p \<Rightarrow>
          case code_bitmap p of
            Some tab \<Rightarrow>
              let offset = unat (offset_bits start); b = drop_bit (offset mod 8) (tab ! (offset div 8)) in
              if b AND (push_bit len 1 - 1) \<noteq> 0
              then tb_invalidate_phys_page_range_full X start (start + of_nat len) True q
              else Some (Done () q)
          | None \<Rightarrow> tb_invalidate_phys_page_range_full X start (start + of_nat len) True q)"

section \<open>Breakpoints and watchpoints\<close>

abbreviation (input) MAX_BREAKPOINTS :: nat where "MAX_BREAKPOINTS \<equiv> 32"
abbreviation (input) MAX_WATCHPOINTS :: nat where "MAX_WATCHPOINTS \<equiv> 32"

definition breakpoint_invalidate ::
  "('a tb_ctx_scheme) trans \<Rightarrow> u32 \<Rightarrow> 'a tb_ctx_scheme \<Rightarrow> (unit, 'a tb_ctx_scheme) result option" where
  "breakpoint_invalidate X pc q =
     (case cpu_get_phys_page_debug (h_board (x_host X)) pc q of
        (addr, q1) \<Rightarrow>
          let pd = cpu_get_physical_page_desc addr q1; ram_addr = page_bits pd OR offset_bits pc in
          tb_invalidate_phys_page_range_full X ram_addr (ram_addr + 1) False q1)"

definition cpu_breakpoint_insert ::
  "('a tb_ctx_scheme) trans \<Rightarrow> u32 \<Rightarrow> 'a tb_ctx_scheme \<Rightarrow> (int, 'a tb_ctx_scheme) result option" where
  "cpu_breakpoint_insert X pc q =
     (if pc \<in> set (breakpoints q) then Some (Done 0 q)
      else if MAX_BREAKPOINTS \<le> length (breakpoints q) then Some (Done (-1) q)
      else and_then (breakpoint_invalidate X pc (q\<lparr>breakpoints := breakpoints q @ [pc]\<rparr>))
             (\<lambda>_ q1. Some (Done 0 q1)))"

text \<open>An array without its element \<open>i\<close>: the last element takes its place.\<close>

definition swap_remove :: "nat \<Rightarrow> 'e list \<Rightarrow> 'e list" where
  "swap_remove i xs = (if i < length xs - 1 then (butlast xs)[i := last xs] else butlast xs)"

definition first_index :: "('e \<Rightarrow> bool) \<Rightarrow> 'e list \<Rightarrow> nat" where
  "first_index P xs = length (takeWhile (\<lambda>x. \<not> P x) xs)"

definition cpu_breakpoint_remove ::
  "('a tb_ctx_scheme) trans \<Rightarrow> u32 \<Rightarrow> 'a tb_ctx_scheme \<Rightarrow> (int, 'a tb_ctx_scheme) result option" where
  "cpu_breakpoint_remove X pc q =
     (let i = first_index (\<lambda>b. b = pc) (breakpoints q) in
      if i < length (breakpoints q) then
        and_then (breakpoint_invalidate X pc (q\<lparr>breakpoints := swap_remove i (breakpoints q)\<rparr>))
          (\<lambda>_ q1. Some (Done 0 q1))
      else Some (Done (-1) q))"

text \<open>The field \<open>addend\<close> of a new watchpoint keeps what the array held.\<close>

definition cpu_watchpoint_insert ::
  "('a tb_ctx_scheme) trans \<Rightarrow> u32 \<Rightarrow> u32 \<Rightarrow> 'a tb_ctx_scheme \<Rightarrow> int \<times> 'a tb_ctx_scheme" where
  "cpu_watchpoint_insert X junk addr q =
     (if \<exists>w\<in>set (watchpoints q). wp_vaddr w = addr then (0, q)
      else if MAX_WATCHPOINTS \<le> length (watchpoints q) then (-1, q)
      else (int (length (watchpoints q)),
            tb_flush X (tlb_flush_page addr
              (q\<lparr>watchpoints := watchpoints q @ [\<lparr>wp_vaddr = addr, wp_addend = junk\<rparr>]\<rparr>))))"

definition cpu_watchpoint_remove :: "u32 \<Rightarrow> 'a tb_ctx_scheme \<Rightarrow> int \<times> 'a tb_ctx_scheme" where
  "cpu_watchpoint_remove addr q =
     (let i = first_index (\<lambda>w. wp_vaddr w = addr) (watchpoints q) in
      if i < length (watchpoints q)
      then (0, tlb_flush_page addr (q\<lparr>watchpoints := swap_remove i (watchpoints q)\<rparr>))
      else (-1, q))"

definition cpu_single_step :: "('a tb_ctx_scheme) trans \<Rightarrow> u32 \<Rightarrow> 'a tb_ctx_scheme \<Rightarrow> 'a tb_ctx_scheme" where
  "cpu_single_step X enabled q =
     (if singlestep_enabled q \<noteq> enabled then tb_flush X (q\<lparr>singlestep_enabled := enabled\<rparr>) else q)"

end
