(* ===== verification/TBChains.thy ===== *)
theory TBChains
  imports TBInvalidate
begin

text \<open>
  The linked lists of the translation cache as lists of their elements: chains through a next
  function, what removal from each kind of list does, and the shape invariant that ties the
  hash lists, page lists and jump lists to the set of live blocks.
\<close>

section \<open>Chains\<close>

primrec chain :: "('r \<Rightarrow> 'r option) \<Rightarrow> 'r option \<Rightarrow> 'r list \<Rightarrow> 'r option \<Rightarrow> bool" where
  "chain nxt p [] e \<longleftrightarrow> p = e"
| "chain nxt p (x # xs) e \<longleftrightarrow> p = Some x \<and> chain nxt (nxt x) xs e"

lemma chain_append: "chain nxt p (xs @ ys) e \<longleftrightarrow> (\<exists>m. chain nxt p xs m \<and> chain nxt m ys e)"
  by (induction xs arbitrary: p) auto

lemma chain_cong: "(\<And>x. x \<in> set xs \<Longrightarrow> nxt x = nxt' x) \<Longrightarrow> chain nxt p xs e \<longleftrightarrow> chain nxt' p xs e"
  by (induction xs arbitrary: p) auto

lemma chain_start: "chain nxt p xs e \<Longrightarrow> p = (if xs = [] then e else Some (hd xs))"
  by (cases xs) auto

lemma chain_mid: "chain nxt p (xs @ ys) e \<Longrightarrow> chain nxt (if ys = [] then e else Some (hd ys)) ys e"
  by (cases ys) (auto simp: chain_append)

text \<open>Removal of an element: its predecessor, or the head, takes over its successor.\<close>

lemma chain_unlink:
  assumes "chain nxt p (ys @ x # zs) e" "distinct (ys @ x # zs)"
    and "\<And>y. y \<in> set (ys @ zs) \<Longrightarrow> nxt' y = (if ys \<noteq> [] \<and> y = last ys then nxt x else nxt y)"
  shows "chain nxt' (if ys = [] then nxt x else p) (ys @ zs) e"
proof (cases ys rule: rev_cases)
  case Nil
  then show ?thesis using assms chain_cong [of zs nxt' nxt "nxt x" e] by simp
next
  case (snoc us y)
  then have c: "chain nxt p us (Some y)" "chain nxt (nxt x) zs e"
    using assms(1) by (auto simp: chain_append)
  have "chain nxt' p us (Some y)"
    using c(1) chain_cong [of us nxt' nxt p "Some y"] assms(2,3) snoc by fastforce
  moreover have "chain nxt' (nxt x) zs e"
    using c(2) chain_cong [of zs nxt' nxt "nxt x" e] assms(2,3) snoc by fastforce
  moreover have "nxt' y = nxt x" using assms(3) [of y] snoc by simp
  ultimately show ?thesis using snoc by (auto simp: chain_append)
qed

lemma filter_split:
  assumes "distinct (ys @ x # zs)"
  shows "filter (\<lambda>y. y \<noteq> x) (ys @ x # zs) = ys @ zs"
proof -
  have "filter (\<lambda>y. y \<noteq> x) ys = ys" "filter (\<lambda>y. y \<noteq> x) zs = zs"
    using assms by (auto simp: filter_id_conv)
  then show ?thesis by simp
qed

section \<open>Families of lists\<close>

text \<open>Disjoint lists through one next function, with a head and an end for each key.\<close>

definition chains ::
  "('r \<Rightarrow> 'r option) \<Rightarrow> ('k \<Rightarrow> 'r option) \<Rightarrow> ('k \<Rightarrow> 'r option) \<Rightarrow> 'k set \<Rightarrow> ('k \<Rightarrow> 'r list) \<Rightarrow> bool" where
  "chains nxt head fin K L \<longleftrightarrow>
     (\<forall>k\<in>K. chain nxt (head k) (L k) (fin k) \<and> distinct (L k)) \<and>
     (\<forall>k\<in>K. \<forall>j\<in>K. k \<noteq> j \<longrightarrow> set (L k) \<inter> set (L j) = {})"

lemma chainsD:
  assumes "chains nxt head fin K L" "k \<in> K"
  shows "chain nxt (head k) (L k) (fin k)" "distinct (L k)"
    "j \<in> K \<Longrightarrow> k \<noteq> j \<Longrightarrow> x \<in> set (L k) \<Longrightarrow> x \<notin> set (L j)"
  using assms unfolding chains_def by blast+

lemma chains_cong:
  assumes "chains nxt head fin K L" "\<And>k. k \<in> K \<Longrightarrow> head' k = head k"
    and "\<And>k x. k \<in> K \<Longrightarrow> x \<in> set (L k) \<Longrightarrow> nxt' x = nxt x"
  shows "chains nxt' head' fin K L"
proof -
  have "chain nxt' (head' k) (L k) (fin k)" if "k \<in> K" for k
    using chainsD(1) [OF assms(1) that] assms(2,3) that chain_cong [of "L k" nxt' nxt] by simp
  then show ?thesis using assms(1) unfolding chains_def by blast
qed

lemma chains_subset: "chains nxt head fin K L \<Longrightarrow> J \<subseteq> K \<Longrightarrow> chains nxt head fin J L"
  unfolding chains_def by blast

lemma chains_unlink:
  assumes L: "chains nxt head fin K L" and k: "k \<in> K" "L k = ys @ x # zs"
    and nxt': "\<And>y. y \<noteq> x \<Longrightarrow> nxt' y = (if ys \<noteq> [] \<and> y = last ys then nxt x else nxt y)"
    and head': "\<And>j. j \<in> K \<Longrightarrow> head' j = (if j = k \<and> ys = [] then nxt x else head j)"
  shows "chains nxt' head' fin K (L(k := ys @ zs))"
proof -
  have d: "distinct (ys @ x # zs)" using chainsD(2) [OF L k(1)] k(2) by simp
  have "chain nxt' (head' j) ((L(k := ys @ zs)) j) (fin j) \<and> distinct ((L(k := ys @ zs)) j)" if j: "j \<in> K" for j
  proof (cases "j = k")
    case True
    have "y \<noteq> x" if "y \<in> set (ys @ zs)" for y using that d by auto
    then have "chain nxt' (if ys = [] then nxt x else head k) (ys @ zs) (fin k)"
      using chain_unlink [OF _ d, of nxt "head k" "fin k" nxt'] chainsD(1) [OF L k(1)] k(2) nxt' by simp
    then show ?thesis using True head' [OF j] d by (cases "ys = []") simp_all
  next
    case False
    have "nxt' y = nxt y" if "y \<in> set (L j)" for y
    proof -
      have "y \<notin> set (L k)" using chainsD(3) [OF L j k(1) False that] .
      moreover from this have "y \<noteq> x" using k(2) by auto
      ultimately show ?thesis using nxt' [of y] k(2) by auto
    qed
    then show ?thesis
      using False head' [OF j] chainsD(1,2) [OF L j] chain_cong [of "L j" nxt' nxt] by simp
  qed
  moreover have "set ((L(k := ys @ zs)) i) \<inter> set ((L(k := ys @ zs)) j) = {}"
    if "i \<in> K" "j \<in> K" "i \<noteq> j" for i j
  proof -
    have "set ((L(k := ys @ zs)) i) \<subseteq> set (L i)" for i using k(2) by auto
    moreover have "set (L i) \<inter> set (L j) = {}" using L that unfolding chains_def by blast
    ultimately show ?thesis by blast
  qed
  ultimately show ?thesis unfolding chains_def by blast
qed

section \<open>Selectors after an update\<close>

lemma set_tb_simps [simp]:
  "tbs (set_tb t f q) u = (if u = t then f (tbs q t) else tbs q u)"
  "tb_phys_hash (set_tb t f q) = tb_phys_hash q" "l1_map (set_tb t f q) = l1_map q"
  "tb_jmp_cache (set_tb t f q) = tb_jmp_cache q" "nb_tbs (set_tb t f q) = nb_tbs q"
  by (simp_all add: set_tb_def)

lemma page_find_cong: "l1_map q' = l1_map q \<Longrightarrow> page_find i q' = page_find i q"
  by (simp add: page_find_def)

lemma page_index_eq:
  fixes i j :: u32
  shows "unat (drop_bit 10 i) = unat (drop_bit 10 j) \<and> unat (i AND 0x3ff) = unat (j AND 0x3ff) \<longleftrightarrow> i = j"
proof -
  have split: "k = push_bit 10 (drop_bit 10 k) OR (k AND 0x3ff)" for k :: u32
  proof -
    have m: "(0x3ff :: u32) = mask 10" by (simp add: mask_eq_exp_minus_1)
    show ?thesis unfolding m
      by (rule bit_word_eqI) (auto simp: bit_simps)
  qed
  show ?thesis using split [of i] split [of j] by (metis word_unat_eq_iff)
qed

lemma page_find_set_page:
  "page_find j (set_page i f q) = (if j = i then map_option f (page_find i q) else page_find j q)"
  using page_index_eq [of i j] by (auto simp: page_find_def set_page_def split: option.split)

lemma set_page_simps [simp]:
  "tbs (set_page i f q) = tbs q" "tb_phys_hash (set_page i f q) = tb_phys_hash q"
  "tb_jmp_cache (set_page i f q) = tb_jmp_cache q" "nb_tbs (set_page i f q) = nb_tbs q"
  by (simp_all add: set_page_def split: option.split)

section \<open>Hash lists\<close>

abbreviation hash_nxt :: "'a tb_ctx_scheme \<Rightarrow> nat \<Rightarrow> nat option" where
  "hash_nxt q \<equiv> \<lambda>t. phys_hash_next (tbs q t)"

lemma tb_remove_chain:
  assumes "chain (hash_nxt q) (get_hash s q) (ys @ t # zs) None" "t \<notin> set ys"
  shows "tb_remove s t q = Some (set_hash (if ys = [] then s else HashNext (last ys)) (hash_nxt q t) q)"
  using assms
proof (induction ys arbitrary: s)
  case Nil
  then show ?case by (subst tb_remove.simps) simp
next
  case (Cons y ys)
  then show ?case by (subst tb_remove.simps) auto
qed

lemma tb_remove_shape:
  assumes H: "chains (hash_nxt q) (tb_phys_hash q) (\<lambda>_. None) UNIV H" and t: "t \<in> set (H h)"
  obtains s where "tb_remove (HashHead h) t q = Some (set_hash s (hash_nxt q t) q)"
    "chains (hash_nxt (set_hash s (hash_nxt q t) q)) (tb_phys_hash (set_hash s (hash_nxt q t) q)) (\<lambda>_. None) UNIV
       (H(h := filter (\<lambda>u. u \<noteq> t) (H h)))"
proof -
  from t obtain ys zs where split: "H h = ys @ t # zs" by (meson split_list)
  have c: "chain (hash_nxt q) (tb_phys_hash q h) (ys @ t # zs) None" "distinct (ys @ t # zs)"
    using chainsD(1,2) [OF H, of h] split by simp_all
  let ?s = "if ys = [] then HashHead h else HashNext (last ys)"
  have "tb_remove (HashHead h) t q = Some (set_hash ?s (hash_nxt q t) q)"
    using tb_remove_chain [of q "HashHead h" ys t zs] c by simp
  moreover have "chains (hash_nxt (set_hash ?s (hash_nxt q t) q)) (tb_phys_hash (set_hash ?s (hash_nxt q t) q))
      (\<lambda>_. None) UNIV (H(h := ys @ zs))"
    by (rule chains_unlink [OF H _ split]) auto
  ultimately show ?thesis using that [of ?s] filter_split [OF c(2)] split by simp
qed

section \<open>Page lists\<close>

abbreviation page_nxt :: "'a tb_ctx_scheme \<Rightarrow> tb_ref \<Rightarrow> tb_ref option" where
  "page_nxt q \<equiv> \<lambda>r. page_next (tbs q (fst r)) (snd r)"

abbreviation page_first :: "'a tb_ctx_scheme \<Rightarrow> u32 \<Rightarrow> tb_ref option" where
  "page_first q \<equiv> \<lambda>i. Option.bind (page_find i q) first_tb"

lemma tb_page_remove_chain:
  assumes "chain (page_nxt q) (get_page_slot s q) (ys @ (t, n) # zs) None" "\<forall>r\<in>set ys. fst r \<noteq> t"
  shows "tb_page_remove s t q =
    Some (set_page_slot (if ys = [] then s else PageNext (fst (last ys)) (snd (last ys))) (page_nxt q (t, n)) q)"
  using assms
proof (induction ys arbitrary: s)
  case Nil
  then show ?case by (subst tb_page_remove.simps) simp
next
  case (Cons y ys)
  then show ?case by (cases y) (subst tb_page_remove.simps, auto)
qed

lemma page_first_set_page:
  "page_first (set_page i f q) j =
     (if j = i then Option.bind (page_find i q) (\<lambda>p. first_tb (f p)) else page_first q j)"
  by (auto simp: page_find_set_page bind_map_option comp_def)

lemma first_invalidate [simp]: "first_tb (invalidate_page_bitmap p) = first_tb p"
  by (simp add: invalidate_page_bitmap_def)

lemma leave_page_shape:
  assumes P: "chains (page_nxt q) (page_first q) (\<lambda>_. None) UNIV P"
    and t: "(t, n) \<in> set (P i)" "\<forall>m. (t, m) \<in> set (P i) \<longrightarrow> m = n"
    and i: "i = drop_bit 12 (page_addr (tbs q t) n)"
  obtains s where "leave_page t n q = Some (set_page i invalidate_page_bitmap (set_page_slot s (page_nxt q (t, n)) q))"
    "chains (page_nxt (set_page_slot s (page_nxt q (t, n)) q))
       (page_first (set_page i invalidate_page_bitmap (set_page_slot s (page_nxt q (t, n)) q))) (\<lambda>_. None) UNIV
       (P(i := filter (\<lambda>r. r \<noteq> (t, n)) (P i)))"
proof -
  from t(1) obtain ys zs where split: "P i = ys @ (t, n) # zs" by (meson split_list)
  have c: "chain (page_nxt q) (page_first q i) (ys @ (t, n) # zs) None" "distinct (ys @ (t, n) # zs)"
    using chainsD(1,2) [OF P, of i] split by simp_all
  let ?s = "if ys = [] then PageHead i else PageNext (fst (last ys)) (snd (last ys))"
  let ?q = "set_page_slot ?s (page_nxt q (t, n)) q"
  have "\<forall>r\<in>set ys. fst r \<noteq> t" using t(2) split c(2) by auto
  then have "leave_page t n q = Some (set_page i invalidate_page_bitmap ?q)"
    using tb_page_remove_chain [of q "PageHead i" ys t n zs] c i by (simp add: leave_page_def)
  moreover have "page_find i q \<noteq> None" using c(1) by (cases ys) (auto split: bind_splits)
  then have "page_first (set_page i invalidate_page_bitmap ?q) j =
      (if j = i \<and> ys = [] then page_nxt q (t, n) else page_first q j)" for j
    using page_find_cong [of ?q q] by (auto simp: page_first_set_page page_find_set_page)
  then have "chains (page_nxt ?q) (page_first (set_page i invalidate_page_bitmap ?q)) (\<lambda>_. None) UNIV (P(i := ys @ zs))"
    by (intro chains_unlink [OF P _ split]) (auto simp: prod_eq_iff)
  ultimately show ?thesis using that [of ?s] filter_split [OF c(2)] split by simp
qed

section \<open>Jump lists\<close>

abbreviation jmp_nxt :: "'a tb_ctx_scheme \<Rightarrow> tb_ref \<Rightarrow> tb_ref option" where
  "jmp_nxt q \<equiv> \<lambda>r. jmp_next (tbs q (fst r)) (snd r)"

abbreviation jmp_head_of :: "'a tb_ctx_scheme \<Rightarrow> nat \<Rightarrow> tb_ref option" where
  "jmp_head_of q \<equiv> \<lambda>t. jmp_first (tbs q t)"

text \<open>
  The list of a block holds the patched jumps to it; every patched jump of a live block is in
  the list of one live block.
\<close>

definition jmp_shape :: "'a tb_ctx_scheme \<Rightarrow> (nat \<Rightarrow> tb_ref list) \<Rightarrow> nat set \<Rightarrow> bool" where
  "jmp_shape q J L \<longleftrightarrow>
     chains (jmp_nxt q) (jmp_head_of q) (\<lambda>t. Some (t, 2)) L J \<and>
     (\<forall>t\<in>L. set (J t) \<subseteq> L \<times> {0, 1}) \<and>
     (\<forall>t\<in>L. \<forall>n<2. jmp_nxt q (t, n) \<noteq> None \<longleftrightarrow> (\<exists>u\<in>L. (t, n) \<in> set (J u)))"

lemma chain_last: "chain nxt p xs e \<Longrightarrow> xs \<noteq> [] \<Longrightarrow> nxt (last xs) = e"
  by (induction xs arbitrary: p) auto

definition jmp_slot_of :: "jmp_slot \<Rightarrow> tb_ref list \<Rightarrow> jmp_slot" where
  "jmp_slot_of s xs = (if xs = [] then s else JmpNext (fst (last xs)) (snd (last xs)))"

lemma get_jmp_slot_of: "chain (jmp_nxt q) (get_jmp s q) xs e \<Longrightarrow> get_jmp (jmp_slot_of s xs) q = e"
  by (auto simp: jmp_slot_of_def dest: chain_last)

lemma jmp_search_walk:
  assumes "chain (jmp_nxt q) (get_jmp s q) xs e" "\<forall>r\<in>set xs. r \<noteq> (t, n) \<and> snd r < 2"
  shows "jmp_search s t n q = jmp_search (jmp_slot_of s xs) t n q"
  using assms
proof (induction xs arbitrary: s)
  case (Cons x xs)
  obtain u m where x: "x = (u, m)" by fastforce
  have "jmp_search s t n q = jmp_search (JmpNext u m) t n q"
    using Cons.prems x by (subst jmp_search.simps) auto
  also have "\<dots> = jmp_search (jmp_slot_of (JmpNext u m) xs) t n q"
    using Cons.prems x by (intro Cons.IH) auto
  finally show ?case using x by (simp add: jmp_slot_of_def)
qed (simp add: jmp_slot_of_def)

lemma jmp_search_hit: "get_jmp s q = Some (t, n) \<Longrightarrow> jmp_search s t n q = Some s"
  by (subst jmp_search.simps) simp

lemma jmp_search_round: "get_jmp s q = Some (u, 2) \<Longrightarrow> n < 2 \<Longrightarrow> jmp_search s t n q = jmp_search (JmpFirst u) t n q"
  by (subst jmp_search.simps) simp

lemma jmp_search_circle:
  assumes c: "chain (jmp_nxt q) (jmp_first (tbs q u)) (ys @ (t, n) # zs) (Some (u, 2))"
    and d: "distinct (ys @ (t, n) # zs)" and tags: "\<forall>r\<in>set (ys @ (t, n) # zs). snd r < 2"
  shows "jmp_search (JmpNext t n) t n q = Some (jmp_slot_of (JmpFirst u) ys)"
    and "jmp_search (JmpFirst u) t n q = Some (jmp_slot_of (JmpFirst u) ys)"
proof -
  from c have y: "chain (jmp_nxt q) (get_jmp (JmpFirst u) q) ys (Some (t, n))"
    and z: "chain (jmp_nxt q) (get_jmp (JmpNext t n) q) zs (Some (u, 2))"
    by (auto simp: chain_append)
  have first: "jmp_search (JmpFirst u) t n q = Some (jmp_slot_of (JmpFirst u) ys)"
    using jmp_search_walk [OF y, of t n] jmp_search_hit [OF get_jmp_slot_of [OF y]] d tags by fastforce
  have "jmp_search (JmpNext t n) t n q = jmp_search (jmp_slot_of (JmpNext t n) zs) t n q"
    using d tags by (intro jmp_search_walk [OF z]) auto
  also have "\<dots> = jmp_search (JmpFirst u) t n q"
    using jmp_search_round [OF get_jmp_slot_of [OF z]] tags by simp
  finally show "jmp_search (JmpNext t n) t n q = Some (jmp_slot_of (JmpFirst u) ys)" using first by simp
  show "jmp_search (JmpFirst u) t n q = Some (jmp_slot_of (JmpFirst u) ys)" by (rule first)
qed

lemma jmp_next_set_jmp:
  "jmp_next (tbs (set_jmp s v q) t) n = (if s = JmpNext t n then v else jmp_next (tbs q t) n)"
  by (cases s) auto

lemma jmp_first_set_jmp:
  "jmp_first (tbs (set_jmp s v q) t) = (if s = JmpFirst t then v else jmp_first (tbs q t))"
  by (cases s) auto

text \<open>Taking one patched jump out of its list.\<close>

definition drop_jmp :: "jmp_slot \<Rightarrow> nat \<Rightarrow> nat \<Rightarrow> 'a tb_ctx_scheme \<Rightarrow> 'a tb_ctx_scheme" where
  "drop_jmp s t n q = set_jmp (JmpNext t n) None (set_jmp s (jmp_next (tbs q t) n) q)"

definition without :: "tb_ref \<Rightarrow> (nat \<Rightarrow> tb_ref list) \<Rightarrow> nat \<Rightarrow> tb_ref list" where
  "without r J = (\<lambda>u. filter (\<lambda>x. x \<noteq> r) (J u))"

lemma drop_jmp_shape:
  assumes J: "jmp_shape q J L" and u: "u \<in> L" "J u = ys @ (t, n) # zs" and n: "n < 2"
  shows "jmp_shape (drop_jmp (jmp_slot_of (JmpFirst u) ys) t n q) (without (t, n) J) L"
proof -
  let ?q = "drop_jmp (jmp_slot_of (JmpFirst u) ys) t n q"
  note C = J [unfolded jmp_shape_def, THEN conjunct1]
  have d: "distinct (ys @ (t, n) # zs)" using chainsD(2) [OF C u(1)] u(2) by simp
  have others: "(t, n) \<notin> set (J v)" if "v \<in> L" "v \<noteq> u" for v
    using chainsD(3) [OF C u(1) that(1), of "(t, n)"] that(2) u(2) by auto
  have nxt: "jmp_nxt ?q r = (if r = (t, n) then None else if ys \<noteq> [] \<and> r = last ys then jmp_nxt q (t, n)
      else jmp_nxt q r)" for r
  proof -
    have "jmp_slot_of (JmpFirst u) ys = JmpNext (fst r) (snd r) \<longleftrightarrow> ys \<noteq> [] \<and> r = last ys"
      by (auto simp: jmp_slot_of_def prod_eq_iff)
    moreover have "JmpNext t n = JmpNext (fst r) (snd r) \<longleftrightarrow> r = (t, n)" by auto
    ultimately show ?thesis unfolding drop_jmp_def jmp_next_set_jmp by simp
  qed
  have hd: "jmp_head_of ?q v = (if v = u \<and> ys = [] then jmp_nxt q (t, n) else jmp_head_of q v)" for v
    unfolding drop_jmp_def jmp_first_set_jmp by (simp add: jmp_slot_of_def)
  have "chains (jmp_nxt ?q) (jmp_head_of ?q) (\<lambda>t. Some (t, 2)) L (J(u := ys @ zs))"
    by (rule chains_unlink [OF C u]) (use nxt hd in auto)
  moreover have w: "without (t, n) J v = (J(u := ys @ zs)) v" if "v \<in> L" for v
    using others [OF that] filter_split [OF d] u(2) by (auto simp: without_def filter_id_conv)
  ultimately have "chains (jmp_nxt ?q) (jmp_head_of ?q) (\<lambda>t. Some (t, 2)) L (without (t, n) J)"
    by (simp add: chains_def)
  moreover have "\<forall>v\<in>L. set (without (t, n) J v) \<subseteq> L \<times> {0, 1}"
    using J by (auto simp: jmp_shape_def without_def)
  moreover have "jmp_nxt ?q (v, m) \<noteq> None \<longleftrightarrow> (\<exists>w\<in>L. (v, m) \<in> set (without (t, n) J w))"
    if "v \<in> L" "m < 2" for v m
  proof -
    have "jmp_nxt q (t, n) \<noteq> None"
      using chainsD(1) [OF C u(1)] u(2) by (cases zs) (auto simp: chain_append)
    moreover have "jmp_nxt q (v, m) \<noteq> None \<longleftrightarrow> (\<exists>w\<in>L. (v, m) \<in> set (J w))"
      using J that by (simp add: jmp_shape_def)
    moreover have "ys \<noteq> [] \<Longrightarrow> last ys \<in> set (J u)" by (simp add: u(2))
    ultimately show ?thesis using nxt [of "(v, m)"] u(1) by (auto simp: without_def)
  qed
  ultimately show ?thesis unfolding jmp_shape_def by blast
qed

end
