(* ===== verification/TBShape.thy ===== *)
theory TBShape
  imports TBChains
begin

text \<open>
  The shape invariant of the translation cache: which blocks are live, and that the hash
  lists, the page lists and the jump lists hold exactly them. Every operation of the cache
  returns on a cache of this shape and keeps it.
\<close>

section \<open>Changes of the jump lists\<close>

text \<open>The fields of a block that no list operation changes.\<close>

definition ident :: "TranslationBlock \<Rightarrow> u32 \<times> u32 \<times> u64 \<times> u16 \<times> u16 \<times> u32 \<times> (nat \<Rightarrow> u32)" where
  "ident b = (tb_pc b, tb_cs_base b, tb_flags b, tb_size b, tb_cflags b, tc_ptr b, page_addr b)"

definition bare :: "TranslationBlock \<Rightarrow> TranslationBlock" where
  "bare b = b\<lparr>tb_next := (\<lambda>_. 0), jmp_next := (\<lambda>_. None), jmp_first := None\<rparr>"

text \<open>Only the jump fields of blocks differ.\<close>

definition jmps_only :: "'a tb_ctx_scheme \<Rightarrow> 'a tb_ctx_scheme \<Rightarrow> bool" where
  "jmps_only q q' \<longleftrightarrow> q' = q\<lparr>tbs := tbs q'\<rparr> \<and> (\<forall>u. bare (tbs q' u) = bare (tbs q u))"

lemma jmps_only_refl [simp]: "jmps_only q q"
  by (simp add: jmps_only_def)

lemma jmps_only_trans [trans]: "jmps_only q q' \<Longrightarrow> jmps_only q' q'' \<Longrightarrow> jmps_only q q''"
proof -
  assume a: "jmps_only q q'" "jmps_only q' q''"
  then have "q'' = (q\<lparr>tbs := tbs q'\<rparr>)\<lparr>tbs := tbs q''\<rparr>" unfolding jmps_only_def by metis
  then show ?thesis using a by (simp add: jmps_only_def)
qed

lemma jmps_only_set_tb: "(\<And>b. bare (f b) = bare b) \<Longrightarrow> jmps_only q (set_tb t f q)"
  by (simp add: jmps_only_def set_tb_def)

lemma jmps_only_set_jmp [simp]: "jmps_only q (set_jmp s v q)"
  by (cases s) (simp_all add: jmps_only_set_tb bare_def)

lemma jmps_only_reset [simp]: "jmps_only q (tb_reset_jump t n q)"
  by (simp add: tb_reset_jump_def tb_set_jmp_target_def jmps_only_set_tb bare_def)

lemma jmps_only_block:
  assumes "jmps_only q q'"
  shows "tb_pc (tbs q' u) = tb_pc (tbs q u)" "page_addr (tbs q' u) = page_addr (tbs q u)"
    "page_next (tbs q' u) = page_next (tbs q u)" "phys_hash_next (tbs q' u) = phys_hash_next (tbs q u)"
    "ident (tbs q' u) = ident (tbs q u)"
proof -
  have e: "bare (tbs q' u) = bare (tbs q u)" using assms by (simp add: jmps_only_def)
  have f: "f (tbs q' u) = f (tbs q u)" if "\<And>b. f (bare b) = f b" for f :: "TranslationBlock \<Rightarrow> 'b"
    using e that by metis
  show "tb_pc (tbs q' u) = tb_pc (tbs q u)" "page_addr (tbs q' u) = page_addr (tbs q u)"
    "page_next (tbs q' u) = page_next (tbs q u)" "phys_hash_next (tbs q' u) = phys_hash_next (tbs q u)"
    "ident (tbs q' u) = ident (tbs q u)"
    by (rule f, simp add: bare_def ident_def)+
qed

lemma jmp_shape_cong:
  assumes "jmp_shape q J L" "\<And>u. u \<in> L \<Longrightarrow> J' u = J u"
  shows "jmp_shape q J' L"
  using assms by (simp add: jmp_shape_def chains_def)

text \<open>The jump fields of the blocks that are not live are left alone.\<close>

definition outside :: "nat set \<Rightarrow> 'a tb_ctx_scheme \<Rightarrow> 'a tb_ctx_scheme \<Rightarrow> bool" where
  "outside L q q' \<longleftrightarrow> (\<forall>u. u \<notin> L \<longrightarrow> jmp_next (tbs q' u) = jmp_next (tbs q u))"

lemma outside_refl [simp]: "outside L q q"
  by (simp add: outside_def)

lemma outside_trans [trans]: "outside L q q' \<Longrightarrow> outside L q' q'' \<Longrightarrow> outside L q q''"
  by (simp add: outside_def)

text \<open>
  Unlinking: no jump is added; a jump that stays patched keeps its target; a jump that is undone
  leads back to the exit of its own block, except for blocks in \<open>T\<close>, which are given up.
\<close>

definition exit_stub :: "TranslationBlock \<Rightarrow> nat \<Rightarrow> u32" where
  "exit_stub b n = tc_ptr b + ucast (tb_next_offset b n)"

definition same_exits :: "'a tb_ctx_scheme \<Rightarrow> 'a tb_ctx_scheme \<Rightarrow> bool" where
  "same_exits q q' \<longleftrightarrow> (\<forall>v. tc_ptr (tbs q' v) = tc_ptr (tbs q v) \<and> tb_next_offset (tbs q' v) = tb_next_offset (tbs q v))"

definition unlinks :: "nat set \<Rightarrow> 'a tb_ctx_scheme \<Rightarrow> 'a tb_ctx_scheme \<Rightarrow> bool" where
  "unlinks T q q' \<longleftrightarrow> same_exits q q' \<and>
     (\<forall>v n. (jmp_next (tbs q v) n = None \<longrightarrow> jmp_next (tbs q' v) n = None) \<and>
       (jmp_next (tbs q' v) n \<noteq> None \<longrightarrow> tb_next (tbs q' v) n = tb_next (tbs q v) n) \<and>
       (v \<notin> T \<and> jmp_next (tbs q' v) n = None \<longrightarrow> tb_next (tbs q' v) n = exit_stub (tbs q v) n \<or>
          jmp_next (tbs q v) n = None \<and> tb_next (tbs q' v) n = tb_next (tbs q v) n))"

lemma unlinks_same:
  assumes "\<And>v. jmp_next (tbs q' v) = jmp_next (tbs q v)" "\<And>v. tb_next (tbs q' v) = tb_next (tbs q v)"
    "same_exits q q'"
  shows "unlinks T q q'"
  using assms by (simp add: unlinks_def)

lemma unlinks_refl [simp]: "unlinks T q q"
  by (rule unlinks_same) (simp_all add: same_exits_def)

lemma unlinks_mono: "unlinks T q q' \<Longrightarrow> T \<subseteq> U \<Longrightarrow> unlinks U q q'"
  unfolding unlinks_def by blast

lemma unlinks_trans:
  assumes "unlinks T q q'" "unlinks T q' q''"
  shows "unlinks T q q''"
proof -
  have e: "same_exits q q''" "\<And>v n. exit_stub (tbs q' v) n = exit_stub (tbs q v) n"
    using assms by (simp_all add: unlinks_def same_exits_def exit_stub_def)
  show ?thesis unfolding unlinks_def
  proof (intro conjI allI impI e(1))
    fix v n
    have a: "jmp_next (tbs q v) n = None \<longrightarrow> jmp_next (tbs q' v) n = None"
      "jmp_next (tbs q' v) n \<noteq> None \<longrightarrow> tb_next (tbs q' v) n = tb_next (tbs q v) n"
      "v \<notin> T \<and> jmp_next (tbs q' v) n = None \<longrightarrow> tb_next (tbs q' v) n = exit_stub (tbs q v) n \<or>
         jmp_next (tbs q v) n = None \<and> tb_next (tbs q' v) n = tb_next (tbs q v) n"
      using assms(1) unfolding unlinks_def by blast+
    have b: "jmp_next (tbs q' v) n = None \<longrightarrow> jmp_next (tbs q'' v) n = None"
      "jmp_next (tbs q'' v) n \<noteq> None \<longrightarrow> tb_next (tbs q'' v) n = tb_next (tbs q' v) n"
      "v \<notin> T \<and> jmp_next (tbs q'' v) n = None \<longrightarrow> tb_next (tbs q'' v) n = exit_stub (tbs q v) n \<or>
         jmp_next (tbs q' v) n = None \<and> tb_next (tbs q'' v) n = tb_next (tbs q' v) n"
      using assms(2) unfolding unlinks_def e(2) by blast+
    show "jmp_next (tbs q v) n = None \<Longrightarrow> jmp_next (tbs q'' v) n = None" using a b by blast
    show "jmp_next (tbs q'' v) n \<noteq> None \<Longrightarrow> tb_next (tbs q'' v) n = tb_next (tbs q v) n" using a b by metis
    show "v \<notin> T \<and> jmp_next (tbs q'' v) n = None \<Longrightarrow> tb_next (tbs q'' v) n = exit_stub (tbs q v) n \<or>
        jmp_next (tbs q v) n = None \<and> tb_next (tbs q'' v) n = tb_next (tbs q v) n" using a b by metis
  qed
qed

text \<open>Dropping one jump of a block that is given up, and undoing one jump.\<close>

lemma set_jmp_next [simp]: "tb_next (tbs (set_jmp s v q) u) = tb_next (tbs q u)"
  "tc_ptr (tbs (set_jmp s v q) u) = tc_ptr (tbs q u)"
  "tb_next_offset (tbs (set_jmp s v q) u) = tb_next_offset (tbs q u)"
  by (cases s; simp)+

lemma reset_jump_simps:
  "jmp_next (tbs (tb_reset_jump t n q) u) = jmp_next (tbs q u)"
  "jmp_first (tbs (tb_reset_jump t n q) u) = jmp_first (tbs q u)"
  by (simp_all add: tb_reset_jump_def tb_set_jmp_target_def)

lemma reset_jump_next:
  "tb_next (tbs (tb_reset_jump t n q) u) m = (if u = t \<and> m = n then exit_stub (tbs q t) n else tb_next (tbs q u) m)"
  "tc_ptr (tbs (tb_reset_jump t n q) u) = tc_ptr (tbs q u)"
  "tb_next_offset (tbs (tb_reset_jump t n q) u) = tb_next_offset (tbs q u)"
  by (simp_all add: tb_reset_jump_def tb_set_jmp_target_def exit_stub_def)

lemma drop_jmp_outside:
  assumes "t \<in> L" "fst ` set ys \<subseteq> L"
  shows "outside L q (drop_jmp (jmp_slot_of (JmpFirst u) ys) t n q)"
proof -
  have "ys \<noteq> [] \<Longrightarrow> fst (last ys) \<in> L" using assms(2) by auto
  then show ?thesis using assms(1) by (auto simp: outside_def drop_jmp_def jmp_slot_of_def)
qed

text \<open>The slot that points to a jump is in use, and stays so unless the list ends there.\<close>

lemma drop_jmp_next:
  assumes C: "chain (jmp_nxt q) (jmp_first (tbs q u)) (ys @ (t, n) # zs) (Some (u, 2))" and v: "v \<noteq> t \<or> m \<noteq> n"
  shows "jmp_next (tbs (drop_jmp (jmp_slot_of (JmpFirst u) ys) t n q) v) m = None \<longleftrightarrow> jmp_next (tbs q v) m = None"
proof -
  have some: "jmp_next (tbs q t) n \<noteq> None" using C by (cases zs) (auto simp: chain_append)
  have prev: "jmp_next (tbs q (fst (last ys))) (snd (last ys)) \<noteq> None" if "ys \<noteq> []"
  proof -
    have "chain (jmp_nxt q) (jmp_first (tbs q u)) ys (Some (t, n))" using C by (auto simp: chain_append)
    from chain_last [OF this that] show ?thesis by simp
  qed
  have keep: "JmpNext t n \<noteq> JmpNext v m" using v by auto
  show ?thesis
  proof (cases "jmp_slot_of (JmpFirst u) ys = JmpNext v m")
    case True
    then have ys: "ys \<noteq> []" "fst (last ys) = v" "snd (last ys) = m" by (auto simp: jmp_slot_of_def split: if_splits)
    from prev [OF ys(1)] have "jmp_next (tbs q v) m \<noteq> None" unfolding ys(2,3) .
    then show ?thesis unfolding drop_jmp_def jmp_next_set_jmp using True keep some by (simp only: refl if_False if_True simp_thms)
  next
    case False
    then show ?thesis unfolding drop_jmp_def jmp_next_set_jmp using keep by (simp only: if_False)
  qed
qed

lemma drop_jmp_unlinks:
  assumes "chain (jmp_nxt q) (jmp_first (tbs q u)) (ys @ (t, n) # zs) (Some (u, 2))"
  shows "unlinks {t} q (drop_jmp (jmp_slot_of (JmpFirst u) ys) t n q)"
    "unlinks {} q (tb_reset_jump t n (drop_jmp (jmp_slot_of (JmpFirst u) ys) t n q))"
proof -
  let ?d = "drop_jmp (jmp_slot_of (JmpFirst u) ys) t n q"
  have n: "jmp_next (tbs ?d v) m = None \<longleftrightarrow> (v = t \<and> m = n) \<or> jmp_next (tbs q v) m = None" for v m
    using drop_jmp_next [OF assms, of v m] by (cases "v = t \<and> m = n") (auto simp: drop_jmp_def)
  have x: "tb_next (tbs ?d v) = tb_next (tbs q v)" "tc_ptr (tbs ?d v) = tc_ptr (tbs q v)"
    "tb_next_offset (tbs ?d v) = tb_next_offset (tbs q v)" for v
    by (simp_all only: drop_jmp_def set_jmp_next)
  show "unlinks {t} q ?d" using n x by (auto simp: unlinks_def same_exits_def)
  have "exit_stub (tbs ?d t) n = exit_stub (tbs q t) n" using x by (simp add: exit_stub_def)
  then show "unlinks {} q (tb_reset_jump t n ?d)"
    unfolding unlinks_def same_exits_def reset_jump_next reset_jump_simps n x by auto
qed

lemma tb_jmp_remove_shape:
  assumes J: "jmp_shape q J L" and t: "t \<in> L" "n < 2"
  obtains q' where "tb_jmp_remove t n q = Some q'" "jmp_shape q' (without (t, n) J) L" "jmps_only q q'" "outside L q q'"
    "unlinks {t} q q'"
proof (cases "jmp_nxt q (t, n)")
  case None
  then have "\<forall>u\<in>L. (t, n) \<notin> set (J u)" using J t unfolding jmp_shape_def by blast
  then have "jmp_shape q (without (t, n) J) L"
    using jmp_shape_cong [OF J, of "without (t, n) J"] by (auto simp: without_def filter_id_conv)
  with None show ?thesis using that [of q] by (simp add: tb_jmp_remove_def)
next
  case (Some r)
  then obtain u where u: "u \<in> L" "(t, n) \<in> set (J u)" using J t unfolding jmp_shape_def by blast
  then obtain ys zs where split: "J u = ys @ (t, n) # zs" by (meson split_list)
  note C = J [unfolded jmp_shape_def, THEN conjunct1]
  have tags: "\<forall>r\<in>set (J u). snd r < 2" using J u(1) unfolding jmp_shape_def by fastforce
  have "jmp_search (JmpNext t n) t n q = Some (jmp_slot_of (JmpFirst u) ys)"
    using jmp_search_circle(1) [of q u ys t n zs] chainsD(1,2) [OF C u(1)] tags split by simp
  then have "tb_jmp_remove t n q = Some (drop_jmp (jmp_slot_of (JmpFirst u) ys) t n q)"
    using Some by (simp add: tb_jmp_remove_def drop_jmp_def)
  moreover have "jmps_only q (drop_jmp (jmp_slot_of (JmpFirst u) ys) t n q)"
    unfolding drop_jmp_def by (rule jmps_only_trans [OF jmps_only_set_jmp jmps_only_set_jmp])
  moreover have "outside L q (drop_jmp (jmp_slot_of (JmpFirst u) ys) t n q)"
    using J u(1) split t(1) by (intro drop_jmp_outside) (fastforce simp: jmp_shape_def)+
  moreover have "unlinks {t} q (drop_jmp (jmp_slot_of (JmpFirst u) ys) t n q)"
    using chainsD(1) [OF C u(1)] split by (intro drop_jmp_unlinks(1) [of _ _ _ _ _ zs]) simp
  ultimately show ?thesis using that drop_jmp_shape [OF J u(1) split t(2)] by blast
qed

lemma reset_jumps_chain:
  assumes "chain (jmp_nxt q) r xs (Some (t, 2))" "distinct xs" "\<forall>x\<in>set xs. snd x < 2"
  shows "\<exists>q'. reset_jumps r q = Some q' \<and> jmps_only q q' \<and> (\<forall>v. jmp_first (tbs q' v) = jmp_first (tbs q v)) \<and>
    (\<forall>s. jmp_nxt q' s = (if s \<in> set xs then None else jmp_nxt q s)) \<and> unlinks {} q q'"
  using assms
proof (induction xs arbitrary: r q)
  case Nil
  then show ?case by (subst reset_jumps.simps) simp
next
  case (Cons x xs)
  define q1 where "q1 = set_jmp (JmpNext (fst x) (snd x)) None (tb_reset_jump (fst x) (snd x) q)"
  have nxt: "jmp_nxt q1 s = (if s = x then None else jmp_nxt q s)" for s
    unfolding q1_def jmp_next_set_jmp reset_jump_simps by (auto simp: prod_eq_iff)
  have first: "jmp_first (tbs q1 v) = jmp_first (tbs q v)" for v
    unfolding q1_def jmp_first_set_jmp reset_jump_simps by simp
  have o: "jmps_only q q1" unfolding q1_def by (rule jmps_only_trans [OF jmps_only_reset jmps_only_set_jmp])
  have u: "unlinks {} q q1"
    unfolding unlinks_def same_exits_def q1_def set_jmp_next reset_jump_next jmp_next_set_jmp reset_jump_simps by auto
  have "chain (jmp_nxt q1) (jmp_nxt q x) xs (Some (t, 2))"
    using Cons.prems nxt by (subst chain_cong [of xs "jmp_nxt q1" "jmp_nxt q"]) auto
  then obtain q' where q': "reset_jumps (jmp_nxt q x) q1 = Some q'" "jmps_only q1 q'"
    "\<forall>v. jmp_first (tbs q' v) = jmp_first (tbs q1 v)" "\<forall>s. jmp_nxt q' s = (if s \<in> set xs then None else jmp_nxt q1 s)"
    "unlinks {} q1 q'"
    using Cons.IH [of q1 "jmp_nxt q x"] Cons.prems by auto
  have "reset_jumps r q = reset_jumps (jmp_nxt q x) q1"
    using Cons.prems by (subst reset_jumps.simps) (auto simp: q1_def split: prod.split)
  then show ?case using q' nxt first jmps_only_trans [OF o q'(2)] unlinks_trans [OF u q'(5)] by auto
qed

section \<open>Hash lists\<close>

definition hash_of :: "TranslationBlock \<Rightarrow> nat" where
  "hash_of b = tb_phys_hash_func (phys_pc_of b)"

definition hash_shape :: "'a tb_ctx_scheme \<Rightarrow> (nat \<Rightarrow> nat list) \<Rightarrow> nat set \<Rightarrow> bool" where
  "hash_shape q H L \<longleftrightarrow> chains (hash_nxt q) (tb_phys_hash q) (\<lambda>_. None) UNIV H \<and>
     (\<forall>h. set (H h) = {t \<in> L. hash_of (tbs q t) = h})"

definition hash_only :: "'a tb_ctx_scheme \<Rightarrow> 'a tb_ctx_scheme \<Rightarrow> bool" where
  "hash_only q q' \<longleftrightarrow> q' = q\<lparr>tbs := tbs q', tb_phys_hash := tb_phys_hash q'\<rparr> \<and>
     (\<forall>u. (tbs q' u)\<lparr>phys_hash_next := None\<rparr> = (tbs q u)\<lparr>phys_hash_next := None\<rparr>)"

lemma hash_only_set_hash: "hash_only q (set_hash s v q)"
  by (cases s) (simp_all add: hash_only_def set_tb_def)

lemma hash_only_block:
  assumes "hash_only q q'"
  shows "tb_pc (tbs q' u) = tb_pc (tbs q u)" "page_addr (tbs q' u) = page_addr (tbs q u)"
    "page_next (tbs q' u) = page_next (tbs q u)" "jmp_next (tbs q' u) = jmp_next (tbs q u)"
    "jmp_first (tbs q' u) = jmp_first (tbs q u)" "ident (tbs q' u) = ident (tbs q u)"
proof -
  have e: "(tbs q' u)\<lparr>phys_hash_next := None\<rparr> = (tbs q u)\<lparr>phys_hash_next := None\<rparr>"
    using assms by (simp add: hash_only_def)
  have f: "f (tbs q' u) = f (tbs q u)" if "\<And>b. f (b\<lparr>phys_hash_next := None\<rparr>) = f b"
    for f :: "TranslationBlock \<Rightarrow> 'b" using e that by metis
  show "tb_pc (tbs q' u) = tb_pc (tbs q u)" "page_addr (tbs q' u) = page_addr (tbs q u)"
    "page_next (tbs q' u) = page_next (tbs q u)" "jmp_next (tbs q' u) = jmp_next (tbs q u)"
    "jmp_first (tbs q' u) = jmp_first (tbs q u)" "ident (tbs q' u) = ident (tbs q u)"
    by (rule f, simp add: ident_def)+
qed

lemma hash_of_cong: "tb_pc b' = tb_pc b \<Longrightarrow> page_addr b' = page_addr b \<Longrightarrow> hash_of b' = hash_of b"
  by (simp add: hash_of_def phys_pc_of_def)

lemma hash_leave:
  assumes H: "hash_shape q H L" and t: "t \<in> L"
  obtains q' where "tb_remove (HashHead (hash_of (tbs q t))) t q = Some q'"
    "hash_shape q' (\<lambda>h. filter (\<lambda>u. u \<noteq> t) (H h)) (L - {t})" "hash_only q q'"
proof -
  note C = H [unfolded hash_shape_def, THEN conjunct1]
  have m: "set (H h) = {t \<in> L. hash_of (tbs q t) = h}" for h using H by (simp add: hash_shape_def)
  let ?h = "hash_of (tbs q t)"
  obtain s where s: "tb_remove (HashHead ?h) t q = Some (set_hash s (hash_nxt q t) q)"
    "chains (hash_nxt (set_hash s (hash_nxt q t) q)) (tb_phys_hash (set_hash s (hash_nxt q t) q)) (\<lambda>_. None) UNIV
       (H(?h := filter (\<lambda>u. u \<noteq> t) (H ?h)))"
    using tb_remove_shape [OF C, of t ?h] m [of ?h] t by blast
  let ?q = "set_hash s (hash_nxt q t) q"
  note o = hash_only_set_hash [of q s "hash_nxt q t"]
  have "H(?h := filter (\<lambda>u. u \<noteq> t) (H ?h)) = (\<lambda>h. filter (\<lambda>u. u \<noteq> t) (H h))"
    using m by (auto simp: fun_eq_iff intro!: filter_True [symmetric])
  moreover have "hash_of (tbs ?q u) = hash_of (tbs q u)" for u
    using hash_only_block [OF o] by (intro hash_of_cong) simp_all
  ultimately have "hash_shape ?q (\<lambda>h. filter (\<lambda>u. u \<noteq> t) (H h)) (L - {t})"
    using s(2) m by (auto simp: hash_shape_def)
  then show ?thesis using that [of ?q] s(1) o by simp
qed

section \<open>Page lists\<close>

definition on_page :: "TranslationBlock \<Rightarrow> nat \<Rightarrow> u32 \<Rightarrow> bool" where
  "on_page b n i \<longleftrightarrow> n < 2 \<and> (n = 1 \<longrightarrow> page_addr b 1 \<noteq> -1) \<and> drop_bit 12 (page_addr b n) = i"

text \<open>The two pages of a block are page addresses and differ; -1 stands for no second page.\<close>

definition pages_ok :: "TranslationBlock \<Rightarrow> bool" where
  "pages_ok b \<longleftrightarrow> offset_bits (page_addr b 0) = 0 \<and>
     (page_addr b 1 = -1 \<or> offset_bits (page_addr b 1) = 0 \<and> page_addr b 1 \<noteq> page_addr b 0)"

definition page_shape :: "'a tb_ctx_scheme \<Rightarrow> (u32 \<Rightarrow> tb_ref list) \<Rightarrow> nat set \<Rightarrow> bool" where
  "page_shape q P L \<longleftrightarrow> chains (page_nxt q) (page_first q) (\<lambda>_. None) UNIV P \<and>
     (\<forall>i. set (P i) = {(t, n). t \<in> L \<and> on_page (tbs q t) n i})"

definition pages_only :: "'a tb_ctx_scheme \<Rightarrow> 'a tb_ctx_scheme \<Rightarrow> bool" where
  "pages_only q q' \<longleftrightarrow> q' = q\<lparr>tbs := tbs q', l1_map := l1_map q'\<rparr> \<and>
     (\<forall>u. (tbs q' u)\<lparr>page_next := (\<lambda>_. None)\<rparr> = (tbs q u)\<lparr>page_next := (\<lambda>_. None)\<rparr>)"

lemma pages_only_refl [simp]: "pages_only q q"
  by (simp add: pages_only_def)

lemma pages_only_trans:
  assumes "pages_only q q'" "pages_only q' q''"
  shows "pages_only q q''"
proof -
  have "q'' = (q\<lparr>tbs := tbs q', l1_map := l1_map q'\<rparr>)\<lparr>tbs := tbs q'', l1_map := l1_map q''\<rparr>"
    using assms unfolding pages_only_def by metis
  moreover have "(tbs q'' u)\<lparr>page_next := (\<lambda>_. None)\<rparr> = (tbs q u)\<lparr>page_next := (\<lambda>_. None)\<rparr>" for u
    using assms by (simp add: pages_only_def)
  ultimately show ?thesis by (simp add: pages_only_def)
qed

lemma pages_only_set_page [simp]: "pages_only q (set_page i f q)"
  by (simp add: pages_only_def set_page_def split: option.split)

lemma pages_only_set_page_slot [simp]: "pages_only q (set_page_slot s v q)"
  by (cases s) (simp_all add: pages_only_def set_page_def set_tb_def split: option.split)

lemma pages_only_block:
  assumes "pages_only q q'"
  shows "tb_pc (tbs q' u) = tb_pc (tbs q u)" "page_addr (tbs q' u) = page_addr (tbs q u)"
    "phys_hash_next (tbs q' u) = phys_hash_next (tbs q u)" "jmp_next (tbs q' u) = jmp_next (tbs q u)"
    "jmp_first (tbs q' u) = jmp_first (tbs q u)" "ident (tbs q' u) = ident (tbs q u)"
proof -
  have e: "(tbs q' u)\<lparr>page_next := (\<lambda>_. None)\<rparr> = (tbs q u)\<lparr>page_next := (\<lambda>_. None)\<rparr>"
    using assms by (simp add: pages_only_def)
  have f: "f (tbs q' u) = f (tbs q u)" if "\<And>b. f (b\<lparr>page_next := (\<lambda>_. None)\<rparr>) = f b"
    for f :: "TranslationBlock \<Rightarrow> 'b" using e that by metis
  show "tb_pc (tbs q' u) = tb_pc (tbs q u)" "page_addr (tbs q' u) = page_addr (tbs q u)"
    "phys_hash_next (tbs q' u) = phys_hash_next (tbs q u)" "jmp_next (tbs q' u) = jmp_next (tbs q u)"
    "jmp_first (tbs q' u) = jmp_first (tbs q u)" "ident (tbs q' u) = ident (tbs q u)"
    by (rule f, simp add: ident_def)+
qed

lemma page_index_inj:
  fixes a b :: u32
  assumes "offset_bits a = 0" "offset_bits b = 0" "drop_bit 12 a = drop_bit 12 b"
  shows "a = b"
proof (rule bit_word_eqI)
  fix n assume "n < LENGTH(32)"
  have low: "\<not> bit x n" if "x AND 0xfff = 0" "n < 12" for x :: u32
  proof -
    have "bit (x AND 0xfff) n = False" using that by simp
    moreover have "(0xfff :: u32) = mask 12" by (simp add: mask_eq_exp_minus_1)
    ultimately show ?thesis using that by (simp add: bit_simps)
  qed
  have high: "bit x n = bit (drop_bit 12 x) (n - 12)" if "12 \<le> n" for x :: u32
    using that by (simp add: bit_simps)
  show "bit a n = bit b n" using assms low high by (cases "n < 12") auto
qed

lemma on_page_cong: "page_addr b' = page_addr b \<Longrightarrow> on_page b' n i = on_page b n i"
  by (simp add: on_page_def)

text \<open>Leaving one page: the block is on the list of that page once.\<close>

lemma page_leave_one:
  assumes P: "chains (page_nxt q) (page_first q) (\<lambda>_. None) UNIV P"
    and t: "(t, n) \<in> set (P (drop_bit 12 (page_addr (tbs q t) n)))"
      "\<forall>m i. (t, m) \<in> set (P i) \<longrightarrow> drop_bit 12 (page_addr (tbs q t) m) = i"
      "\<forall>m i. (t, m) \<in> set (P i) \<longrightarrow> drop_bit 12 (page_addr (tbs q t) n) = i \<longrightarrow> m = n"
  obtains q' where "leave_page t n q = Some q'" "pages_only q q'"
    "chains (page_nxt q') (page_first q') (\<lambda>_. None) UNIV (\<lambda>i. filter (\<lambda>r. r \<noteq> (t, n)) (P i))"
proof -
  let ?i = "drop_bit 12 (page_addr (tbs q t) n)"
  obtain s where s: "leave_page t n q = Some (set_page ?i invalidate_page_bitmap (set_page_slot s (page_nxt q (t, n)) q))"
    "chains (page_nxt (set_page_slot s (page_nxt q (t, n)) q))
       (page_first (set_page ?i invalidate_page_bitmap (set_page_slot s (page_nxt q (t, n)) q))) (\<lambda>_. None) UNIV
       (P(?i := filter (\<lambda>r. r \<noteq> (t, n)) (P ?i)))"
    using leave_page_shape [OF P t(1)] t(3) by blast
  let ?q = "set_page ?i invalidate_page_bitmap (set_page_slot s (page_nxt q (t, n)) q)"
  have "P(?i := filter (\<lambda>r. r \<noteq> (t, n)) (P ?i)) = (\<lambda>i. filter (\<lambda>r. r \<noteq> (t, n)) (P i))"
    using t(2) by (auto simp: fun_eq_iff intro!: filter_True [symmetric])
  moreover have "pages_only q ?q" by (rule pages_only_trans [OF pages_only_set_page_slot pages_only_set_page])
  ultimately show ?thesis using that [of ?q] s by simp
qed

lemma page_leave:
  assumes P: "page_shape q P L" and t: "t \<in> L" "pages_ok (tbs q t)"
  obtains q1 q2 where "leave_page t 0 q = Some q1" "page_addr (tbs q1 t) = page_addr (tbs q t)"
    "(if page_addr (tbs q1 t) 1 \<noteq> -1 then leave_page t 1 q1 else Some q1) = Some q2" "pages_only q q2"
    "page_shape q2 (\<lambda>i. filter (\<lambda>r. fst r \<noteq> t) (P i)) (L - {t})"
proof -
  note C = P [unfolded page_shape_def, THEN conjunct1]
  have m: "(u, n) \<in> set (P i) \<longleftrightarrow> u \<in> L \<and> on_page (tbs q u) n i" for u n i
    using P by (simp add: page_shape_def)
  have one: "n = 0 \<and> m = 1 \<or> n = 1 \<and> m = 0 \<Longrightarrow> page_addr (tbs q t) 1 \<noteq> -1 \<Longrightarrow>
      drop_bit 12 (page_addr (tbs q t) n) \<noteq> drop_bit 12 (page_addr (tbs q t) m)" for n m
    using t(2) page_index_inj [of "page_addr (tbs q t) 0" "page_addr (tbs q t) 1"] by (auto simp: pages_ok_def)
  have u0: "\<forall>m i. (t, m) \<in> set (P i) \<longrightarrow> drop_bit 12 (page_addr (tbs q t) 0) = i \<longrightarrow> m = 0"
    using m one [of 0 1] by (fastforce simp: on_page_def less_2_cases_iff)
  obtain q1 where q1: "leave_page t 0 q = Some q1" "pages_only q q1"
    "chains (page_nxt q1) (page_first q1) (\<lambda>_. None) UNIV (\<lambda>i. filter (\<lambda>r. r \<noteq> (t, 0)) (P i))"
    by (rule page_leave_one [OF C, of t 0]) (use m t(1) u0 in \<open>auto simp: on_page_def\<close>)
  have a: "page_addr (tbs q1 u) = page_addr (tbs q u)" for u using pages_only_block [OF q1(2)] by simp
  have only0: "n = 0" if "page_addr (tbs q t) 1 = -1" "(t, n) \<in> set (P i)" for n i
    using m that by (auto simp: on_page_def less_2_cases_iff)
  have "\<exists>q2. (if page_addr (tbs q1 t) 1 \<noteq> -1 then leave_page t 1 q1 else Some q1) = Some q2 \<and> pages_only q q2 \<and>
      chains (page_nxt q2) (page_first q2) (\<lambda>_. None) UNIV (\<lambda>i. filter (\<lambda>r. fst r \<noteq> t) (P i))"
  proof (cases "page_addr (tbs q t) 1 = -1")
    case True
    have "filter (\<lambda>r. r \<noteq> (t, 0)) (P i) = filter (\<lambda>r. fst r \<noteq> t) (P i)" for i
      using only0 [OF True] by (auto intro!: filter_cong)
    then show ?thesis using q1 a True by simp
  next
    case False
    obtain q2 where q2: "leave_page t 1 q1 = Some q2" "pages_only q1 q2"
      "chains (page_nxt q2) (page_first q2) (\<lambda>_. None) UNIV
         (\<lambda>i. filter (\<lambda>r. r \<noteq> (t, 1)) (filter (\<lambda>r. r \<noteq> (t, 0)) (P i)))"
      by (rule page_leave_one [OF q1(3), of t 1])
        (use m t(1) False a one [of 1 0] in \<open>auto simp: on_page_def less_2_cases_iff\<close>)
    have "filter (\<lambda>r. r \<noteq> (t, 1)) (filter (\<lambda>r. r \<noteq> (t, 0)) (P i)) = filter (\<lambda>r. fst r \<noteq> t) (P i)" for i
      unfolding filter_filter using m by (intro filter_cong) (auto simp: on_page_def less_2_cases_iff)
    then show ?thesis using q2 pages_only_trans [OF q1(2) q2(2)] a False by simp
  qed
  then obtain q2 where q2: "(if page_addr (tbs q1 t) 1 \<noteq> -1 then leave_page t 1 q1 else Some q1) = Some q2"
    "pages_only q q2" "chains (page_nxt q2) (page_first q2) (\<lambda>_. None) UNIV (\<lambda>i. filter (\<lambda>r. fst r \<noteq> t) (P i))"
    by blast
  have "on_page (tbs q2 u) n i = on_page (tbs q u) n i" for u n i
    using pages_only_block [OF q2(2)] by (intro on_page_cong) simp
  then have "page_shape q2 (\<lambda>i. filter (\<lambda>r. fst r \<noteq> t) (P i)) (L - {t})"
    using q2(3) m by (auto simp: page_shape_def)
  then show ?thesis using that [OF q1(1) a q2(1,2)] by blast
qed

section \<open>The invariant\<close>

definition tb_shape ::
  "'a tb_ctx_scheme \<Rightarrow> (nat \<Rightarrow> nat list) \<Rightarrow> (u32 \<Rightarrow> tb_ref list) \<Rightarrow> (nat \<Rightarrow> tb_ref list) \<Rightarrow> nat set \<Rightarrow> bool" where
  "tb_shape q H P J L \<longleftrightarrow> hash_shape q H L \<and> page_shape q P L \<and> jmp_shape q J L \<and>
     (\<forall>h t. tb_jmp_cache q h = Some t \<longrightarrow> t \<in> L \<and> h = tb_jmp_cache_hash_func (tb_pc (tbs q t))) \<and>
     (\<forall>t\<in>L. pages_ok (tbs q t)) \<and> finite L"

text \<open>The links and counters of the cache may differ, the blocks and the CPU do not.\<close>

definition relinked :: "'a tb_ctx_scheme \<Rightarrow> 'a tb_ctx_scheme \<Rightarrow> bool" where
  "relinked q q' \<longleftrightarrow> (\<forall>u. ident (tbs q' u) = ident (tbs q u)) \<and>
     q' = q\<lparr>tb_jmp_cache := tb_jmp_cache q', tbs := tbs q', tb_phys_hash := tb_phys_hash q',
            l1_map := l1_map q', tb_invalidated_flag := tb_invalidated_flag q',
            tb_phys_invalidate_count := tb_phys_invalidate_count q'\<rparr>"

lemma relinked_refl [simp]: "relinked q q"
  by (simp add: relinked_def)

lemma relinked_trans [trans]:
  assumes "relinked q q'" "relinked q' q''"
  shows "relinked q q''"
proof -
  have "q'' = (q\<lparr>tb_jmp_cache := tb_jmp_cache q', tbs := tbs q', tb_phys_hash := tb_phys_hash q',
      l1_map := l1_map q', tb_invalidated_flag := tb_invalidated_flag q',
      tb_phys_invalidate_count := tb_phys_invalidate_count q'\<rparr>)
      \<lparr>tb_jmp_cache := tb_jmp_cache q'', tbs := tbs q'', tb_phys_hash := tb_phys_hash q'',
      l1_map := l1_map q'', tb_invalidated_flag := tb_invalidated_flag q'',
      tb_phys_invalidate_count := tb_phys_invalidate_count q''\<rparr>"
    using assms unfolding relinked_def by metis
  then show ?thesis using assms by (simp add: relinked_def)
qed

lemma relinked_hash: "hash_only q q' \<Longrightarrow> relinked q q'"
proof -
  assume a: "hash_only q q'"
  then obtain b h where q': "q' = q\<lparr>tbs := b, tb_phys_hash := h\<rparr>" unfolding hash_only_def by blast
  then have "\<And>u. ident (b u) = ident (tbs q u)" using hash_only_block(6) [OF a] by simp
  then show "relinked q q'" unfolding q' relinked_def by (cases q) simp
qed

lemma relinked_pages: "pages_only q q' \<Longrightarrow> relinked q q'"
proof -
  assume a: "pages_only q q'"
  then obtain b l where q': "q' = q\<lparr>tbs := b, l1_map := l\<rparr>" unfolding pages_only_def by blast
  then have "\<And>u. ident (b u) = ident (tbs q u)" using pages_only_block(6) [OF a] by simp
  then show "relinked q q'" unfolding q' relinked_def by (cases q) simp
qed

lemma relinked_jmps: "jmps_only q q' \<Longrightarrow> relinked q q'"
proof -
  assume a: "jmps_only q q'"
  then obtain b where q': "q' = q\<lparr>tbs := b\<rparr>" unfolding jmps_only_def by blast
  then have "\<And>u. ident (b u) = ident (tbs q u)" using jmps_only_block(5) [OF a] by simp
  then show "relinked q q'" unfolding q' relinked_def by (cases q) simp
qed

lemma hash_only_rest:
  assumes "hash_only q q'"
  shows "l1_map q' = l1_map q" "tb_jmp_cache q' = tb_jmp_cache q"
proof -
  obtain b h where "q' = q\<lparr>tbs := b, tb_phys_hash := h\<rparr>" using assms unfolding hash_only_def by blast
  then show "l1_map q' = l1_map q" "tb_jmp_cache q' = tb_jmp_cache q" by simp_all
qed

lemma pages_only_rest:
  assumes "pages_only q q'"
  shows "tb_phys_hash q' = tb_phys_hash q" "tb_jmp_cache q' = tb_jmp_cache q"
proof -
  obtain b l where "q' = q\<lparr>tbs := b, l1_map := l\<rparr>" using assms unfolding pages_only_def by blast
  then show "tb_phys_hash q' = tb_phys_hash q" "tb_jmp_cache q' = tb_jmp_cache q" by simp_all
qed

lemma jmps_only_rest:
  assumes "jmps_only q q'"
  shows "tb_phys_hash q' = tb_phys_hash q" "l1_map q' = l1_map q" "tb_jmp_cache q' = tb_jmp_cache q"
proof -
  obtain b where "q' = q\<lparr>tbs := b\<rparr>" using assms unfolding jmps_only_def by blast
  then show "tb_phys_hash q' = tb_phys_hash q" "l1_map q' = l1_map q" "tb_jmp_cache q' = tb_jmp_cache q"
    by simp_all
qed

lemma relinked_counters: "relinked q (q\<lparr>tb_invalidated_flag := f, tb_jmp_cache := c\<rparr>)"
  "relinked q (q\<lparr>tb_phys_invalidate_count := n\<rparr>)"
  unfolding relinked_def by (cases q; simp)+

lemma relinked_cpu:
  assumes "relinked q q'"
  shows "current_tb q' = current_tb q" "in_cpu_exec q' = in_cpu_exec q"
    "interrupt_request q' = interrupt_request q" "interrupt_lock q' = interrupt_lock q"
    "mem_write_pc q' = mem_write_pc q" "nb_tbs q' = nb_tbs q" "code_gen_ptr q' = code_gen_ptr q"
    "ident (tbs q' u) = ident (tbs q u)"
proof -
  have e: "q' = q\<lparr>tb_jmp_cache := tb_jmp_cache q', tbs := tbs q', tb_phys_hash := tb_phys_hash q',
      l1_map := l1_map q', tb_invalidated_flag := tb_invalidated_flag q',
      tb_phys_invalidate_count := tb_phys_invalidate_count q'\<rparr>"
    using assms by (simp add: relinked_def)
  show "current_tb q' = current_tb q" "in_cpu_exec q' = in_cpu_exec q"
    "interrupt_request q' = interrupt_request q" "interrupt_lock q' = interrupt_lock q"
    "mem_write_pc q' = mem_write_pc q" "nb_tbs q' = nb_tbs q" "code_gen_ptr q' = code_gen_ptr q"
    by (subst e, simp)+
  show "ident (tbs q' u) = ident (tbs q u)" using assms by (simp add: relinked_def)
qed

lemma ident_cong:
  assumes "ident b' = ident b"
  shows "hash_of b' = hash_of b" "on_page b' n i = on_page b n i" "pages_ok b' = pages_ok b"
    "tb_pc b' = tb_pc b" "page_addr b' = page_addr b" "tb_size b' = tb_size b"
  using assms by (simp_all add: ident_def hash_of_def phys_pc_of_def on_page_def pages_ok_def)

lemma hash_shape_frame:
  assumes "hash_shape q H L" "tb_phys_hash q' = tb_phys_hash q"
    "\<And>u. phys_hash_next (tbs q' u) = phys_hash_next (tbs q u)" "\<And>u. ident (tbs q' u) = ident (tbs q u)"
  shows "hash_shape q' H L"
  using assms ident_cong(1) [OF assms(4)] by (simp add: hash_shape_def)

lemma page_shape_frame:
  assumes "page_shape q P L" "l1_map q' = l1_map q"
    "\<And>u. page_next (tbs q' u) = page_next (tbs q u)" "\<And>u. ident (tbs q' u) = ident (tbs q u)"
  shows "page_shape q' P L"
  using assms ident_cong(2) [OF assms(4)] page_find_cong [of q' q] by (simp add: page_shape_def)

lemma jmp_shape_frame:
  assumes "jmp_shape q J L" "\<And>u. jmp_next (tbs q' u) = jmp_next (tbs q u)"
    "\<And>u. u \<in> L \<Longrightarrow> jmp_first (tbs q' u) = jmp_first (tbs q u)"
  shows "jmp_shape q' J L"
  using assms by (simp add: jmp_shape_def chains_def)

lemma cut_jumps_shape:
  assumes J: "jmp_shape q J L" and t: "t \<in> L"
  obtains q' J' where "cut_jumps t q = Some q'" "jmp_shape q' J' (L - {t})" "jmps_only q q'" "outside L q q'"
    "\<And>n. n < 2 \<Longrightarrow> jmp_nxt q' (t, n) = None" "unlinks {t} q q'" "\<And>u. set (J' u) \<subseteq> set (J u)"
proof -
  obtain q1 where q1: "tb_jmp_remove t 0 q = Some q1" "jmp_shape q1 (without (t, 0) J) L" "jmps_only q q1" "outside L q q1"
    "unlinks {t} q q1"
    by (rule tb_jmp_remove_shape [OF J t]) auto
  obtain q2 where q2: "tb_jmp_remove t 1 q1 = Some q2" "jmp_shape q2 (without (t, 1) (without (t, 0) J)) L"
    "jmps_only q1 q2" "outside L q1 q2" "unlinks {t} q1 q2"
    by (rule tb_jmp_remove_shape [OF q1(2) t]) auto
  define J' where "J' = without (t, 1) (without (t, 0) J)"
  have J': "jmp_shape q2 J' L" using q2(2) by (simp add: J'_def)
  note C = J' [unfolded jmp_shape_def, THEN conjunct1]
  have tags: "set (J' u) \<subseteq> (L - {t}) \<times> {0, 1}" if "u \<in> L" for u
    using J that unfolding jmp_shape_def J'_def without_def by auto
  obtain q3 where q3: "reset_jumps (jmp_first (tbs q2 t)) q2 = Some q3" "jmps_only q2 q3"
    "\<forall>v. jmp_first (tbs q3 v) = jmp_first (tbs q2 v)" "\<forall>s. jmp_nxt q3 s = (if s \<in> set (J' t) then None else jmp_nxt q2 s)"
    "unlinks {} q2 q3"
    using reset_jumps_chain [of q2 "jmp_first (tbs q2 t)" "J' t" t] chainsD(1,2) [OF C t] tags [OF t] by fastforce
  let ?q = "set_jmp (JmpFirst t) (Some (t, 2)) q3"
  have nxt: "jmp_nxt ?q s = (if s \<in> set (J' t) then None else jmp_nxt q2 s)" for s
    using q3(4) by (cases s) (auto simp del: set_jmp.simps simp: jmp_next_set_jmp)
  have "chains (jmp_nxt ?q) (jmp_head_of ?q) (\<lambda>t. Some (t, 2)) (L - {t}) J'"
  proof (rule chains_cong [OF chains_subset [OF C, of "L - {t}"]])
    fix k x assume "k \<in> L - {t}" "x \<in> set (J' k)"
    then have "x \<notin> set (J' t)" using chainsD(3) [OF C, of k t x] t by auto
    then show "jmp_nxt ?q x = jmp_nxt q2 x" unfolding nxt by simp
  qed (use q3(3) in auto)
  moreover have "jmp_nxt ?q (v, m) \<noteq> None \<longleftrightarrow> (\<exists>u\<in>L - {t}. (v, m) \<in> set (J' u))" if "v \<in> L - {t}" "m < 2" for v m
  proof -
    have "jmp_nxt q2 (v, m) \<noteq> None \<longleftrightarrow> (\<exists>u\<in>L. (v, m) \<in> set (J' u))" using J' that by (simp add: jmp_shape_def)
    moreover have "(v, m) \<notin> set (J' t)" if "u \<in> L - {t}" "(v, m) \<in> set (J' u)" for u
      using chainsD(3) [OF C, of u t] that t by auto
    ultimately show ?thesis unfolding nxt by auto
  qed
  ultimately have "jmp_shape ?q J' (L - {t})" using tags by (simp add: jmp_shape_def)
  moreover have "cut_jumps t q = Some ?q" using q1 q2 q3 by (simp add: cut_jumps_def)
  moreover have "jmps_only q ?q"
    by (rule jmps_only_trans [OF jmps_only_trans [OF jmps_only_trans [OF q1(3) q2(3)] q3(2)] jmps_only_set_jmp])
  moreover have "outside L q2 ?q"
    unfolding outside_def
  proof (intro allI impI ext)
    fix u n assume "u \<notin> L"
    then have "(u, n) \<notin> set (J' t)" using tags [OF t] by auto
    then show "jmp_next (tbs ?q u) n = jmp_next (tbs q2 u) n" using nxt [of "(u, n)"] by simp
  qed
  then have "outside L q ?q" by (rule outside_trans [OF outside_trans [OF q1(4) q2(4)]])
  moreover have "jmp_nxt ?q (t, n) = None" if "n < 2" for n
  proof -
    have "jmp_nxt q2 (t, n) = None" using J' t that tags unfolding jmp_shape_def by blast
    then show ?thesis unfolding nxt by simp
  qed
  moreover have u3: "unlinks {t} q2 q3" by (rule unlinks_mono [OF q3(5)]) simp
  have u4: "unlinks {t} q3 ?q"
    by (rule unlinks_same) (simp_all add: same_exits_def jmp_next_set_jmp fun_eq_iff del: set_jmp.simps)
  moreover have "unlinks {t} q ?q" by (rule unlinks_trans [OF unlinks_trans [OF unlinks_trans [OF q1(5) q2(5)] u3] u4])
  moreover have "set (J' u) \<subseteq> set (J u)" for u by (auto simp: J'_def without_def)
  ultimately show ?thesis using that by blast
qed

end
