(* ===== verification/TBProps.thy ===== *)
theory TBProps
  imports TBShape
begin

text \<open>
  Correctness of the translation cache: invalidating, unlinking and linking blocks return and
  keep the shape of the cache; an overwritten range leaves no block behind that intersects it.
\<close>

section \<open>Invalidating one block\<close>

lemma page0_not_minus_1: "pages_ok b \<Longrightarrow> page_addr b 0 \<noteq> -1"
  by (auto simp: pages_ok_def)

definition cuts :: "nat set \<Rightarrow> 'a tb_ctx_scheme \<Rightarrow> (nat \<Rightarrow> tb_ref list) \<Rightarrow> 'a tb_ctx_scheme \<Rightarrow> (nat \<Rightarrow> tb_ref list) \<Rightarrow> bool" where
  "cuts T q J q' J' \<longleftrightarrow> unlinks T q q' \<and> (\<forall>u. set (J' u) \<subseteq> set (J u))"

lemma cuts_refl [simp]: "cuts T q J q J"
  by (simp add: cuts_def)

lemma cuts_trans: "cuts T q J q' J' \<Longrightarrow> cuts T q' J' q'' J'' \<Longrightarrow> cuts T q J q'' J''"
  unfolding cuts_def using unlinks_trans by blast

lemma cuts_mono: "cuts T q J q' J' \<Longrightarrow> T \<subseteq> U \<Longrightarrow> cuts U q J q' J'"
  unfolding cuts_def using unlinks_mono by blast

lemma cuts_tbs: "tbs p = tbs q \<Longrightarrow> tbs p' = tbs q' \<Longrightarrow> cuts T p J p' J' = cuts T q J q' J'"
  by (simp add: cuts_def unlinks_def same_exits_def)

lemma hash_only_unlinks:
  assumes "hash_only q q'"
  shows "unlinks T q q'"
proof -
  have e: "(tbs q' u)\<lparr>phys_hash_next := None\<rparr> = (tbs q u)\<lparr>phys_hash_next := None\<rparr>" for u
    using assms by (simp add: hash_only_def)
  have f: "f (tbs q' u) = f (tbs q u)" if "\<And>b. f (b\<lparr>phys_hash_next := None\<rparr>) = f b"
    for u and f :: "TranslationBlock \<Rightarrow> 'b" using e [of u] that by metis
  have "tb_next (tbs q' u) = tb_next (tbs q u)" "tb_next_offset (tbs q' u) = tb_next_offset (tbs q u)"
    "tc_ptr (tbs q' u) = tc_ptr (tbs q u)" for u by (rule f, simp)+
  then show ?thesis using hash_only_block(4) [OF assms] by (intro unlinks_same) (simp_all add: same_exits_def)
qed

lemma pages_only_unlinks:
  assumes "pages_only q q'"
  shows "unlinks T q q'"
proof -
  have e: "(tbs q' u)\<lparr>page_next := (\<lambda>_. None)\<rparr> = (tbs q u)\<lparr>page_next := (\<lambda>_. None)\<rparr>" for u
    using assms by (simp add: pages_only_def)
  have f: "f (tbs q' u) = f (tbs q u)" if "\<And>b. f (b\<lparr>page_next := (\<lambda>_. None)\<rparr>) = f b"
    for u and f :: "TranslationBlock \<Rightarrow> 'b" using e [of u] that by metis
  have "tb_next (tbs q' u) = tb_next (tbs q u)" "tb_next_offset (tbs q' u) = tb_next_offset (tbs q u)"
    "tc_ptr (tbs q' u) = tc_ptr (tbs q u)" for u by (rule f, simp)+
  then show ?thesis using pages_only_block(4) [OF assms] by (intro unlinks_same) (simp_all add: same_exits_def)
qed

lemma tb_phys_invalidate_shape:
  assumes S: "tb_shape q H P J L" and t: "t \<in> L"
  obtains q' J' where "tb_phys_invalidate t (-1) q = Some q'" "relinked q q'"
    "tb_shape q' (\<lambda>h. filter (\<lambda>u. u \<noteq> t) (H h)) (\<lambda>i. filter (\<lambda>r. fst r \<noteq> t) (P i)) J' (L - {t})"
    "outside L q q'" "\<And>n. n < 2 \<Longrightarrow> jmp_nxt q' (t, n) = None" "cuts {t} q J q' J'"
proof -
  from S have h: "hash_shape q H L" and p: "page_shape q P L" and j: "jmp_shape q J L"
    and c: "\<And>h t. tb_jmp_cache q h = Some t \<Longrightarrow> t \<in> L \<and> h = tb_jmp_cache_hash_func (tb_pc (tbs q t))"
    and ok: "\<And>t. t \<in> L \<Longrightarrow> pages_ok (tbs q t)" and fin: "finite L"
    by (auto simp: tb_shape_def)
  obtain q1 where q1: "tb_remove (HashHead (hash_of (tbs q t))) t q = Some q1"
    "hash_shape q1 (\<lambda>h. filter (\<lambda>u. u \<noteq> t) (H h)) (L - {t})" "hash_only q q1"
    by (rule hash_leave [OF h t])
  note b1 = hash_only_block [OF q1(3)] and r1 = hash_only_rest [OF q1(3)]
  have p1: "page_shape q1 P L" by (rule page_shape_frame [OF p r1(1)]) (simp_all add: b1)
  have ok1: "pages_ok (tbs q1 t)" using ident_cong(3) [OF b1(6)] ok [OF t] by simp
  obtain q2 q3 where q2: "leave_page t 0 q1 = Some q2" "page_addr (tbs q2 t) = page_addr (tbs q1 t)"
    and q3: "(if page_addr (tbs q2 t) 1 \<noteq> -1 then leave_page t 1 q2 else Some q2) = Some q3" "pages_only q1 q3"
      "page_shape q3 (\<lambda>i. filter (\<lambda>r. fst r \<noteq> t) (P i)) (L - {t})"
    by (rule page_leave [OF p1 t ok1])
  note b3 = pages_only_block [OF q3(2)] and r3 = pages_only_rest [OF q3(2)]
  define k where "k = tb_jmp_cache_hash_func (tb_pc (tbs q3 t))"
  define q4 where "q4 = q3\<lparr>tb_invalidated_flag := True, tb_jmp_cache :=
    (if tb_jmp_cache q3 k = Some t then (tb_jmp_cache q3)(k := None) else tb_jmp_cache q3)\<rparr>"
  have s4 [simp]: "tbs q4 = tbs q3" "tb_phys_hash q4 = tb_phys_hash q3" "l1_map q4 = l1_map q3"
    by (simp_all add: q4_def)
  have j4: "jmp_shape q4 J L" by (rule jmp_shape_frame [OF j]) (simp_all add: b1 b3)
  obtain q5 J' where q5: "cut_jumps t q4 = Some q5" "jmp_shape q5 J' (L - {t})" "jmps_only q4 q5" "outside L q4 q5"
    "\<And>n. n < 2 \<Longrightarrow> jmp_nxt q5 (t, n) = None" "unlinks {t} q4 q5" "\<And>u. set (J' u) \<subseteq> set (J u)"
    by (rule cut_jumps_shape [OF j4 t]) blast
  note b5 = jmps_only_block [OF q5(3)] and r5 = jmps_only_rest [OF q5(3)]
  define q6 where "q6 = q5\<lparr>tb_phys_invalidate_count := tb_phys_invalidate_count q5 + 1\<rparr>"
  have s6 [simp]: "tbs q6 = tbs q5" "tb_phys_hash q6 = tb_phys_hash q5" "l1_map q6 = l1_map q5"
    "tb_jmp_cache q6 = tb_jmp_cache q4"
    by (simp_all add: q6_def r5)
  have id: "ident (tbs q6 u) = ident (tbs q u)" for u by (simp add: b5 b3 b1)
  have "relinked q q1" by (rule relinked_hash [OF q1(3)])
  also have "relinked q1 q3" by (rule relinked_pages [OF q3(2)])
  also have "relinked q3 q4" unfolding q4_def by (rule relinked_counters)
  also have "relinked q4 q5" by (rule relinked_jmps [OF q5(3)])
  also have "relinked q5 q6" unfolding q6_def by (rule relinked_counters)
  finally have "relinked q q6" .
  moreover have "tb_phys_invalidate t (-1) q = Some q6"
    using q1(1) q2(1) q3(1) q5(1) [unfolded q4_def] page0_not_minus_1 [OF ok1]
    by (cases "tb_jmp_cache q3 k = Some t")
      (simp_all add: tb_phys_invalidate_def hash_of_def [symmetric] Let_def k_def [symmetric] q6_def)
  moreover have "tb_shape q6 (\<lambda>h. filter (\<lambda>u. u \<noteq> t) (H h)) (\<lambda>i. filter (\<lambda>r. fst r \<noteq> t) (P i)) J' (L - {t})"
  proof -
    have "hash_shape q6 (\<lambda>h. filter (\<lambda>u. u \<noteq> t) (H h)) (L - {t})"
      by (rule hash_shape_frame [OF q1(2)]) (simp_all add: r5 r3 b5 b3)
    moreover have "page_shape q6 (\<lambda>i. filter (\<lambda>r. fst r \<noteq> t) (P i)) (L - {t})"
      by (rule page_shape_frame [OF q3(3)]) (simp_all add: r5 b5)
    moreover have "jmp_shape q6 J' (L - {t})" by (rule jmp_shape_frame [OF q5(2)]) simp_all
    moreover have "u \<in> L - {t} \<and> m = tb_jmp_cache_hash_func (tb_pc (tbs q6 u))" if "tb_jmp_cache q6 m = Some u" for m u
    proof -
      have "tb_pc (tbs q6 v) = tb_pc (tbs q v)" "tb_pc (tbs q3 v) = tb_pc (tbs q v)" for v
        using ident_cong(4) [OF id] b3 b1 by simp_all
      moreover have "tb_jmp_cache q m = Some u" "\<not> (m = k \<and> u = t)"
        using that by (auto simp: q4_def r3 r1 split: if_splits)
      ultimately show ?thesis using c [of m u] k_def by auto
    qed
    moreover have "\<forall>u\<in>L - {t}. pages_ok (tbs q6 u)" using ok ident_cong(3) [OF id] by auto
    ultimately show ?thesis using fin by (simp add: tb_shape_def)
  qed
  moreover have "outside L q q6" using q5(4) by (simp add: outside_def b3 b1)
  moreover have "jmp_nxt q6 (t, n) = None" if "n < 2" for n using q5(5) that by simp
  moreover have "cuts {t} q J q6 J'"
  proof -
    have "unlinks {t} q q3"
      by (rule unlinks_trans [OF hash_only_unlinks [OF q1(3)] pages_only_unlinks [OF q3(2)]])
    moreover have "unlinks {t} q3 q4" "unlinks {t} q5 q6" by (rule unlinks_same; simp add: same_exits_def)+
    ultimately show ?thesis using unlinks_trans q5(6,7) unfolding cuts_def by blast
  qed
  ultimately show ?thesis using that by blast
qed

section \<open>Unlinking a running block\<close>

lemma jmp_head_chain:
  "chain (jmp_nxt q) r zs (Some (u, 2)) \<Longrightarrow> \<forall>x\<in>set zs. snd x < 2 \<Longrightarrow> jmp_head r q = Some u"
proof (induction zs arbitrary: r)
  case Nil
  then show ?case by (subst jmp_head.simps) simp
next
  case (Cons z zs)
  then show ?case by (cases z) (subst jmp_head.simps, auto)
qed

definition jumps :: "(nat \<Rightarrow> tb_ref list) \<Rightarrow> nat set \<Rightarrow> nat" where
  "jumps J L = (\<Sum>u\<in>L. length (J u))"

lemma jumps_without:
  assumes "finite L" "u \<in> L" "r \<in> set (J u)"
  shows "jumps (without r J) L < jumps J L"
proof -
  have "length (filter (\<lambda>x. x \<noteq> r) (J u)) < length (J u)"
    using assms(3) by (intro length_filter_less) auto
  then show ?thesis unfolding jumps_def without_def
    using assms(1,2) by (intro sum_strict_mono_ex1) auto
qed

text \<open>
  Each step undoes one patched jump, so the recursion ends; and wherever a jump was undone, both
  jumps of its target are undone too.
\<close>

definition settled :: "(nat \<Rightarrow> tb_ref list) \<Rightarrow> 'a tb_ctx_scheme \<Rightarrow> (nat \<Rightarrow> tb_ref list) \<Rightarrow> nat set \<Rightarrow> bool" where
  "settled J q' J' L \<longleftrightarrow> (\<forall>u\<in>L. \<forall>r\<in>set (J u) - set (J' u). \<forall>m<2. jmp_nxt q' (u, m) = None)"

lemma settled_trans:
  assumes "settled J q' J' L" "settled J' q'' J'' L" "unlinks {} q' q''"
  shows "settled J q'' J'' L"
proof -
  have "jmp_nxt q'' r = None" if "jmp_nxt q' r = None" for r using assms(3) that by (simp add: unlinks_def)
  then show ?thesis using assms(1,2) unfolding settled_def by blast
qed

lemma reset_jump_recursive2_shape:
  assumes "jmp_shape q J L" "finite L" "t \<in> L" "n < 2"
  shows "\<exists>q' J'. tb_reset_jump_recursive2 t n q = Some q' \<and> jmps_only q q' \<and> outside L q q' \<and> jmp_shape q' J' L \<and>
    jumps J' L \<le> jumps J L \<and> cuts {} q J q' J' \<and> settled J q' J' L \<and> jmp_nxt q' (t, n) = None"
  using assms
proof (induction "jumps J L" arbitrary: q J t n rule: less_induct)
  case less
  note J = less.prems(1)
  show ?case
  proof (cases "jmp_nxt q (t, n)")
    case None
    then have "tb_reset_jump_recursive2 t n q = Some q" by (subst tb_reset_jump_recursive2.simps) simp
    then show ?thesis using J None by (intro exI [of _ q] exI [of _ J]) (simp add: settled_def)
  next
    case (Some r)
    then obtain u where u: "u \<in> L" "(t, n) \<in> set (J u)"
      using J less.prems(3,4) unfolding jmp_shape_def by blast
    then obtain ys zs where split: "J u = ys @ (t, n) # zs" by (meson split_list)
    note C = chainsD [OF J [unfolded jmp_shape_def, THEN conjunct1] u(1)]
    have tags: "\<forall>r\<in>set (J u). snd r < 2" using J u(1) unfolding jmp_shape_def by fastforce
    have head: "jmp_head (jmp_next (tbs q t) n) q = Some u"
      using C(1) split tags by (intro jmp_head_chain [of q _ zs]) (auto simp: chain_append)
    have search: "jmp_search (JmpFirst u) t n q = Some (jmp_slot_of (JmpFirst u) ys)"
      using jmp_search_circle(2) [of q u ys t n zs] C(1,2) tags split by simp
    define q1 where "q1 = tb_reset_jump t n (drop_jmp (jmp_slot_of (JmpFirst u) ys) t n q)"
    have j1: "jmp_shape q1 (without (t, n) J) L"
      unfolding q1_def by (rule jmp_shape_frame [OF drop_jmp_shape [OF J u(1) split less.prems(4)]])
        (simp_all add: reset_jump_simps)
    have o1: "jmps_only q q1"
      unfolding q1_def drop_jmp_def
      by (rule jmps_only_trans [OF jmps_only_trans [OF jmps_only_set_jmp jmps_only_set_jmp] jmps_only_reset])
    have out1: "outside L q q1"
    proof -
      have "fst ` set ys \<subseteq> L" using J u(1) split by (fastforce simp: jmp_shape_def)
      from drop_jmp_outside [OF less.prems(3) this, of q u n] show ?thesis
        unfolding q1_def by (simp add: outside_def reset_jump_simps)
    qed
    have cut1: "cuts {} q J q1 (without (t, n) J)"
      using drop_jmp_unlinks(2) [of q u ys t n zs] C(1) split by (auto simp: cuts_def q1_def without_def)
    have less1: "jumps (without (t, n) J) L < jumps J L" using jumps_without [of L u "(t, n)" J] less.prems(2) u by simp
    obtain q2 J2 where q2: "tb_reset_jump_recursive2 u 0 q1 = Some q2" "jmps_only q1 q2" "outside L q1 q2" "jmp_shape q2 J2 L"
      "jumps J2 L \<le> jumps (without (t, n) J) L" "cuts {} q1 (without (t, n) J) q2 J2" "settled (without (t, n) J) q2 J2 L"
      "jmp_nxt q2 (u, 0) = None"
      using less.hyps [OF less1 j1 less.prems(2) u(1), of 0] by auto
    obtain q3 J3 where q3: "tb_reset_jump_recursive2 u 1 q2 = Some q3" "jmps_only q2 q3" "outside L q2 q3" "jmp_shape q3 J3 L"
      "jumps J3 L \<le> jumps J2 L" "cuts {} q2 J2 q3 J3" "settled J2 q3 J3 L" "jmp_nxt q3 (u, 1) = None"
      using less.hyps [OF _ q2(4) less.prems(2) u(1), of 1] less1 q2(5) by auto
    have cut3: "cuts {} q1 (without (t, n) J) q3 J3" by (rule cuts_trans [OF q2(6) q3(6)])
    have none: "jmp_nxt q3 r = None" if "jmp_nxt q1 r = None \<or> jmp_nxt q2 r = None" for r
      using that cut3 q3(6) by (auto simp: cuts_def unlinks_def)
    have rest: "settled (without (t, n) J) q3 J3 L"
      using settled_trans [OF q2(7) q3(7)] q3(6) by (simp add: cuts_def)
    have u_off: "jmp_nxt q3 (u, m) = None" if "m < 2" for m
      using that q3(8) none [of "(u, 0)"] q2(8) by (auto simp: less_2_cases_iff)
    have only: "v = u" if "v \<in> L" "(t, n) \<in> set (J v)" for v
      using chainsD(3) [OF J [unfolded jmp_shape_def, THEN conjunct1] that(1) u(1)] that(2) u(2) by blast
    have settled3: "settled J q3 J3 L"
      unfolding settled_def
    proof (intro ballI allI impI)
      fix v r and m :: nat
      assume v: "v \<in> L" "r \<in> set (J v) - set (J3 v)" "m < 2"
      show "jmp_nxt q3 (v, m) = None"
      proof (cases "r = (t, n)")
        case True
        then have "v = u" using only v by blast
        then show ?thesis using u_off [OF v(3)] by (simp only:)
      next
        case False
        then have "r \<in> set (without (t, n) J v) - set (J3 v)" using v(2) by (simp add: without_def)
        then show ?thesis using rest v(1,3) unfolding settled_def by blast
      qed
    qed
    have "jmp_nxt q1 (t, n) = None" by (simp add: q1_def drop_jmp_def reset_jump_simps)
    then have tn: "jmp_nxt q3 (t, n) = None" using none by blast
    have "tb_reset_jump_recursive2 t n q = Some q3"
      using Some head search q2(1) q3(1)
      by (subst tb_reset_jump_recursive2.simps) (simp add: q1_def drop_jmp_def)
    moreover have "jmps_only q q3" by (rule jmps_only_trans [OF jmps_only_trans [OF o1 q2(2)] q3(2)])
    moreover have "outside L q q3" by (rule outside_trans [OF outside_trans [OF out1 q2(3)] q3(3)])
    ultimately show ?thesis using q3(4,5) q2(5) less1 cuts_trans [OF cut1 cut3] settled3 tn
      by (intro exI [of _ q3] exI [of _ J3]) simp
  qed
qed

text \<open>A block that is not live may be unlinked too, if its jumps are not patched.\<close>

definition unlinkable :: "'a tb_ctx_scheme \<Rightarrow> nat set \<Rightarrow> nat \<Rightarrow> bool" where
  "unlinkable q L t \<longleftrightarrow> t \<in> L \<or> (\<forall>n<2. jmp_nxt q (t, n) = None)"

lemma reset_jump_recursive_shape:
  assumes "jmp_shape q J L" "finite L" "unlinkable q L t"
  obtains q' J' where "tb_reset_jump_recursive t q = Some q'" "jmps_only q q'" "outside L q q'" "jmp_shape q' J' L"
    "cuts {} q J q' J'" "settled J q' J' L" "\<And>n. n < 2 \<Longrightarrow> jmp_nxt q' (t, n) = None"
proof (cases "t \<in> L")
  case True
  obtain q1 J1 where q1: "tb_reset_jump_recursive2 t 0 q = Some q1" "jmps_only q q1" "outside L q q1" "jmp_shape q1 J1 L"
    "cuts {} q J q1 J1" "settled J q1 J1 L" "jmp_nxt q1 (t, 0) = None"
    using reset_jump_recursive2_shape [OF assms(1,2) True, of 0] by auto
  obtain q2 J2 where q2: "tb_reset_jump_recursive2 t 1 q1 = Some q2" "jmps_only q1 q2" "outside L q1 q2" "jmp_shape q2 J2 L"
    "cuts {} q1 J1 q2 J2" "settled J1 q2 J2 L" "jmp_nxt q2 (t, 1) = None"
    using reset_jump_recursive2_shape [OF q1(4) assms(2) True, of 1] by auto
  have un: "unlinks {} q1 q2" using q2(5) by (simp add: cuts_def)
  have "jmp_nxt q2 (t, 0) = None" using un q1(7) by (simp add: unlinks_def)
  then have off: "\<And>n. n < 2 \<Longrightarrow> jmp_nxt q2 (t, n) = None" using q2(7) by (auto simp: less_2_cases_iff)
  show ?thesis
    using that [OF _ jmps_only_trans [OF q1(2) q2(2)] outside_trans [OF q1(3) q2(3)] q2(4) cuts_trans [OF q1(5) q2(5)]
        settled_trans [OF q1(6) q2(6) un] off] q1(1) q2(1)
    by (simp add: tb_reset_jump_recursive_def)
next
  case False
  then have none: "jmp_nxt q (t, 0) = None" "jmp_nxt q (t, 1) = None" using assms(3) by (auto simp: unlinkable_def)
  have "tb_reset_jump_recursive2 t n q = Some q" if "n = 0 \<or> n = 1" for n
    using none that by (subst tb_reset_jump_recursive2.simps) auto
  moreover have "jmp_nxt q (t, n) = None" if "n < 2" for n using none that by (auto simp: less_2_cases_iff)
  ultimately show ?thesis using that [of q J] assms(1) by (simp add: tb_reset_jump_recursive_def settled_def)
qed

section \<open>Overwritten code\<close>

definition cache_of :: "'a tb_ctx_scheme \<Rightarrow> _" where
  "cache_of q = (tbs q, tb_phys_hash q, l1_map q, tb_jmp_cache q, nb_tbs q, code_gen_ptr q)"

lemma tb_shape_cache: "cache_of q' = cache_of q \<Longrightarrow> tb_shape q' H P J L = tb_shape q H P J L"
  by (simp add: cache_of_def tb_shape_def hash_shape_def page_shape_def jmp_shape_def page_find_def)

text \<open>What is known of the running block: it is live or can be unlinked without effect.\<close>

definition current_ok :: "'a tb_ctx_scheme \<Rightarrow> nat set \<Rightarrow> bool" where
  "current_ok q L \<longleftrightarrow> (\<forall>c. current_tb q = Some c \<longrightarrow> unlinkable q L c \<and> c < nb_tbs q)"

definition same_blocks :: "'a tb_ctx_scheme \<Rightarrow> 'a tb_ctx_scheme \<Rightarrow> bool" where
  "same_blocks q q' \<longleftrightarrow> nb_tbs q' = nb_tbs q \<and> code_gen_ptr q' = code_gen_ptr q \<and>
     (\<forall>u. ident (tbs q' u) = ident (tbs q u))"

lemma same_blocks_trans: "same_blocks q q' \<Longrightarrow> same_blocks q' q'' \<Longrightarrow> same_blocks q q''"
  by (simp add: same_blocks_def)

lemma same_blocks_relinked: "relinked q q' \<Longrightarrow> same_blocks q q'"
  by (simp add: same_blocks_def relinked_cpu(6-8))

lemma same_blocks_cache: "cache_of p = cache_of q \<Longrightarrow> cache_of p' = cache_of q' \<Longrightarrow> same_blocks p p' = same_blocks q q'"
  by (simp add: same_blocks_def cache_of_def)

lemma jmps_only_shape:
  assumes "tb_shape q H P J L" "jmps_only q q'" "jmp_shape q' J' L"
  shows "tb_shape q' H P J' L"
proof -
  note b = jmps_only_block [OF assms(2)] and r = jmps_only_rest [OF assms(2)]
  have "hash_shape q' H L" by (rule hash_shape_frame [of q]) (use assms(1) in \<open>simp_all add: tb_shape_def b r\<close>)
  moreover have "page_shape q' P L" by (rule page_shape_frame [of q]) (use assms(1) in \<open>simp_all add: tb_shape_def b r\<close>)
  ultimately show ?thesis using assms(1,3) ident_cong(3) [OF b(5)] by (simp add: tb_shape_def b(1) r)
qed

lemma cpu_interrupt_shape:
  assumes S: "tb_shape q H P J L" and c: "current_ok q L"
  obtains q' J' where "cpu_interrupt_tb m q = Some q'" "tb_shape q' H P J' L" "same_blocks q q'" "current_ok q' L"
    "cuts {} q J q' J'"
proof -
  define q1 where "q1 = q\<lparr>interrupt_request := interrupt_request q OR m\<rparr>"
  have c1: "cache_of q1 = cache_of q" "current_tb q1 = current_tb q" "tbs q1 = tbs q" "nb_tbs q1 = nb_tbs q"
    by (simp_all add: q1_def cache_of_def)
  have ok1: "current_ok q1 L" using c by (simp add: current_ok_def unlinkable_def c1)
  consider "current_tb q1 = None \<or> interrupt_lock q1" | t where "current_tb q1 = Some t" "\<not> interrupt_lock q1"
    by (cases "current_tb q1") blast+
  then show ?thesis
  proof cases
    case 1
    then have "cpu_interrupt_tb m q = Some q1" by (auto simp: cpu_interrupt_tb_def q1_def Let_def split: option.split)
    then show ?thesis using that [of q1 J] S tb_shape_cache [OF c1(1)] ok1
      by (simp add: same_blocks_cache [OF refl c1(1)] cuts_tbs [OF refl c1(3)]) (simp add: same_blocks_def)
  next
    case 2
    define q2 where "q2 = q1\<lparr>interrupt_lock := True, current_tb := None\<rparr>"
    have c2: "cache_of q2 = cache_of q" "tbs q2 = tbs q" using c1 by (simp_all add: q2_def cache_of_def)
    have S2: "tb_shape q2 H P J L" using S tb_shape_cache [OF c2(1)] by simp
    have "unlinkable q2 L t" using ok1 2 c1 c2 by (simp add: current_ok_def unlinkable_def)
    then obtain q3 J3 where q3: "tb_reset_jump_recursive t q2 = Some q3" "jmps_only q2 q3" "outside L q2 q3" "jmp_shape q3 J3 L"
      "cuts {} q2 J q3 J3"
      by (rule reset_jump_recursive_shape [of q2 J L t, rotated 2]) (use S2 in \<open>auto simp: tb_shape_def\<close>)
    define q4 where "q4 = q3\<lparr>interrupt_lock := False\<rparr>"
    have "cache_of q4 = cache_of q3" by (simp add: q4_def cache_of_def)
    then have "tb_shape q4 H P J3 L" using jmps_only_shape [OF S2 q3(2,4)] tb_shape_cache by blast
    moreover have "cpu_interrupt_tb m q = Some q4"
      using 2 q3(1) by (simp add: cpu_interrupt_tb_def q1_def [symmetric] q2_def q4_def Let_def)
    moreover have "same_blocks q q4"
      using same_blocks_relinked [OF relinked_jmps [OF q3(2)]] same_blocks_cache [OF c2(1) \<open>cache_of q4 = cache_of q3\<close> [symmetric]]
      by simp
    moreover have "current_ok q4 L"
      using relinked_cpu(1) [OF relinked_jmps [OF q3(2)]] by (simp add: current_ok_def q4_def q2_def)
    moreover have "cuts {} q J q4 J3" using q3(5) cuts_tbs [OF c2(2), of q3 q4] by (simp add: q4_def)
    ultimately show ?thesis using that by blast
  qed
qed

lemma invalidate_one_shape:
  assumes S: "tb_shape q H P J L" and t: "t \<in> L" and c: "current_ok q L"
  obtains q' J' where "invalidate_one t q = Some q'" "same_blocks q q'" "current_ok q' (L - {t})" "cuts {t} q J q' J'"
    "tb_shape q' (\<lambda>h. filter (\<lambda>u. u \<noteq> t) (H h)) (\<lambda>i. filter (\<lambda>r. fst r \<noteq> t) (P i)) J' (L - {t})"
proof -
  let ?H = "\<lambda>h. filter (\<lambda>u. u \<noteq> t) (H h)" and ?P = "\<lambda>i. filter (\<lambda>r. fst r \<noteq> t) (P i)"
  define q1 where "q1 = (if in_cpu_exec q then q\<lparr>current_tb := None\<rparr> else q)"
  have c1: "cache_of q1 = cache_of q" "tbs q1 = tbs q" "in_cpu_exec q1 = in_cpu_exec q" by (simp_all add: q1_def cache_of_def)
  obtain q2 J2 where q2: "tb_phys_invalidate t (-1) q1 = Some q2" "relinked q1 q2" "tb_shape q2 ?H ?P J2 (L - {t})"
    "outside L q1 q2" "\<And>n. n < 2 \<Longrightarrow> jmp_nxt q2 (t, n) = None" "cuts {t} q1 J q2 J2"
  proof -
    have "tb_shape q1 H P J L" using S tb_shape_cache [OF c1(1)] by simp
    from tb_phys_invalidate_shape [OF this t] that show ?thesis .
  qed
  define q3 where "q3 = (if in_cpu_exec q then q2\<lparr>current_tb := current_tb q\<rparr> else q2)"
  have c3: "cache_of q3 = cache_of q2" "tbs q3 = tbs q2" by (simp_all add: q3_def cache_of_def)
  have cur: "current_tb q3 = current_tb q" "in_cpu_exec q2 = in_cpu_exec q"
    using relinked_cpu(1,2) [OF q2(2)] by (simp_all add: q3_def q1_def)
  have S3: "tb_shape q3 ?H ?P J2 (L - {t})" using q2(3) tb_shape_cache [OF c3(1)] by simp
  have ok3: "current_ok q3 (L - {t})"
    unfolding current_ok_def unlinkable_def
  proof (intro allI impI conjI)
    fix d assume d: "current_tb q3 = Some d"
    have "nb_tbs q3 = nb_tbs q" using relinked_cpu(6) [OF q2(2)] by (simp add: q3_def q1_def)
    then show "d < nb_tbs q3" using c cur(1) d by (simp add: current_ok_def)
  next
    fix d assume "current_tb q3 = Some d"
    then have "d \<in> L \<or> (\<forall>n<2. jmp_nxt q (d, n) = None)" using c cur by (simp add: current_ok_def unlinkable_def)
    then show "d \<in> L - {t} \<or> (\<forall>n<2. jmp_nxt q3 (d, n) = None)"
      using q2(4,5) t c1(2) c3(2) by (auto simp: outside_def)
  qed
  have cut3: "cuts {t} q J q3 J2" using q2(6) cuts_tbs [OF c1(2) c3(2) [symmetric]] by simp
  have same3: "same_blocks q q3"
    using same_blocks_relinked [OF q2(2)] same_blocks_cache [OF c1(1) c3(1) [symmetric]] by simp
  have step: "invalidate_one t q = (if in_cpu_exec q \<and> interrupt_request q3 \<noteq> 0 \<and> current_tb q3 \<noteq> None
      then cpu_interrupt_tb (interrupt_request q3) q3 else Some q3)"
    using q2(1) cur(2) by (simp add: invalidate_one_def q1_def [symmetric] q3_def Let_def)
  show ?thesis
  proof (cases "in_cpu_exec q \<and> interrupt_request q3 \<noteq> 0 \<and> current_tb q3 \<noteq> None")
    case True
    obtain q4 J4 where "cpu_interrupt_tb (interrupt_request q3) q3 = Some q4" "tb_shape q4 ?H ?P J4 (L - {t})"
      "same_blocks q3 q4" "current_ok q4 (L - {t})" "cuts {} q3 J2 q4 J4"
      by (rule cpu_interrupt_shape [OF S3 ok3])
    moreover from this(5) have "cuts {t} q J q4 J4" by (rule cuts_trans [OF cut3 cuts_mono]) simp
    ultimately show ?thesis using that [of q4 J4] step True same_blocks_trans [OF same3] by simp
  next
    case False
    then show ?thesis using that [of q3 J2] step same3 ok3 S3 cut3 by (simp only: if_False)
  qed
qed

text \<open>
  Restoring the CPU state of a block at a host address changes registers of the CPU, not the
  cache.
\<close>

definition restore_ok :: "('a tb_ctx_scheme) trans \<Rightarrow> bool" where
  "restore_ok X \<longleftrightarrow> (\<forall>t a q. cache_of (cpu_restore_state X t a q) = cache_of q \<and>
     current_tb (cpu_restore_state X t a q) = current_tb q)"

lemma smc_update_cache:
  assumes "restore_ok X" "smc_update X t sm q = (sm', q')"
  shows "cache_of q' = cache_of q" "current_tb q' = current_tb q"
  using assms by (auto simp: smc_update_def restore_ok_def Let_def split: if_splits)

text \<open>The write is not known to come from a block.\<close>

definition no_writer :: "smc \<Rightarrow> bool" where
  "no_writer sm \<longleftrightarrow> \<not> not_found sm \<and> \<not> modified sm \<and> current sm = None"

lemma smc_update_no_writer: "smc_update X t sm q = (sm', q') \<Longrightarrow> no_writer sm \<Longrightarrow> no_writer sm'"
  by (auto simp: smc_update_def no_writer_def Let_def split: if_splits)

lemma intersects_same: "ident b' = ident b \<Longrightarrow> intersects s e b' n = intersects s e b n"
  by (simp add: ident_def intersects_def tb_bounds_def)

lemma page_list:
  assumes "tb_shape q H P J L"
  shows "chain (page_nxt q) (page_first q i) (P i) None" "distinct (P i)"
proof -
  have "chains (page_nxt q) (page_first q) (\<lambda>_. None) UNIV P" using assms by (simp add: tb_shape_def page_shape_def)
  then show "chain (page_nxt q) (page_first q i) (P i) None" "distinct (P i)" by (auto dest: chainsD)
qed

lemma page_once:
  assumes "tb_shape q H P J L" "(t, n) \<in> set (P i)" "(t, m) \<in> set (P i)"
  shows "n = m"
proof -
  have "t \<in> L" "on_page (tbs q t) n i" "on_page (tbs q t) m i" "pages_ok (tbs q t)"
    using assms by (auto simp: tb_shape_def page_shape_def)
  then show ?thesis
    using page_index_inj [of "page_addr (tbs q t) 0" "page_addr (tbs q t) 1"]
    by (auto simp: on_page_def pages_ok_def less_2_cases_iff)
qed

definition hits :: "u32 \<Rightarrow> u32 \<Rightarrow> 'a tb_ctx_scheme \<Rightarrow> tb_ref list \<Rightarrow> nat set" where
  "hits s e q ys = {t. \<exists>n. (t, n) \<in> set ys \<and> intersects s e (tbs q t) n}"

lemma hits_same:
  assumes "same_blocks q q'"
  shows "hits s e q' ys = hits s e q ys"
proof -
  have "intersects s e (tbs q' t) n = intersects s e (tbs q t) n" for t n
    using assms by (intro intersects_same) (simp add: same_blocks_def)
  then show ?thesis by (simp add: hits_def)
qed

lemma hits_Cons:
  "hits s e q ((t, n) # ys) = (if intersects s e (tbs q t) n then insert t (hits s e q ys) else hits s e q ys)"
  by (auto simp: hits_def)

text \<open>
  The loop visits the rest of the list of a page and invalidates the blocks that intersect.
\<close>

lemma range_loop_shape:
  assumes X: "restore_ok X"
  shows "tb_shape q H P J L \<Longrightarrow> current_ok q L \<Longrightarrow> P i = xs @ ys \<Longrightarrow> chain (page_nxt q) r ys None \<Longrightarrow>
    \<exists>sm' q' H' P' J'. range_loop X s e r sm q = Some (sm', q') \<and> same_blocks q q' \<and>
      tb_shape q' H' P' J' (L - hits s e q ys) \<and> current_ok q' (L - hits s e q ys) \<and>
      (no_writer sm \<longrightarrow> no_writer sm') \<and> cuts (hits s e q ys) q J q' J'"
proof (induction ys arbitrary: q H P J L r sm xs)
  case Nil
  then have "range_loop X s e r sm q = Some (sm, q)" by (subst range_loop.simps) simp
  then show ?case using Nil by (intro exI [of _ sm] exI [of _ q] exI [of _ H] exI [of _ P] exI [of _ J])
      (simp add: hits_def same_blocks_def)
next
  case (Cons y ys)
  obtain t n where y: "y = (t, n)" by fastforce
  have r: "r = Some (t, n)" and rest: "chain (page_nxt q) (page_nxt q (t, n)) ys None"
    using Cons.prems(4) y by simp_all
  show ?case
  proof (cases "intersects s e (tbs q t) n")
    case False
    then have "range_loop X s e r sm q = range_loop X s e (page_nxt q (t, n)) sm q"
      by (subst range_loop.simps) (simp add: r)
    moreover have "hits s e q (y # ys) = hits s e q ys" using False by (simp add: y hits_Cons)
    moreover have "P i = (xs @ [y]) @ ys" using Cons.prems(3) by simp
    ultimately show ?thesis using Cons.IH [OF Cons.prems(1,2) _ rest] by metis
  next
    case True
    obtain sm1 q1 where up: "smc_update X t sm q = (sm1, q1)" by fastforce
    note c1 = smc_update_cache [OF X up]
    have t1: "tbs q1 = tbs q" "nb_tbs q1 = nb_tbs q" using c1(1) by (simp_all add: cache_of_def)
    have S1: "tb_shape q1 H P J L" using Cons.prems(1) tb_shape_cache [OF c1(1)] by simp
    have ok1: "current_ok q1 L" using Cons.prems(2) c1(2) t1 by (simp add: current_ok_def unlinkable_def)
    have m: "(t, n) \<in> set (P i)" using Cons.prems(3) y by simp
    have t: "t \<in> L" using S1 m by (auto simp: tb_shape_def page_shape_def)
    obtain q2 J2 where q2: "invalidate_one t q1 = Some q2" "same_blocks q1 q2" "current_ok q2 (L - {t})" "cuts {t} q1 J q2 J2"
      "tb_shape q2 (\<lambda>h. filter (\<lambda>u. u \<noteq> t) (H h)) (\<lambda>i. filter (\<lambda>r. fst r \<noteq> t) (P i)) J2 (L - {t})"
      by (rule invalidate_one_shape [OF S1 t ok1])
    have d: "distinct (xs @ (t, n) # ys)"
      using page_list(2) [OF S1, of i] Cons.prems(3) y by simp
    have other: "fst z \<noteq> t" if "z \<in> set (xs @ ys)" for z
      using page_once [OF S1 m, of "snd z"] that Cons.prems(3) y d by (cases z) auto
    have P2: "filter (\<lambda>r. fst r \<noteq> t) (P i) = xs @ ys"
      using other Cons.prems(3) y by (simp add: filter_id_conv)
    have "chain (page_nxt q2) (page_first q2 i) (xs @ ys) None"
      using page_list(1) [OF q2(5), of i] P2 by simp
    then have "chain (page_nxt q2) (page_nxt q (t, n)) ys None"
      using chain_mid [of "page_nxt q2" _ xs ys None] chain_start [OF rest] by simp
    from Cons.IH [OF q2(5,3) P2 this, of sm1] obtain sm' q' H' P' J' where q':
      "range_loop X s e (page_nxt q (t, n)) sm1 q2 = Some (sm', q')" "same_blocks q2 q'"
      "tb_shape q' H' P' J' (L - {t} - hits s e q2 ys)" "current_ok q' (L - {t} - hits s e q2 ys)"
      "no_writer sm1 \<longrightarrow> no_writer sm'" "cuts (hits s e q2 ys) q2 J2 q' J'" by blast
    have sb: "same_blocks q q2" using q2(2) same_blocks_cache [OF c1(1) refl] by simp
    have sub: "{t} \<subseteq> hits s e q (y # ys)" "hits s e q2 ys \<subseteq> hits s e q (y # ys)"
      using hits_same [OF sb] True by (auto simp: y hits_Cons)
    have "cuts {t} q J q2 J2" using q2(4) cuts_tbs [OF t1(1) refl] by simp
    from cuts_trans [OF cuts_mono [OF this sub(1)] cuts_mono [OF q'(6) sub(2)]]
    have "cuts (hits s e q (y # ys)) q J q' J'" .
    moreover have "L - {t} - hits s e q2 ys = L - hits s e q (y # ys)"
      using hits_same [OF sb] True by (auto simp: y hits_Cons)
    moreover have "range_loop X s e r sm q = Some (sm', q')"
      using True up q2(1) q'(1) by (subst range_loop.simps) (simp add: r)
    ultimately show ?thesis using q'(3-5) same_blocks_trans [OF sb q'(2)] smc_update_no_writer [OF up]
      by (intro exI [of _ sm'] exI [of _ q'] exI [of _ H'] exI [of _ P'] exI [of _ J']) simp
  qed
qed

end
