(* ===== verification/TBRange.thy ===== *)
theory TBRange
  imports TBProps
begin

text \<open>
  Which guest bytes a block translates, and that an overwritten range of a page leaves exactly
  the blocks that translate none of its bytes.
\<close>

section \<open>The bytes of a block\<close>

text \<open>
  The physical address of byte \<open>k\<close> of the guest code of a block. A block that goes past the end
  of its first page continues at the start of its second page.
\<close>

definition tb_byte :: "TranslationBlock \<Rightarrow> nat \<Rightarrow> u32" where
  "tb_byte b k =
     (let o0 = unat (offset_bits (tb_pc b)) + k in
      if o0 < TARGET_PAGE_SIZE then page_addr b 0 + of_nat o0
      else page_addr b 1 + of_nat (o0 - TARGET_PAGE_SIZE))"

definition tb_covers :: "TranslationBlock \<Rightarrow> u32 \<Rightarrow> bool" where
  "tb_covers b a \<longleftrightarrow> a \<in> tb_byte b ` {0..<unat (tb_size b)}"

text \<open>
  A block as the translator makes it: at most a page of code, a second page if and only if the
  code goes past the first, and no page at the very end of the address space.
\<close>

definition block_ok :: "TranslationBlock \<Rightarrow> bool" where
  "block_ok b \<longleftrightarrow> pages_ok b \<and> 0 < tb_size b \<and> unat (tb_size b) \<le> TARGET_PAGE_SIZE \<and>
     (page_addr b 1 = -1 \<longleftrightarrow> unat (offset_bits (tb_pc b)) + unat (tb_size b) \<le> TARGET_PAGE_SIZE) \<and>
     (\<forall>n<2. page_addr b n = -1 \<or> page_addr b n < TARGET_PAGE_MASK)"

abbreviation code_end :: "TranslationBlock \<Rightarrow> nat" where
  "code_end b \<equiv> unat (offset_bits (tb_pc b)) + unat (tb_size b)"

lemma page_start: "offset_bits a = 0 \<Longrightarrow> 4096 dvd unat a"
  using unat_offset [of a] by (simp add: dvd_eq_mod_eq_0)

lemma block_pages:
  assumes "block_ok b"
  shows "4096 dvd unat (page_addr b 0)" "unat (page_addr b 0) + 8192 \<le> 2 ^ 32"
    "page_addr b 1 \<noteq> -1 \<Longrightarrow> 4096 dvd unat (page_addr b 1)"
    "page_addr b 1 \<noteq> -1 \<Longrightarrow> unat (page_addr b 1) + 8192 \<le> 2 ^ 32"
proof -
  have lim: "unat a + 8192 \<le> 2 ^ 32" if lt: "a < TARGET_PAGE_MASK" and dv: "4096 dvd unat a" for a :: u32
  proof -
    obtain k where k: "unat a = 4096 * k" using dv by blast
    have "unat a < 4294963200" using lt by (simp add: word_less_nat_alt)
    then have "k < 1048575" using k by simp
    then show ?thesis using k by simp
  qed
  have a: "offset_bits (page_addr b 0) = 0" "page_addr b 1 \<noteq> -1 \<Longrightarrow> offset_bits (page_addr b 1) = 0"
    "page_addr b 0 = -1 \<or> page_addr b 0 < TARGET_PAGE_MASK" "page_addr b 1 = -1 \<or> page_addr b 1 < TARGET_PAGE_MASK"
    using assms by (auto simp: block_ok_def pages_ok_def less_2_cases_iff)
  show d: "4096 dvd unat (page_addr b 0)" "page_addr b 1 \<noteq> -1 \<Longrightarrow> 4096 dvd unat (page_addr b 1)"
    using a page_start by blast+
  show "unat (page_addr b 0) + 8192 \<le> 2 ^ 32" using lim [OF _ d(1)] a(1,3) by force
  show "page_addr b 1 \<noteq> -1 \<Longrightarrow> unat (page_addr b 1) + 8192 \<le> 2 ^ 32" using lim [OF _ d(2)] a(4) by blast
qed

lemma unat_plus_small: "unat (a :: u32) + 8192 \<le> 2 ^ 32 \<Longrightarrow> k < 8192 \<Longrightarrow> unat (a + of_nat k) = unat a + k"
  by (simp add: unat_add_no_wrap32 unat_of_nat)

lemma unat_ucast_16: "unat (ucast (w :: u16) :: u32) = unat w"
proof -
  have "unat w < 65536" using unsigned_less [of w] by simp
  then show ?thesis by (simp add: unsigned_ucast_eq take_bit_nat_eq_self)
qed

lemma covers_nat:
  assumes b: "block_ok b"
  shows "tb_covers b a \<longleftrightarrow>
    unat (page_addr b 0) + unat (offset_bits (tb_pc b)) \<le> unat a \<and>
      unat a < unat (page_addr b 0) + min TARGET_PAGE_SIZE (code_end b) \<or>
    page_addr b 1 \<noteq> -1 \<and> unat (page_addr b 1) \<le> unat a \<and>
      unat a < unat (page_addr b 1) + (code_end b - TARGET_PAGE_SIZE)"
    (is "_ \<longleftrightarrow> ?first \<or> ?second")
proof -
  let ?o = "unat (offset_bits (tb_pc b))" and ?s = "unat (tb_size b)"
  note p = block_pages [OF b]
  have o: "?o < 4096" using offset_less [of "tb_pc b"] by simp
  have s: "?s \<le> 4096" "page_addr b 1 = -1 \<longleftrightarrow> ?o + ?s \<le> 4096" using b by (simp_all add: block_ok_def)
  have lo: "unat (tb_byte b k) = unat (page_addr b 0) + (?o + k)" if "?o + k < 4096" for k
    using that p(2) unat_plus_small [of "page_addr b 0" "?o + k"] by (simp add: tb_byte_def Let_def)
  have hi: "unat (tb_byte b k) = unat (page_addr b 1) + (?o + k - 4096)" "page_addr b 1 \<noteq> -1"
    if "\<not> ?o + k < 4096" "k < ?s" for k
  proof -
    show n: "page_addr b 1 \<noteq> -1" using s that by linarith
    show "unat (tb_byte b k) = unat (page_addr b 1) + (?o + k - 4096)"
    proof -
      have "?o + k - 4096 < 8192" using that(2) o s(1) by linarith
      from unat_plus_small [OF p(4) [OF n] this] show ?thesis using that(1) by (simp add: tb_byte_def Let_def)
    qed
  qed
  have cov: "tb_covers b a \<longleftrightarrow> (\<exists>k<?s. unat (tb_byte b k) = unat a)"
    by (auto simp: tb_covers_def)
  show ?thesis
  proof
    assume "tb_covers b a"
    then obtain k where k: "k < ?s" "unat (tb_byte b k) = unat a" using cov by blast
    show "?first \<or> ?second"
    proof (cases "?o + k < 4096")
      case True
      then show ?thesis using lo [OF True] k by (intro disjI1) simp
    next
      case False
      then show ?thesis using hi [OF False k(1)] k by (intro disjI2 conjI; linarith)
    qed
  next
    assume "?first \<or> ?second"
    then show "tb_covers b a"
    proof
      assume f: ?first
      let ?k = "unat a - unat (page_addr b 0) - ?o"
      show ?thesis unfolding cov using f lo [of ?k] by (intro exI [of _ ?k]) auto
    next
      assume f: ?second
      let ?k = "unat a - unat (page_addr b 1) + 4096 - ?o"
      show ?thesis unfolding cov using f hi [of ?k] o by (intro exI [of _ ?k]) auto
    qed
  qed
qed

lemma bounds_nat:
  assumes b: "block_ok b"
  shows "map_prod unat unat (tb_bounds b 0) =
      (unat (page_addr b 0) + unat (offset_bits (tb_pc b)), unat (page_addr b 0) + code_end b)"
    and "page_addr b 1 \<noteq> -1 \<Longrightarrow> map_prod unat unat (tb_bounds b 1) =
      (unat (page_addr b 1), unat (page_addr b 1) + (code_end b - TARGET_PAGE_SIZE))"
proof -
  let ?o = "unat (offset_bits (tb_pc b))" and ?s = "unat (tb_size b)"
  note p = block_pages [OF b]
  have o: "?o < 4096" using offset_less [of "tb_pc b"] by simp
  have s: "?s \<le> 4096" "page_addr b 1 = -1 \<longleftrightarrow> ?o + ?s \<le> 4096" using b by (simp_all add: block_ok_def)
  have us: "unat (ucast (tb_size b) :: u32) = ?s" by (rule unat_ucast_16)
  have st: "unat (page_addr b 0 + offset_bits (tb_pc b)) = unat (page_addr b 0) + ?o"
    using p(2) o by (simp add: unat_add_no_wrap32)
  moreover have "unat (page_addr b 0 + offset_bits (tb_pc b) + ucast (tb_size b)) = unat (page_addr b 0) + (?o + ?s)"
    using p(2) o s us by (subst unat_add_no_wrap32) (simp_all add: st)
  ultimately show "map_prod unat unat (tb_bounds b 0) = (unat (page_addr b 0) + ?o, unat (page_addr b 0) + code_end b)"
    by (simp add: tb_bounds_def Let_def)
  assume n: "page_addr b 1 \<noteq> -1"
  have "unat (tb_pc b + ucast (tb_size b)) mod 4096 = (unat (tb_pc b) + ?s) mod 4096"
    by (simp add: unat_word_ariths us mod_mod_cancel)
  also have "\<dots> = (?o + ?s) mod 4096" by (simp add: unat_offset mod_add_left_eq)
  also have "\<dots> = ?o + ?s - 4096" using o s n by (simp add: mod_if)
  finally have off: "unat (offset_bits (tb_pc b + ucast (tb_size b))) = ?o + ?s - 4096" by (simp only: unat_offset)
  have "unat (page_addr b 1 + offset_bits (tb_pc b + ucast (tb_size b))) = unat (page_addr b 1) + (?o + ?s - 4096)"
    using p(4) [OF n] o s off by (subst unat_add_no_wrap32) simp_all
  then show "map_prod unat unat (tb_bounds b 1) = (unat (page_addr b 1), unat (page_addr b 1) + (code_end b - 4096))"
    by (simp add: tb_bounds_def)
qed

section \<open>A range of a page\<close>

definition page_range :: "u32 \<Rightarrow> u32 \<Rightarrow> bool" where
  "page_range s e \<longleftrightarrow> s < e \<and> unat (offset_bits s) + (unat e - unat s) \<le> TARGET_PAGE_SIZE"

text \<open>
  The test of the loop is exact: a block on the list of the page intersects the range if and only
  if it translates a byte of the range.
\<close>

lemma same_page_nat: "4096 dvd unat p \<Longrightarrow> drop_bit 12 p = drop_bit 12 (s :: u32) \<longleftrightarrow> unat p = unat s - unat s mod 4096"
proof -
  assume d: "4096 dvd unat p"
  have "drop_bit 12 p = drop_bit 12 s \<longleftrightarrow> unat (drop_bit 12 p) = unat (drop_bit 12 s)" by simp
  also have "\<dots> \<longleftrightarrow> unat p div 4096 = unat s div 4096" by (simp only: unat_page)
  also have "\<dots> \<longleftrightarrow> unat p = unat s - unat s mod 4096"
    using d by (auto simp: minus_mod_eq_mult_div elim!: dvdE)
  finally show ?thesis .
qed

lemma intersects_nat:
  "map_prod unat unat (tb_bounds b n) = (x, y) \<Longrightarrow> intersects s e b n \<longleftrightarrow> unat s < y \<and> x < unat e"
  by (cases "tb_bounds b n") (auto simp: intersects_def word_le_nat_alt)

lemma window_meets:
  fixes S E p x y :: nat
  assumes "S < E" "S mod 4096 + (E - S) \<le> 4096" "4096 dvd p" "p \<le> x" "x < p + 4096" "x < y"
  shows "(\<exists>z. S \<le> z \<and> z < E \<and> x \<le> z \<and> z < min (p + 4096) y) \<longleftrightarrow> p = S - S mod 4096 \<and> S < y \<and> x < E"
proof
  have m: "4096 dvd S - S mod 4096" "S mod 4096 \<le> S" by (simp_all add: dvd_minus_mod)
  assume "\<exists>z. S \<le> z \<and> z < E \<and> x \<le> z \<and> z < min (p + 4096) y"
  then obtain z where z: "S \<le> z" "z < E" "x \<le> z" "z < p + 4096" "z < y" by auto
  obtain k where k: "S - S mod 4096 = 4096 * k" using m(1) by (rule dvdE)
  obtain j where j: "p = 4096 * j" using assms(3) by (rule dvdE)
  have "k < j + 1" "j < k + 1" using z assms k j m(2) by linarith+
  then have "p = S - S mod 4096" using k j by simp
  then show "p = S - S mod 4096 \<and> S < y \<and> x < E" using z by linarith
next
  have m: "S mod 4096 \<le> S" "S mod 4096 < 4096" by simp_all
  assume "p = S - S mod 4096 \<and> S < y \<and> x < E"
  then show "\<exists>z. S \<le> z \<and> z < E \<and> x \<le> z \<and> z < min (p + 4096) y"
    using assms m by (intro exI [of _ "max S x"]) auto
qed

lemma range_nat:
  assumes "page_range s e"
  shows "unat s < unat e" "unat s mod 4096 + (unat e - unat s) \<le> 4096"
  using assms unat_offset [of s] unfolding page_range_def word_less_nat_alt by auto

text \<open>The two parts of a block, each inside one page.\<close>

lemma part_meets:
  assumes b: "block_ok b" and r: "page_range s e" and n: "n < 2" "n = 1 \<Longrightarrow> page_addr b 1 \<noteq> -1"
  shows "(\<exists>z. unat s \<le> z \<and> z < unat e \<and> fst (map_prod unat unat (tb_bounds b n)) \<le> z \<and>
      z < min (unat (page_addr b n) + 4096) (snd (map_prod unat unat (tb_bounds b n)))) \<longleftrightarrow>
    on_page b n (drop_bit 12 s) \<and> intersects s e b n"
proof -
  note p = block_pages [OF b]
  have d: "4096 dvd unat (page_addr b n)" using p(1,3) n by (auto simp: less_2_cases_iff)
  obtain x y where xy: "map_prod unat unat (tb_bounds b n) = (x, y)" by fastforce
  have o: "unat (offset_bits (tb_pc b)) < 4096" using offset_less [of "tb_pc b"] by simp
  have z: "0 < unat (tb_size b)" "page_addr b 1 \<noteq> -1 \<Longrightarrow> 4096 < code_end b"
    using b by (simp_all add: block_ok_def word_less_nat_alt)
  have "unat (page_addr b n) \<le> x" "x < unat (page_addr b n) + 4096" "x < y"
  proof -
    consider "n = 0" | "n = 1" "page_addr b 1 \<noteq> -1" using n by (auto simp: less_2_cases_iff)
    then have "unat (page_addr b n) \<le> x \<and> x < unat (page_addr b n) + 4096 \<and> x < y"
    proof cases
      case 1
      then show ?thesis using bounds_nat(1) [OF b] xy o z(1) by auto
    next
      case 2
      then show ?thesis using bounds_nat(2) [OF b 2(2)] xy z(2) by auto
    qed
    then show "unat (page_addr b n) \<le> x" "x < unat (page_addr b n) + 4096" "x < y" by simp_all
  qed
  note w = window_meets [OF range_nat [OF r] d this]
  have "on_page b n (drop_bit 12 s) \<longleftrightarrow> unat (page_addr b n) = unat s - unat s mod 4096"
    using same_page_nat [OF d, of s] n by (auto simp: on_page_def)
  then show ?thesis using w intersects_nat [OF xy] unfolding xy fst_conv snd_conv by presburger
qed

lemma covers_range:
  assumes b: "block_ok b" and r: "page_range s e"
  shows "(\<exists>a. s \<le> a \<and> a < e \<and> tb_covers b a) \<longleftrightarrow> (\<exists>n. on_page b n (drop_bit 12 s) \<and> intersects s e b n)"
proof -
  let ?o = "unat (offset_bits (tb_pc b))" and ?A = "unat (page_addr b 0)" and ?B = "unat (page_addr b 1)"
  have ex: "(\<exists>a. s \<le> a \<and> a < e \<and> unat a \<in> K) \<longleftrightarrow> (\<exists>x\<in>K. unat s \<le> x \<and> x < unat e)" for K
  proof
    assume "\<exists>x\<in>K. unat s \<le> x \<and> x < unat e"
    then obtain x where x: "x \<in> K" "unat s \<le> x" "x < unat e" by blast
    have "unat (of_nat x :: u32) = x" using x(3) unat_less_pow32 [of e] by (simp add: unat_of_nat)
    then show "\<exists>a. s \<le> a \<and> a < e \<and> unat a \<in> K"
      using x by (intro exI [of _ "of_nat x"]) (simp add: word_le_nat_alt word_less_nat_alt)
  qed (auto simp: word_le_nat_alt word_less_nat_alt)
  have "unat (tb_size b) \<le> 4096" using b by (simp add: block_ok_def)
  then have c: "code_end b - 4096 \<le> 4096" using offset_less [of "tb_pc b"] by linarith
  define K1 where "K1 = {x. ?A + ?o \<le> x \<and> x < min (?A + 4096) (?A + code_end b)}"
  define K2 where "K2 = {x. ?B \<le> x \<and> x < min (?B + 4096) (?B + (code_end b - 4096))}"
  have cov: "tb_covers b a \<longleftrightarrow> unat a \<in> K1 \<or> page_addr b 1 \<noteq> -1 \<and> unat a \<in> K2" for a
    unfolding covers_nat [OF b] K1_def K2_def using c by auto
  have "(\<exists>a. s \<le> a \<and> a < e \<and> tb_covers b a) \<longleftrightarrow>
      (\<exists>x\<in>K1. unat s \<le> x \<and> x < unat e) \<or> page_addr b 1 \<noteq> -1 \<and> (\<exists>x\<in>K2. unat s \<le> x \<and> x < unat e)"
    unfolding cov using ex [of K1] ex [of K2] by blast
  also have "(\<exists>x\<in>K1. unat s \<le> x \<and> x < unat e) \<longleftrightarrow> on_page b 0 (drop_bit 12 s) \<and> intersects s e b 0"
  proof -
    have "(0 :: nat) < 2" "(0 :: nat) = 1 \<Longrightarrow> page_addr b 1 \<noteq> -1" by simp_all
    from part_meets [OF b r this] show ?thesis
      unfolding K1_def bounds_nat(1) [OF b] fst_conv snd_conv by blast
  qed
  also have "page_addr b 1 \<noteq> -1 \<and> (\<exists>x\<in>K2. unat s \<le> x \<and> x < unat e) \<longleftrightarrow>
      on_page b 1 (drop_bit 12 s) \<and> intersects s e b 1"
  proof (cases "page_addr b 1 = -1")
    case False
    have "(1 :: nat) < 2" by simp
    from part_meets [OF b r this] False show ?thesis
      unfolding K2_def bounds_nat(2) [OF b False] fst_conv snd_conv by blast
  qed (simp add: on_page_def)
  also have "on_page b 0 (drop_bit 12 s) \<and> intersects s e b 0 \<or> on_page b 1 (drop_bit 12 s) \<and> intersects s e b 1 \<longleftrightarrow>
      (\<exists>n. on_page b n (drop_bit 12 s) \<and> intersects s e b n)"
    by (auto simp: on_page_def less_2_cases_iff)
  finally show ?thesis .
qed

end
