(* ===== verification/TBBitmap.thy ===== *)
theory TBBitmap
  imports TBRange
begin

text \<open>
  The bitmap of code bytes: setting a range of bits is correct, the bitmap that is built for a
  page marks exactly the code on it, and the operations of the cache never leave a bitmap that
  misses a byte of a live block.
\<close>

section \<open>Setting a range of bits\<close>

definition tab_bit :: "u8 list \<Rightarrow> nat \<Rightarrow> bool" where
  "tab_bit tab k \<longleftrightarrow> bit (tab ! (k div 8)) (k mod 8)"

lemma or_byte_bit:
  assumes "k < 8 * length tab"
  shows "tab_bit (or_byte i m tab) k \<longleftrightarrow> tab_bit tab k \<or> k div 8 = i \<and> bit m (k mod 8)"
proof -
  have "k div 8 < length tab" using assms by (simp add: less_mult_imp_div_less mult.commute)
  then show ?thesis by (cases "k div 8 = i") (auto simp: tab_bit_def or_byte_def bit_or_iff)
qed

lemma length_or_byte [simp]: "length (or_byte i m tab) = length tab"
  by (simp add: or_byte_def)

lemma fill_bytes_spec:
  "fill_bytes i (8 * i) (8 * e) tab = (max i e, 8 * max i e, map (\<lambda>j. if i \<le> j \<and> j < e then 0xff else tab ! j) [0..<length tab])"
proof (induction "e - i" arbitrary: i tab)
  case 0
  then have "map (\<lambda>j. if i \<le> j \<and> j < e then 0xff else tab ! j) [0..<length tab] = tab" by (intro nth_equalityI) auto
  then show ?case using 0 by (subst fill_bytes.simps) simp
next
  case (Suc n)
  then have lt: "i < e" by simp
  have "fill_bytes i (8 * i) (8 * e) tab = fill_bytes (i + 1) (8 * (i + 1)) (8 * e) (tab[i := 0xff])"
    using lt by (subst fill_bytes.simps) (simp add: algebra_simps)
  also have "\<dots> = (max (i + 1) e, 8 * max (i + 1) e,
      map (\<lambda>j. if i + 1 \<le> j \<and> j < e then 0xff else tab[i := 0xff] ! j) [0..<length (tab[i := 0xff])])"
    using Suc.hyps(2) by (intro Suc.hyps(1)) simp
  also have "map (\<lambda>j. if i + 1 \<le> j \<and> j < e then 0xff else tab[i := 0xff] ! j) [0..<length (tab[i := 0xff])] =
      map (\<lambda>j. if i \<le> j \<and> j < e then 0xff else tab ! j) [0..<length tab]"
    using lt by (intro nth_equalityI) (auto simp: nth_list_update)
  finally show ?case using lt by (simp add: max_def)
qed

lemma high_mask: "n < 8 \<Longrightarrow> bit (push_bit a (0xff :: u8)) n \<longleftrightarrow> a \<le> n"
proof -
  have ff: "(0xff :: u8) = mask 8" by (simp add: mask_eq_exp_minus_1)
  show "n < 8 \<Longrightarrow> ?thesis" unfolding ff by (auto simp: bit_simps)
qed

lemma high_mask_not: "n < 8 \<Longrightarrow> bit (NOT (push_bit a (0xff :: u8))) n \<longleftrightarrow> n < a"
  using high_mask [of n a] by (auto simp: bit_not_iff)

lemma byte_order:
  fixes k a :: nat
  shows "a \<le> k \<longleftrightarrow> a div 8 < k div 8 \<or> a div 8 = k div 8 \<and> a mod 8 \<le> k mod 8"
    "k < a \<longleftrightarrow> k div 8 < a div 8 \<or> k div 8 = a div 8 \<and> k mod 8 < a mod 8"
proof -
  have "k = 8 * (k div 8) + k mod 8" "a = 8 * (a div 8) + a mod 8" "k mod 8 < 8" "a mod 8 < 8" by simp_all
  then show "a \<le> k \<longleftrightarrow> a div 8 < k div 8 \<or> a div 8 = k div 8 \<and> a mod 8 \<le> k mod 8"
    "k < a \<longleftrightarrow> k div 8 < a div 8 \<or> k div 8 = a div 8 \<and> k mod 8 < a mod 8" by linarith+
qed

lemma set_bits_bit:
  assumes "start + len \<le> 8 * length tab" and k: "k < 8 * length tab"
  shows "tab_bit (set_bits tab start len) k \<longleftrightarrow> tab_bit tab k \<or> start \<le> k \<and> k < start + len"
    and "length (set_bits tab start len) = length tab"
proof -
  let ?e = "start + len" and ?m = "push_bit (start mod 8) (0xff :: u8)"
  have k8: "k mod 8 < 8" by simp
  have kd: "k div 8 < length tab" using k by (simp add: less_mult_imp_div_less mult.commute)
  have "(tab_bit (set_bits tab start len) k \<longleftrightarrow> tab_bit tab k \<or> start \<le> k \<and> k < ?e) \<and>
    length (set_bits tab start len) = length tab"
  proof (cases "start div 8 = ?e div 8")
    case True
    show ?thesis
    proof (cases "start < ?e")
      case lt: True
      have "set_bits tab start len = or_byte (start div 8) (?m AND NOT (push_bit (?e mod 8) 0xff)) tab"
        using True lt by (simp add: set_bits_def Let_def)
      moreover have "k div 8 = start div 8 \<and> start mod 8 \<le> k mod 8 \<and> k mod 8 < ?e mod 8 \<longleftrightarrow> start \<le> k \<and> k < ?e"
        unfolding byte_order [of start k] byte_order [of k ?e] using True by auto
      ultimately show ?thesis using or_byte_bit [OF k] high_mask [OF k8] high_mask_not [OF k8] by (simp add: bit_and_iff)
    qed (use True in \<open>auto simp: set_bits_def Let_def\<close>)
  next
    case False
    then have lt: "start div 8 + 1 \<le> ?e div 8" by (simp add: Suc_le_eq le_neq_implies_less div_le_mono)
    define t1 where "t1 = or_byte (start div 8) ?m tab"
    define t2 where "t2 = map (\<lambda>j. if start div 8 + 1 \<le> j \<and> j < ?e div 8 then 0xff else t1 ! j) [0..<length t1]"
    have len: "length t1 = length tab" "length t2 = length tab" by (simp_all add: t1_def t2_def)
    have s8: "(start + 8) div 8 * 8 = 8 * (start div 8 + 1)" "?e div 8 * 8 = 8 * (?e div 8)"
      using div_add_self2 [of 8 start] by simp_all
    have f: "fill_bytes (start div 8 + 1) ((start + 8) div 8 * 8) (?e div 8 * 8) t1 = (?e div 8, 8 * (?e div 8), t2)"
      unfolding s8 fill_bytes_spec using lt by (simp add: t2_def max_def)
    have sb: "set_bits tab start len =
        (if 8 * (?e div 8) < ?e then or_byte (?e div 8) (NOT (push_bit (?e mod 8) 0xff)) t2 else t2)"
      using False f by (simp add: set_bits_def Let_def t1_def [symmetric] del: fill_bytes.simps)
    have b1: "tab_bit t1 k \<longleftrightarrow> tab_bit tab k \<or> k div 8 = start div 8 \<and> start mod 8 \<le> k mod 8"
      unfolding t1_def using or_byte_bit [OF k] high_mask [OF k8] by simp
    have b2: "tab_bit t2 k \<longleftrightarrow> tab_bit t1 k \<or> start div 8 + 1 \<le> k div 8 \<and> k div 8 < ?e div 8"
    proof -
      have "(0xff :: u8) = mask 8" by (simp add: mask_eq_exp_minus_1)
      then have "bit (0xff :: u8) (k mod 8)" by (simp only: bit_mask_iff) simp
      then show ?thesis using kd len(1) by (auto simp: tab_bit_def t2_def)
    qed
    have b3: "tab_bit (set_bits tab start len) k \<longleftrightarrow> tab_bit t2 k \<or> k div 8 = ?e div 8 \<and> k mod 8 < ?e mod 8"
    proof (cases "8 * (?e div 8) < ?e")
      case True
      have "k < 8 * length t2" using k len by simp
      from or_byte_bit [OF this] show ?thesis unfolding sb using True high_mask_not [OF k8] by simp
    next
      case False
      moreover have "8 * (?e div 8) + ?e mod 8 = ?e" by simp
      ultimately have "?e mod 8 = 0" by linarith
      then show ?thesis unfolding sb using False by simp
    qed
    have "(k div 8 = start div 8 \<and> start mod 8 \<le> k mod 8 \<or> start div 8 + 1 \<le> k div 8 \<and> k div 8 < ?e div 8 \<or>
        k div 8 = ?e div 8 \<and> k mod 8 < ?e mod 8) \<longleftrightarrow> start \<le> k \<and> k < ?e"
      unfolding byte_order [of start k] byte_order [of k ?e] using lt by auto
    then show ?thesis using b1 b2 b3 sb len by auto
  qed
  then show "tab_bit (set_bits tab start len) k \<longleftrightarrow> tab_bit tab k \<or> start \<le> k \<and> k < ?e"
    "length (set_bits tab start len) = length tab" by blast+
qed

section \<open>The bitmap of a page\<close>

definition in_span :: "TranslationBlock \<Rightarrow> nat \<Rightarrow> nat \<Rightarrow> bool" where
  "in_span b n k \<longleftrightarrow> (case tb_span b n of (x, y) \<Rightarrow> x \<le> k \<and> k < y)"

text \<open>The bitmap is the union of the spans on the list.\<close>

definition mark :: "'a tb_ctx_scheme \<Rightarrow> tb_ref \<Rightarrow> u8 list \<Rightarrow> u8 list" where
  "mark q r tab = (case tb_span (tbs q (fst r)) (snd r) of (a, b) \<Rightarrow> set_bits tab a (b - a))"

lemma bitmap_loop_chain: "chain (page_nxt q) r xs None \<Longrightarrow> bitmap_loop r q tab = Some (fold (mark q) xs tab)"
proof (induction xs arbitrary: r tab)
  case Nil
  then show ?case by (subst bitmap_loop.simps) simp
next
  case (Cons x xs)
  obtain t n where x: "x = (t, n)" by fastforce
  obtain a b where ab: "tb_span (tbs q t) n = (a, b)" by fastforce
  then have "mark q x tab = set_bits tab a (b - a)" by (simp add: mark_def x)
  then show ?case using Cons ab by (subst bitmap_loop.simps) (simp add: x)
qed

lemma build_page_bitmap_chain:
  assumes "tb_shape q H P J L" "page_find i q = Some p"
  shows "build_page_bitmap i q =
    Some (set_page i (\<lambda>p. p\<lparr>code_bitmap := Some (fold (mark q) (P i) (replicate 512 0))\<rparr>) q)"
proof -
  have "chain (page_nxt q) (first_tb p) (P i) None" using page_list(1) [OF assms(1), of i] assms(2) by simp
  then show ?thesis using assms(2) by (simp add: build_page_bitmap_def bitmap_loop_chain)
qed

lemma span_bound: "tb_span b n = (x, y) \<Longrightarrow> y \<le> 4096"
  using offset_less [of "tb_pc b + ucast (tb_size b)"] by (auto simp: tb_span_def Let_def split: if_splits)

lemma mark_bit:
  assumes "length tab = 512"
  shows "length (mark q r tab) = 512"
    "k < 4096 \<Longrightarrow> tab_bit (mark q r tab) k \<longleftrightarrow> tab_bit tab k \<or> in_span (tbs q (fst r)) (snd r) k"
proof -
  obtain x y where xy: "tb_span (tbs q (fst r)) (snd r) = (x, y)" by fastforce
  note y = span_bound [OF xy]
  have "length (set_bits tab x (y - x)) = 512 \<and>
      (k < 4096 \<longrightarrow> tab_bit (set_bits tab x (y - x)) k \<longleftrightarrow> tab_bit tab k \<or> x \<le> k \<and> k < y)" for k
  proof (cases "x \<le> y")
    case True
    then have le: "x + (y - x) \<le> 8 * length tab" using y assms by simp
    have "length (set_bits tab x (y - x)) = 512" using set_bits_bit(2) [OF le, of 0] assms by simp
    then show ?thesis using set_bits_bit(1) [OF le, of k] True assms by auto
  next
    case False
    then have "set_bits tab x (y - x) = tab" by (simp add: set_bits_def Let_def)
    then show ?thesis using False assms by auto
  qed
  then show "length (mark q r tab) = 512"
    "k < 4096 \<Longrightarrow> tab_bit (mark q r tab) k \<longleftrightarrow> tab_bit tab k \<or> in_span (tbs q (fst r)) (snd r) k"
    by (simp_all add: mark_def in_span_def xy)
qed

lemma marks_bit:
  assumes "length tab = 512"
  shows "length (fold (mark q) xs tab) = 512 \<and> (\<forall>k<4096. tab_bit (fold (mark q) xs tab) k \<longleftrightarrow>
    tab_bit tab k \<or> (\<exists>r\<in>set xs. in_span (tbs q (fst r)) (snd r) k))"
  using assms
proof (induction xs arbitrary: tab)
  case (Cons x xs)
  have "length (mark q x tab) = 512" by (rule mark_bit(1) [OF Cons.prems])
  from Cons.IH [OF this] mark_bit(2) [OF Cons.prems, of _ q x] show ?case by auto
qed simp

lemma empty_tab: "length (replicate 512 (0 :: u8)) = 512" "k < 4096 \<Longrightarrow> \<not> tab_bit (replicate 512 0) k"
  by (simp_all add: tab_bit_def less_mult_imp_div_less)

section \<open>Bitmaps and live blocks\<close>

abbreviation bms :: "'a tb_ctx_scheme \<Rightarrow> u32 \<Rightarrow> u8 list option" where
  "bms q \<equiv> \<lambda>i. Option.bind (page_find i q) code_bitmap"

text \<open>A bitmap marks at least the code of the live blocks on its page.\<close>

definition marked :: "'a tb_ctx_scheme \<Rightarrow> nat set \<Rightarrow> bool" where
  "marked q L \<longleftrightarrow> (\<forall>i tab. bms q i = Some tab \<longrightarrow> length tab = 512 \<and>
     (\<forall>t\<in>L. \<forall>n k. on_page (tbs q t) n i \<longrightarrow> in_span (tbs q t) n k \<longrightarrow> tab_bit tab k))"

definition fewer :: "'a tb_ctx_scheme \<Rightarrow> 'a tb_ctx_scheme \<Rightarrow> bool" where
  "fewer q q' \<longleftrightarrow> (\<forall>i. bms q' i = None \<or> bms q' i = bms q i)"

lemma fewer_trans [trans]: "fewer q q' \<Longrightarrow> fewer q' q'' \<Longrightarrow> fewer q q''"
  unfolding fewer_def by metis

lemma fewer_l1: "l1_map q' = l1_map q \<Longrightarrow> fewer q q'"
  by (simp add: fewer_def page_find_def)

lemma in_span_same: "ident b' = ident b \<Longrightarrow> in_span b' n k = in_span b n k"
  by (simp add: ident_def in_span_def tb_span_def)

lemma marked_fewer:
  assumes m: "marked q L" and f: "fewer q q'" and s: "same_blocks q q'" and L: "L' \<subseteq> L"
  shows "marked q' L'"
  unfolding marked_def
proof (intro allI impI)
  fix i tab assume "bms q' i = Some tab"
  then have t: "bms q i = Some tab" using f unfolding fewer_def by (metis option.distinct(1))
  have id: "ident (tbs q' t) = ident (tbs q t)" for t using s by (simp add: same_blocks_def)
  show "length tab = 512 \<and> (\<forall>t\<in>L'. \<forall>n k. on_page (tbs q' t) n i \<longrightarrow> in_span (tbs q' t) n k \<longrightarrow> tab_bit tab k)"
    unfolding in_span_same [OF id] ident_cong(2) [OF id] using m t L unfolding marked_def by blast
qed

lemma built_marked:
  assumes S: "tb_shape q H P J L" and m: "marked q L" and p: "page_find i q = Some p"
  shows "marked (set_page i (\<lambda>p. p\<lparr>code_bitmap := Some (fold (mark q) (P i) (replicate 512 0))\<rparr>) q) L"
  unfolding marked_def
proof (intro allI impI)
  fix j tab assume b: "bms (set_page i (\<lambda>p. p\<lparr>code_bitmap := Some (fold (mark q) (P i) (replicate 512 0))\<rparr>) q) j = Some tab"
  show "length tab = 512 \<and> (\<forall>t\<in>L. \<forall>n k. on_page (tbs (set_page i (\<lambda>p. p\<lparr>code_bitmap :=
      Some (fold (mark q) (P i) (replicate 512 0))\<rparr>) q) t) n j \<longrightarrow> in_span (tbs (set_page i (\<lambda>p. p\<lparr>code_bitmap :=
      Some (fold (mark q) (P i) (replicate 512 0))\<rparr>) q) t) n k \<longrightarrow> tab_bit tab k)"
  proof (cases "j = i")
    case True
    then have tab: "tab = fold (mark q) (P i) (replicate 512 0)" using b p by (simp add: page_find_set_page)
    note mb = marks_bit [OF empty_tab(1), of q "P i", folded tab]
    have mem: "set (P i) = {(t, n). t \<in> L \<and> on_page (tbs q t) n i}" using S by (simp add: tb_shape_def page_shape_def)
    have "tab_bit tab k" if "t \<in> L" "on_page (tbs q t) n j" "in_span (tbs q t) n k" for t n k
    proof -
      have "k < 4096" using that(3) span_bound by (force simp: in_span_def)
      moreover have "(t, n) \<in> set (P i)" using mem that True by simp
      ultimately show ?thesis using mb that(3) by force
    qed
    then show ?thesis using mb by simp
  next
    case False
    then have "bms q j = Some tab" using b by (simp add: page_find_set_page)
    then show ?thesis using m unfolding marked_def set_page_simps by blast
  qed
qed

section \<open>The operations never add to a bitmap\<close>

lemma set_hash_l1 [simp]: "l1_map (set_hash s v q) = l1_map q"
  by (cases s) simp_all

lemma set_jmp_l1 [simp]: "l1_map (set_jmp s v q) = l1_map q"
  by (cases s) simp_all

lemma reset_jump_l1 [simp]: "l1_map (tb_reset_jump t n q) = l1_map q"
  by (simp add: tb_reset_jump_def tb_set_jmp_target_def)

lemma tb_remove_l1: "tb_remove s t q = Some q' \<Longrightarrow> l1_map q' = l1_map q"
  by (erule tb_remove.raw_induct [where P = "\<lambda>s t q q'. l1_map q' = l1_map q", rotated])
    (auto split: option.splits if_splits simp del: set_hash.simps)

lemma bms_page_slot: "bms (set_page_slot s v q) i = bms q i"
proof (cases s)
  case (PageHead j)
  then show ?thesis by (cases "page_find i q") (auto simp: page_find_set_page)
next
  case (PageNext t n)
  then show ?thesis by (simp add: page_find_def)
qed

lemma tb_page_remove_bms: "tb_page_remove s t q = Some q' \<Longrightarrow> bms q' i = bms q i"
  by (erule tb_page_remove.raw_induct [where P = "\<lambda>s t q q'. bms q' i = bms q i", rotated])
    (auto split: option.splits if_splits simp: bms_page_slot simp del: set_page_slot.simps)

lemma leave_page_fewer: "leave_page t n q = Some q' \<Longrightarrow> fewer q q'"
proof -
  assume a: "leave_page t n q = Some q'"
  define i where "i = drop_bit 12 (page_addr (tbs q t) n)"
  obtain q1 where q1: "tb_page_remove (PageHead i) t q = Some q1" and q': "q' = set_page i invalidate_page_bitmap q1"
    using a by (auto simp: leave_page_def i_def Let_def)
  have "bms q' j = None \<or> bms q' j = bms q1 j" for j
    unfolding q' page_find_set_page by (cases "page_find j q1") (auto simp: invalidate_page_bitmap_def)
  then show ?thesis unfolding fewer_def using tb_page_remove_bms [OF q1] by metis
qed

lemma tb_jmp_remove_l1: "tb_jmp_remove t n q = Some q' \<Longrightarrow> l1_map q' = l1_map q"
  by (auto simp: tb_jmp_remove_def split: if_splits bind_splits simp del: set_jmp.simps)

lemma reset_jumps_l1: "reset_jumps r q = Some q' \<Longrightarrow> l1_map q' = l1_map q"
proof (erule reset_jumps.raw_induct [where P = "\<lambda>r q q'. l1_map q' = l1_map q", rotated])
  fix f r and q q' :: "'a tb_ctx_scheme"
  assume ih: "\<And>r q q'. f r q = Some q' \<Longrightarrow> l1_map q' = l1_map q"
    and e: "(case r of None \<Rightarrow> None | Some (t, n) \<Rightarrow> if n = 2 then Some q
      else f (jmp_next (tbs q t) n) (set_jmp (JmpNext t n) None (tb_reset_jump t n q))) = Some q'"
  from e obtain t n where r: "r = Some (t, n)" by (auto split: option.splits)
  show "l1_map q' = l1_map q"
  proof (cases "n = 2")
    case True
    then show ?thesis using e r by simp
  next
    case False
    then have "f (jmp_next (tbs q t) n) (set_jmp (JmpNext t n) None (tb_reset_jump t n q)) = Some q'"
      using e r by (simp only: option.case prod.case if_False)
    from ih [OF this] show ?thesis by (simp only: set_jmp_l1 reset_jump_l1)
  qed
qed

lemma cut_jumps_l1: "cut_jumps t q = Some q' \<Longrightarrow> l1_map q' = l1_map q"
proof -
  assume "cut_jumps t q = Some q'"
  then obtain q1 q2 q3 where q: "tb_jmp_remove t 0 q = Some q1" "tb_jmp_remove t 1 q1 = Some q2"
    "reset_jumps (jmp_first (tbs q2 t)) q2 = Some q3" "q' = set_jmp (JmpFirst t) (Some (t, 2)) q3"
    by (auto simp: cut_jumps_def split: bind_splits simp del: set_jmp.simps)
  show ?thesis using tb_jmp_remove_l1 [OF q(1)] tb_jmp_remove_l1 [OF q(2)] reset_jumps_l1 [OF q(3)]
    by (simp only: q(4) set_jmp_l1)
qed

lemma tb_phys_invalidate_fewer:
  assumes "tb_phys_invalidate t a q = Some q'"
  shows "fewer q q'"
proof -
  obtain q1 q2 q3 q5 c where q1: "tb_remove (HashHead (tb_phys_hash_func (phys_pc_of (tbs q t)))) t q = Some q1"
    and q2: "(if page_addr (tbs q1 t) 0 \<noteq> a then leave_page t 0 q1 else Some q1) = Some q2"
    and q3: "(if page_addr (tbs q2 t) 1 \<noteq> -1 \<and> page_addr (tbs q2 t) 1 \<noteq> a then leave_page t 1 q2 else Some q2) = Some q3"
    and q5: "cut_jumps t (q3\<lparr>tb_invalidated_flag := True, tb_jmp_cache := c\<rparr>) = Some q5"
      "q' = q5\<lparr>tb_phys_invalidate_count := tb_phys_invalidate_count q5 + 1\<rparr>"
    using assms by (auto simp: tb_phys_invalidate_def Let_def split: bind_splits)
  have "fewer q q1" by (rule fewer_l1 [OF tb_remove_l1 [OF q1]])
  also have "fewer q1 q2" using q2 leave_page_fewer [of t 0 q1 q2] fewer_l1 [of q2 q1] by (auto split: if_splits)
  also have "fewer q2 q3" using q3 leave_page_fewer [of t 1 q2 q3] fewer_l1 [of q3 q2] by (auto split: if_splits)
  also have "fewer q3 q'" using q5 cut_jumps_l1 [OF q5(1)] by (intro fewer_l1) simp
  finally show ?thesis .
qed

lemma reset_recursive2_l1: "tb_reset_jump_recursive2 t n q = Some q' \<Longrightarrow> l1_map q' = l1_map q"
proof (erule tb_reset_jump_recursive2.raw_induct [where P = "\<lambda>t n q q'. l1_map q' = l1_map q", rotated])
  fix f t n and q q' :: "'a tb_ctx_scheme"
  assume ih: "\<And>t n q q'. f t n q = Some q' \<Longrightarrow> l1_map q' = l1_map q"
    and e: "(if jmp_next (tbs q t) n = None then Some q
      else Option.bind (jmp_head (jmp_next (tbs q t) n) q) (\<lambda>nxt. Option.bind (jmp_search (JmpFirst nxt) t n q) (\<lambda>ptb.
        let q1 = set_jmp (JmpNext t n) None (set_jmp ptb (jmp_next (tbs q t) n) q); q2 = tb_reset_jump t n q1 in
        Option.bind (f nxt 0 q2) (f nxt 1)))) = Some q'"
  show "l1_map q' = l1_map q"
  proof (cases "jmp_next (tbs q t) n = None")
    case True
    then show ?thesis using e by (simp only: refl if_True option.inject)
  next
    case False
    then obtain u ptb q3 where "f u 0 (tb_reset_jump t n (set_jmp (JmpNext t n) None (set_jmp ptb (jmp_next (tbs q t) n) q))) = Some q3"
      "f u 1 q3 = Some q'"
      using e unfolding Let_def by (simp only: if_False) (auto split: bind_splits simp del: set_jmp.simps)
    from ih [OF this(2)] ih [OF this(1)] show ?thesis by (simp only: set_jmp_l1 reset_jump_l1)
  qed
qed

lemma interrupt_l1: "cpu_interrupt_tb m q = Some q' \<Longrightarrow> l1_map q' = l1_map q"
proof -
  assume a: "cpu_interrupt_tb m q = Some q'"
  show ?thesis
  proof (cases "current_tb q = None \<or> interrupt_lock q")
    case True
    then show ?thesis using a by (auto simp: cpu_interrupt_tb_def Let_def split: option.splits)
  next
    case False
    then obtain t i q2 q3 where q: "tb_reset_jump_recursive2 t 0
        (q\<lparr>interrupt_request := i, interrupt_lock := True, current_tb := None\<rparr>) = Some q2"
      "tb_reset_jump_recursive2 t 1 q2 = Some q3" "q' = q3\<lparr>interrupt_lock := False\<rparr>"
      using a by (auto simp: cpu_interrupt_tb_def tb_reset_jump_recursive_def Let_def split: bind_splits)
    show ?thesis using q(3) reset_recursive2_l1 [OF q(1)] reset_recursive2_l1 [OF q(2)] by simp
  qed
qed

lemma invalidate_one_fewer:
  assumes "invalidate_one t q = Some q'"
  shows "fewer q q'"
proof -
  define q1 where "q1 = (if in_cpu_exec q then q\<lparr>current_tb := None\<rparr> else q)"
  obtain q2 where q2: "tb_phys_invalidate t (-1) q1 = Some q2" "l1_map q' = l1_map q2"
  proof -
    from assms obtain q2 where a: "tb_phys_invalidate t (-1) q1 = Some q2"
      "q' = q2 \<or> q' = q2\<lparr>current_tb := current_tb q\<rparr> \<or>
       cpu_interrupt_tb (interrupt_request q2) (q2\<lparr>current_tb := current_tb q\<rparr>) = Some q'"
      unfolding invalidate_one_def Let_def q1_def [symmetric]
      by (auto split: bind_splits if_splits)
    then show ?thesis
      using that [OF a(1)] interrupt_l1 [of "interrupt_request q2" "q2\<lparr>current_tb := current_tb q\<rparr>" q'] by auto
  qed
  have "fewer q q1" by (rule fewer_l1) (simp add: q1_def)
  also have "fewer q1 q2" by (rule tb_phys_invalidate_fewer [OF q2(1)])
  also have "fewer q2 q'" by (rule fewer_l1 [OF q2(2)])
  finally show ?thesis .
qed

lemma smc_update_l1: "restore_ok X \<Longrightarrow> smc_update X t sm q = (sm', q') \<Longrightarrow> l1_map q' = l1_map q"
  using smc_update_cache(1) [of X t sm q sm' q'] by (simp add: cache_of_def)

lemma range_loop_fewer: "range_loop X s e r sm q = Some z \<Longrightarrow> restore_ok X \<longrightarrow> fewer q (snd z)"
proof (erule range_loop.raw_induct [where P = "\<lambda>X s e r sm q z. restore_ok X \<longrightarrow> fewer q (snd z)", rotated], rule impI)
  fix f and X :: "('a tb_ctx_scheme) trans" and s e r sm q z
  assume ih: "\<And>X s e r sm q z. f X s e r sm q = Some z \<Longrightarrow> restore_ok X \<longrightarrow> fewer q (snd z)" and X: "restore_ok X"
    and e: "(case r of None \<Rightarrow> Some (sm, q) | Some (tb, n) \<Rightarrow>
      let nxt = page_next (tbs q tb) n in if intersects s e (tbs q tb) n
        then case smc_update X tb sm q of (sm1, q1) \<Rightarrow> Option.bind (invalidate_one tb q1) (f X s e nxt sm1)
        else f X s e nxt sm q) = Some z"
  show "fewer q (snd z)"
  proof (cases r)
    case None
    then show ?thesis using e by (auto intro: fewer_l1)
  next
    case (Some x)
    obtain t n where x: "x = (t, n)" by fastforce
    show ?thesis
    proof (cases "intersects s e (tbs q t) n")
      case True
      obtain sm1 q1 where u: "smc_update X t sm q = (sm1, q1)" by fastforce
      with e Some x True obtain q2 where q2: "invalidate_one t q1 = Some q2" "f X s e (page_next (tbs q t) n) sm1 q2 = Some z"
        by (auto simp: Let_def split: bind_splits)
      have "fewer q q1" by (rule fewer_l1 [OF smc_update_l1 [OF X u]])
      also have "fewer q1 q2" by (rule invalidate_one_fewer [OF q2(1)])
      also have "fewer q2 (snd z)" using ih [OF q2(2)] X by blast
      finally show ?thesis .
    next
      case False
      then show ?thesis using e Some x ih X by (auto simp: Let_def)
    qed
  qed
qed

end
