(* ===== verification/TBStore.thy ===== *)
theory TBStore
  imports TBBitmap
begin

text \<open>
  Stores to guest code: \<^verbatim>\<open>tb_invalidate_phys_page_range\<close> returns, drops exactly the blocks that
  intersect the range and keeps the shape of the cache and its bitmaps.
\<close>

section \<open>The invalidation of a range\<close>

lemma set_page_shape:
  assumes "\<And>p. first_tb (f p) = first_tb p"
  shows "tb_shape (set_page i f q) H P J L = tb_shape q H P J L"
proof -
  have "page_first (set_page i f q) = page_first q"
    using assms by (auto simp: fun_eq_iff page_first_set_page)
  then show ?thesis by (simp add: tb_shape_def hash_shape_def page_shape_def jmp_shape_def)
qed

lemma set_page_cpu [simp]:
  "current_tb (set_page i f q) = current_tb q" "code_gen_ptr (set_page i f q) = code_gen_ptr q" "current_ok (set_page i f q) L = current_ok q L"
  "same_blocks q' (set_page i f q) = same_blocks q' q"
  by (simp_all add: set_page_def current_ok_def unlinkable_def same_blocks_def split: option.split)

lemma unprotect_cache: "cache_of (tlb_unprotect_code_phys a q) = cache_of q"
  "current_tb (tlb_unprotect_code_phys a q) = current_tb q"
  by (simp_all add: tlb_unprotect_code_phys_def cache_of_def)

lemma same_cache:
  assumes "cache_of q' = cache_of q" "current_tb q' = current_tb q"
  shows "tb_shape q' H P J L = tb_shape q H P J L" "current_ok q' L = current_ok q L"
    "same_blocks p q' = same_blocks p q"
proof -
  have "tbs q' = tbs q" "nb_tbs q' = nb_tbs q" "code_gen_ptr q' = code_gen_ptr q"
    using assms(1) by (simp_all add: cache_of_def)
  then show "current_ok q' L = current_ok q L" "same_blocks p q' = same_blocks p q"
    using assms(2) by (simp_all add: current_ok_def unlinkable_def same_blocks_def)
qed (rule tb_shape_cache [OF assms(1)])

lemma unprotect_pages: "page_find i (tlb_unprotect_code_phys a q) = page_find i q"
  by (simp add: page_find_def tlb_unprotect_code_phys_def)

lemmas unprotect_same = same_cache [OF unprotect_cache]

lemma invalidate_range_shape:
  assumes "restore_ok X" "tb_shape q H P J L" "current_ok q L"
  obtains q4 H' P' J' and sm :: smc where "tb_shape q4 H' P' J' (L - hits s e q (P (drop_bit 12 s)))"
    "current_ok q4 (L - hits s e q (P (drop_bit 12 s)))" "same_blocks q q4" "\<not> w \<longrightarrow> \<not> modified sm"
    "cuts (hits s e q (P (drop_bit 12 s))) q J q4 J'"
    "marked q L \<longrightarrow> marked q4 (L - hits s e q (P (drop_bit 12 s)))"
    "tb_invalidate_phys_page_range_full X s e w q =
      (if modified sm then
         and_then (tb_gen_code X (current_pc sm) (current_cs_base sm) (current_flags sm) CF_SINGLE_INSN
                     (q4\<lparr>current_tb := None\<rparr>)) (\<lambda>_ q5. Some (Longjmp q5))
       else Some (Done () q4))"
proof -
  let ?i = "drop_bit 12 s" and ?L = "L - hits s e q (P (drop_bit 12 s))"
  let ?sm = "\<lparr>not_found = w, modified = False, current = None, current_pc = 0, current_cs_base = 0, current_flags = 0\<rparr>"
  note C = page_list(1) [OF assms(2), of ?i]
  show ?thesis
  proof (cases "page_find ?i q")
    case None
    then have "P ?i = []" using C by (cases "P ?i") auto
    then have "?L = L" by (simp add: hits_def)
    then show ?thesis using that [of q H P J ?sm] assms None
      by (simp add: tb_invalidate_phys_page_range_full_def same_blocks_def)
  next
    case (Some p)
    define q1 where "q1 = (if code_bitmap p = None
      then set_page ?i (\<lambda>p. p\<lparr>code_write_count := code_write_count p + 1\<rparr>) q else q)"
    have S1: "tb_shape q1 H P J L" "current_ok q1 L" "same_blocks q q1" "tbs q1 = tbs q"
      using assms(2,3) by (auto simp: q1_def set_page_shape same_blocks_def)
    have f1: "\<exists>p1. page_find ?i q1 = Some p1" using Some by (simp add: q1_def page_find_set_page)
    define bm where "bm = (code_bitmap p = None \<and> SMC_BITMAP_USE_THRESHOLD \<le> code_write_count p + 1 \<and> w)"
    define q2 where "q2 = (if bm
      then set_page ?i (\<lambda>p. p\<lparr>code_bitmap := Some (fold (mark q1) (P ?i) (replicate 512 0))\<rparr>) q1 else q1)"
    have S2: "tb_shape q2 H P J L" "current_ok q2 L" "same_blocks q q2" "tbs q2 = tbs q"
      using S1 by (auto simp: q2_def set_page_shape)
    have step2: "(if bm then build_page_bitmap ?i q1 else Some q1) = Some q2"
      using build_page_bitmap_chain [OF S1(1)] f1 by (auto simp: q2_def)
    obtain sm q3 H' P' J' where q3: "range_loop X s e (page_first q2 ?i) ?sm q2 = Some (sm, q3)" "same_blocks q2 q3"
      "tb_shape q3 H' P' J' (L - hits s e q2 (P ?i))" "current_ok q3 (L - hits s e q2 (P ?i))"
      "no_writer ?sm \<longrightarrow> no_writer sm" "cuts (hits s e q2 (P ?i)) q2 J q3 J'"
      using range_loop_shape [OF assms(1) S2(1,2) _ page_list(1) [OF S2(1)], where xs = "[]" and sm = ?sm] by force
    have hL: "L - hits s e q2 (P ?i) = ?L" using hits_same [OF S2(3)] by simp
    define q4 where "q4 = (if page_first q3 ?i = None then
        let q' = set_page ?i invalidate_page_bitmap q3 in if w then tlb_unprotect_code_phys s q' else q' else q3)"
    have "tb_shape q4 H' P' J' ?L \<and> current_ok q4 ?L \<and> same_blocks q q4"
      using q3(3,4) same_blocks_trans [OF S2(3) q3(2)] unfolding q4_def Let_def hL
      by (simp add: set_page_shape unprotect_same)
    moreover have "cuts (hits s e q (P ?i)) q J q4 J'"
    proof -
      have "tbs q4 = tbs q3" by (simp add: q4_def Let_def tlb_unprotect_code_phys_def)
      then show ?thesis using q3(6) hits_same [OF S2(3)] cuts_tbs [OF S2(4), of q3 q4] by simp
    qed
    moreover have "marked q L \<longrightarrow> marked q4 ?L"
    proof
      assume m: "marked q L"
      have "fewer q q1" using Some by (auto simp: fewer_def q1_def page_find_set_page)
      then have m1: "marked q1 L" by (rule marked_fewer [OF m _ S1(3) subset_refl])
      obtain p1 where "page_find ?i q1 = Some p1" using f1 by blast
      then have m2: "marked q2 L" using m1 built_marked [OF S1(1) m1] by (simp add: q2_def)
      have "fewer q2 q3" using range_loop_fewer [OF q3(1)] assms(1) by simp
      also have "fewer q3 q4"
        unfolding fewer_def q4_def Let_def
        by (cases "page_find ?i q3") (auto simp: page_find_set_page invalidate_page_bitmap_def unprotect_pages)
      finally have "fewer q2 q4" .
      moreover have "same_blocks q2 q4"
        using q3(2) unfolding q4_def Let_def by (simp add: unprotect_same)
      ultimately show "marked q4 ?L" by (rule marked_fewer [OF m2]) simp
    qed
    moreover have "\<not> w \<longrightarrow> \<not> modified sm" using q3(5) by (simp add: no_writer_def)
    moreover have "tb_invalidate_phys_page_range_full X s e w q =
      (if modified sm then
         and_then (tb_gen_code X (current_pc sm) (current_cs_base sm) (current_flags sm) CF_SINGLE_INSN
                     (q4\<lparr>current_tb := None\<rparr>)) (\<lambda>_ q5. Some (Longjmp q5))
       else Some (Done () q4))"
      using Some step2 q3(1)
      by (simp only: tb_invalidate_phys_page_range_full_def Let_def bm_def [symmetric] q1_def [symmetric]
          option.case bind.bind_lunit prod.case) (simp add: q4_def Let_def)
    ultimately show ?thesis using that by blast
  qed
qed

end
