(* ===== verification/TBLink.thy ===== *)
theory TBLink
  imports TBProps
begin

text \<open>
  Growing the translation cache: a flush leaves it empty, linking a block makes it live, and a
  patched jump joins the circular list of its target.
\<close>

section \<open>Lists that grow\<close>

lemma chains_push:
  assumes L: "chains nxt head fin K L" and k: "k \<in> K" and x: "\<And>j. j \<in> K \<Longrightarrow> x \<notin> set (L j)"
    and nxt': "\<And>y. y \<noteq> x \<Longrightarrow> nxt' y = nxt y" "nxt' x = head k"
    and head': "\<And>j. j \<in> K \<Longrightarrow> head' j = (if j = k then Some x else head j)"
  shows "chains nxt' head' fin K (L(k := x # L k))"
proof -
  have old: "chain nxt' (head j) (L j) (fin j)" if "j \<in> K" for j
    using chainsD(1) [OF L that] x [OF that] chain_cong [of "L j" nxt' nxt] nxt'(1) by metis
  then show ?thesis
    using L k x head' nxt'(2) unfolding chains_def by (auto split: if_splits)
qed

lemma chains_new:
  assumes L: "chains nxt head fin K L" and k: "k \<notin> K"
    and same: "\<And>y j. j \<in> K \<Longrightarrow> y \<in> set (L j) \<Longrightarrow> nxt' y = nxt y" "\<And>j. j \<in> K \<Longrightarrow> head' j = head j"
    and new: "head' k = fin k"
  shows "chains nxt' head' fin (insert k K) (L(k := []))"
proof -
  have "chains nxt' head' fin K L" by (rule chains_cong [OF L same(2) same(1)])
  then show ?thesis using k new unfolding chains_def by (auto split: if_splits)
qed

section \<open>The empty cache\<close>

lemma page_find_flush:
  "page_find i (page_flush_tb q) = map_option (\<lambda>p. invalidate_page_bitmap (p\<lparr>first_tb := None\<rparr>)) (page_find i q)"
  by (simp add: page_find_def page_flush_tb_def split: option.split)

lemma tb_flush_shape: "tb_shape (tb_flush X q) (\<lambda>_. []) (\<lambda>_. []) (\<lambda>_. []) {}"
proof -
  have "page_find i (tb_flush X q) = map_option (\<lambda>p. invalidate_page_bitmap (p\<lparr>first_tb := None\<rparr>)) (page_find i q)" for i
    using page_find_flush [of i q] by (simp add: tb_flush_def page_flush_tb_def page_find_def Let_def)
  then have "page_first (tb_flush X q) = (\<lambda>_. None)" by (auto simp: fun_eq_iff bind_map_option comp_def)
  moreover have "tb_phys_hash (tb_flush X q) = (\<lambda>_. None)" "tb_jmp_cache (tb_flush X q) = (\<lambda>_. None)"
    by (simp_all add: tb_flush_def page_flush_tb_def Let_def)
  ultimately show ?thesis
    by (simp add: tb_shape_def hash_shape_def page_shape_def jmp_shape_def chains_def)
qed

section \<open>Linking a block\<close>

lemma page_find_alloc_effect:
  "page_find i (page_find_alloc j q) = (if page_find i q = None \<and> drop_bit 10 i = drop_bit 10 j then Some empty_page else page_find i q)"
  "tbs (page_find_alloc j q) = tbs q" "tb_phys_hash (page_find_alloc j q) = tb_phys_hash q"
  "tb_jmp_cache (page_find_alloc j q) = tb_jmp_cache q" "current_tb (page_find_alloc j q) = current_tb q"
  by (auto simp: page_find_def page_find_alloc_def split: option.split)

lemma page_first_alloc: "page_first (page_find_alloc j q) i = page_first q i" "page_find j (page_find_alloc j q) \<noteq> None"
  by (auto simp: page_find_alloc_effect empty_page_def)

lemma protect_cache: "cache_of (tlb_protect_code a q) = cache_of q" "current_tb (tlb_protect_code a q) = current_tb q"
  by (simp_all add: tlb_protect_code_def cpu_physical_memory_reset_dirty_def cache_of_def tlb_map_def Let_def)

lemma protect_more [simp]: "tbs (tlb_protect_code a q) = tbs q" "l1_map (tlb_protect_code a q) = l1_map q"
  "tb_phys_hash (tlb_protect_code a q) = tb_phys_hash q" "tb_jmp_cache (tlb_protect_code a q) = tb_jmp_cache q"
  using protect_cache(1) [of a q] by (simp_all add: cache_of_def)

lemma tb_alloc_page_effect:
  fixes q :: "'a tb_ctx_scheme" and t n :: nat and a :: u32
  defines "q' \<equiv> tb_alloc_page t n a q"
  shows "tbs q' = (tbs q)(t := (tbs q t)\<lparr>page_addr := (page_addr (tbs q t))(n := a),
      page_next := (page_next (tbs q t))(n := page_first q (drop_bit 12 a))\<rparr>)"
    "page_first q' i = (if i = drop_bit 12 a then Some (t, n) else page_first q i)"
    "tb_phys_hash q' = tb_phys_hash q" "tb_jmp_cache q' = tb_jmp_cache q"
proof -
  let ?i = "drop_bit 12 a"
  define q0 where "q0 = set_tb t (\<lambda>b. b\<lparr>page_addr := (page_addr b)(n := a)\<rparr>) q"
  define q1 where "q1 = page_find_alloc ?i q0"
  define q2 where "q2 = set_tb t (\<lambda>b. b\<lparr>page_next := (page_next b)(n := page_first q1 ?i)\<rparr>) q1"
  define q3 where "q3 = set_page ?i (\<lambda>p. invalidate_page_bitmap (p\<lparr>first_tb := Some (t, n)\<rparr>)) q2"
  have q': "q' = (if page_first q1 ?i = None then tlb_protect_code a q3 else q3)"
    by (simp add: q'_def tb_alloc_page_def Let_def q3_def q2_def q1_def q0_def)
  have f0: "page_find i q0 = page_find i q" for i by (simp add: q0_def page_find_def)
  have f1: "page_first q1 i = page_first q i" for i unfolding q1_def page_first_alloc(1) f0 ..
  have f2: "page_find i q2 = page_find i q1" for i by (simp add: q2_def page_find_def)
  have t3: "tbs q3 = tbs q2" "tb_phys_hash q3 = tb_phys_hash q" "tb_jmp_cache q3 = tb_jmp_cache q"
    by (simp_all add: q3_def q2_def q1_def q0_def page_find_alloc_effect)
  have p': "page_find i q' = page_find i q3" for i unfolding q' by (simp add: page_find_def)
  show "tbs q' = (tbs q)(t := (tbs q t)\<lparr>page_addr := (page_addr (tbs q t))(n := a),
      page_next := (page_next (tbs q t))(n := page_first q ?i)\<rparr>)"
    unfolding q' using t3(1) f1 [of ?i]
    by (simp add: q2_def q1_def q0_def page_find_alloc_effect(2) set_tb_def)
  show "tb_phys_hash q' = tb_phys_hash q" "tb_jmp_cache q' = tb_jmp_cache q" unfolding q' using t3 by simp_all
  have "page_find ?i q2 \<noteq> None" using page_first_alloc(2) [of ?i q0] by (simp add: f2 q1_def)
  then have "page_first q3 i = (if i = ?i then Some (t, n) else page_first q2 i)"
    unfolding q3_def page_first_set_page by auto
  then show "page_first q' i = (if i = ?i then Some (t, n) else page_first q i)"
    unfolding p' f2 using f1 by simp
qed

lemma tb_alloc_page_chains:
  assumes "chains (page_nxt q) (page_first q) (\<lambda>_. None) UNIV P" "\<And>i. (t, n) \<notin> set (P i)"
  shows "chains (page_nxt (tb_alloc_page t n a q)) (page_first (tb_alloc_page t n a q)) (\<lambda>_. None) UNIV
    (P(drop_bit 12 a := (t, n) # P (drop_bit 12 a)))"
  by (rule chains_push [OF assms(1)])
    (use assms(2) in \<open>auto simp: tb_alloc_page_effect\<close>)

text \<open>What linking does to the state, step by step.\<close>

definition linked_block :: "nat \<Rightarrow> u32 \<Rightarrow> u32 \<Rightarrow> TranslationBlock \<Rightarrow> TranslationBlock \<Rightarrow> bool" where
  "linked_block t a0 a1 b b' \<longleftrightarrow> tb_pc b' = tb_pc b \<and> tb_size b' = tb_size b \<and> tb_cs_base b' = tb_cs_base b \<and>
     tb_flags b' = tb_flags b \<and> tb_cflags b' = tb_cflags b \<and> tc_ptr b' = tc_ptr b \<and>
     tb_next_offset b' = tb_next_offset b \<and> page_addr b' = (page_addr b)(0 := a0, 1 := a1) \<and> jmp_first b' = Some (t, 2) \<and> (\<forall>n<2. jmp_next b' n = None)"

lemma reset_jump_more [simp]:
  "page_first (tb_reset_jump t n q) = page_first q" "tb_phys_hash (tb_reset_jump t n q) = tb_phys_hash q"
  "tb_jmp_cache (tb_reset_jump t n q) = tb_jmp_cache q"
  "tbs (tb_reset_jump t n q) = (tbs q)(t := (tbs q t)\<lparr>tb_next := (tb_next (tbs q t))
     (n := tc_ptr (tbs q t) + ucast (tb_next_offset (tbs q t) n))\<rparr>)"
  by (simp_all add: tb_reset_jump_def tb_set_jmp_target_def set_tb_def page_find_def)

lemma set_tb_pages [simp]: "page_find i (set_tb t f q) = page_find i q"
  by (simp add: page_find_def)

text \<open>The state before the jump fields are set, and what the rest of the function changes.\<close>

definition link_pages :: "nat \<Rightarrow> u32 \<Rightarrow> u32 \<Rightarrow> 'a tb_ctx_scheme \<Rightarrow> 'a tb_ctx_scheme" where
  "link_pages t a0 a1 q =
     (let q2 = tb_alloc_page t 0 a0 q in
      if a1 \<noteq> -1 then tb_alloc_page t 1 a1 q2
      else set_tb t (\<lambda>b. b\<lparr>page_addr := (page_addr b)(1 := -1)\<rparr>) q2)"

definition link_hash :: "nat \<Rightarrow> nat \<Rightarrow> 'a tb_ctx_scheme \<Rightarrow> 'a tb_ctx_scheme" where
  "link_hash h t q = set_hash (HashHead h) (Some t) (set_hash (HashNext t) (get_hash (HashHead h) q) q)"

lemma link_hash_effect:
  "tbs (link_hash h t q) = (tbs q)(t := (tbs q t)\<lparr>phys_hash_next := tb_phys_hash q h\<rparr>)"
  "tb_phys_hash (link_hash h t q) = (tb_phys_hash q)(h := Some t)"
  "page_find i (link_hash h t q) = page_find i q" "tb_jmp_cache (link_hash h t q) = tb_jmp_cache q"
  by (simp_all add: link_hash_def set_tb_def page_find_def)

lemma link_pages_block:
  "\<exists>f. tbs (link_pages t a0 a1 q) = (tbs q)(t := (tbs q t)\<lparr>page_addr := (page_addr (tbs q t))(0 := a0, 1 := a1),
     page_next := f\<rparr>)"
  "tb_phys_hash (link_pages t a0 a1 q) = tb_phys_hash q" "tb_jmp_cache (link_pages t a0 a1 q) = tb_jmp_cache q"
proof -
  show "\<exists>f. tbs (link_pages t a0 a1 q) = (tbs q)(t := (tbs q t)\<lparr>page_addr := (page_addr (tbs q t))(0 := a0, 1 := a1),
     page_next := f\<rparr>)"
  proof (cases "a1 = -1")
    case True
    then show ?thesis unfolding link_pages_def Let_def
      by (intro exI [of _ "(page_next (tbs q t))(0 := page_first q (drop_bit 12 a0))"])
        (simp add: tb_alloc_page_effect fun_eq_iff)
  next
    case False
    then show ?thesis unfolding link_pages_def Let_def
      by (simp add: tb_alloc_page_effect(1)) blast
  qed
qed (simp_all add: link_pages_def tb_alloc_page_effect Let_def)

lemma tb_link_phys_effect:
  fixes q :: "'a tb_ctx_scheme" and t :: nat and pc a1 :: u32
  defines "q' \<equiv> tb_link_phys t pc a1 q" and "q3 \<equiv> link_pages t (page_bits pc) a1 (link_hash (tb_phys_hash_func pc) t q)"
  shows "\<And>u. u \<noteq> t \<Longrightarrow> tbs q' u = tbs q u" "linked_block t (page_bits pc) a1 (tbs q t) (tbs q' t)"
    "page_first q' = page_first q3" "\<And>u. page_next (tbs q' u) = page_next (tbs q3 u)"
    "phys_hash_next (tbs q' t) = tb_phys_hash q (tb_phys_hash_func pc)"
    "tb_phys_hash q' = (tb_phys_hash q)(tb_phys_hash_func pc := Some t)" "tb_jmp_cache q' = tb_jmp_cache q"
    "\<forall>n<2. tb_next_offset (tbs q' t) n \<noteq> 0xffff \<longrightarrow> tb_next (tbs q' t) n = exit_stub (tbs q' t) n"
proof -
  obtain f where f: "tbs q3 = (tbs q)(t := (tbs q t)\<lparr>phys_hash_next := tb_phys_hash q (tb_phys_hash_func pc),
      page_addr := (page_addr (tbs q t))(0 := page_bits pc, 1 := a1), page_next := f\<rparr>)"
    using link_pages_block(1) [of t "page_bits pc" a1 "link_hash (tb_phys_hash_func pc) t q"]
    by (auto simp: q3_def link_hash_effect)
  define q4 where "q4 = set_tb t (\<lambda>b. b\<lparr>jmp_first := Some (t, 2), jmp_next := (jmp_next b)(0 := None, 1 := None)\<rparr>) q3"
  define q5 where "q5 = (if tb_next_offset (tbs q4 t) 0 \<noteq> 0xffff then tb_reset_jump t 0 q4 else q4)"
  have q': "q' = (if tb_next_offset (tbs q5 t) 1 \<noteq> 0xffff then tb_reset_jump t 1 q5 else q5)"
    by (simp only: q'_def tb_link_phys_def Let_def q5_def q4_def q3_def link_pages_def link_hash_def)
  have f4: "tbs q4 = (tbs q)(t := (tbs q t)\<lparr>phys_hash_next := tb_phys_hash q (tb_phys_hash_func pc),
      page_addr := (page_addr (tbs q t))(0 := page_bits pc, 1 := a1), page_next := f,
      jmp_first := Some (t, 2), jmp_next := (jmp_next (tbs q t))(0 := None, 1 := None)\<rparr>)"
    by (simp add: q4_def f fun_eq_iff)
  have f5: "\<exists>g. tbs q' = (tbs q)(t := (tbs q4 t)\<lparr>tb_next := g\<rparr>)"
  proof -
    have "\<exists>g. tbs q5 = (tbs q)(t := (tbs q4 t)\<lparr>tb_next := g\<rparr>)"
      unfolding q5_def by (cases "tb_next_offset (tbs q4 t) 0 \<noteq> 0xffff") (auto simp: f4 intro: exI [of _ "tb_next (tbs q t)"])
    then obtain g where "tbs q5 = (tbs q)(t := (tbs q4 t)\<lparr>tb_next := g\<rparr>)" by blast
    then show ?thesis unfolding q' by (cases "tb_next_offset (tbs q5 t) 1 \<noteq> 0xffff") auto
  qed
  then obtain g where g: "tbs q' = (tbs q)(t := (tbs q4 t)\<lparr>tb_next := g\<rparr>)" by blast
  show "tbs q' u = tbs q u" if "u \<noteq> t" for u using g that by simp
  show "linked_block t (page_bits pc) a1 (tbs q t) (tbs q' t)" by (simp add: g f4 linked_block_def less_2_cases_iff)
  show "page_next (tbs q' u) = page_next (tbs q3 u)" for u by (simp add: g f4 f)
  show "phys_hash_next (tbs q' t) = tb_phys_hash q (tb_phys_hash_func pc)" by (simp add: g f4)
  show "\<forall>n<2. tb_next_offset (tbs q' t) n \<noteq> 0xffff \<longrightarrow> tb_next (tbs q' t) n = exit_stub (tbs q' t) n"
    unfolding q' q5_def by (auto simp: less_2_cases_iff exit_stub_def)
  have "page_first q5 = page_first q3" "tb_phys_hash q5 = tb_phys_hash q3" "tb_jmp_cache q5 = tb_jmp_cache q3"
    by (simp_all add: q5_def q4_def)
  then show "page_first q' = page_first q3" "tb_phys_hash q' = (tb_phys_hash q)(tb_phys_hash_func pc := Some t)"
    "tb_jmp_cache q' = tb_jmp_cache q"
    unfolding q' by (simp_all add: q3_def link_pages_block link_hash_effect)
qed

lemma link_pages_chains:
  assumes C: "chains (page_nxt q) (page_first q) (\<lambda>_. None) UNIV P" and t: "\<And>n i. (t, n) \<notin> set (P i)"
  obtains P' where "chains (page_nxt (link_pages t a0 a1 q)) (page_first (link_pages t a0 a1 q)) (\<lambda>_. None) UNIV P'"
    "\<And>i. set (P' i) = set (P i) \<union> (if i = drop_bit 12 a0 then {(t, 0)} else {}) \<union>
      (if a1 \<noteq> -1 \<and> i = drop_bit 12 a1 then {(t, 1)} else {})"
proof -
  define P1 where "P1 = P(drop_bit 12 a0 := (t, 0) # P (drop_bit 12 a0))"
  define q2 where "q2 = tb_alloc_page t 0 a0 q"
  have c2: "chains (page_nxt q2) (page_first q2) (\<lambda>_. None) UNIV P1"
    unfolding q2_def P1_def by (rule tb_alloc_page_chains [OF C t])
  have n1: "(t, 1) \<notin> set (P1 i)" for i using t by (auto simp: P1_def)
  show ?thesis
  proof (cases "a1 = -1")
    case True
    have "chains (page_nxt (link_pages t a0 a1 q)) (page_first (link_pages t a0 a1 q)) (\<lambda>_. None) UNIV P1"
      by (rule chains_cong [OF c2]) (simp_all add: link_pages_def True q2_def)
    then show ?thesis using True by (intro that [of P1]) (auto simp: P1_def)
  next
    case False
    have "link_pages t a0 a1 q = tb_alloc_page t 1 a1 q2" using False by (simp add: link_pages_def q2_def)
    then have "chains (page_nxt (link_pages t a0 a1 q)) (page_first (link_pages t a0 a1 q)) (\<lambda>_. None) UNIV
        (P1(drop_bit 12 a1 := (t, 1) # P1 (drop_bit 12 a1)))"
      using tb_alloc_page_chains [OF c2 n1, where a = a1] by (simp only:)
    then show ?thesis by (rule that) (use False in \<open>auto simp: P1_def\<close>)
  qed
qed

lemma tb_link_phys_shape:
  assumes S: "tb_shape q H P J L" and t: "t \<notin> L"
    and pc: "offset_bits pc = offset_bits (tb_pc (tbs q t))"
    and a1: "a1 = -1 \<or> offset_bits a1 = 0 \<and> a1 \<noteq> page_bits pc"
  obtains H' P' J' where "tb_shape (tb_link_phys t pc a1 q) H' P' J' (insert t L)"
    "\<And>u. u \<noteq> t \<Longrightarrow> tbs (tb_link_phys t pc a1 q) u = tbs q u"
    "linked_block t (page_bits pc) a1 (tbs q t) (tbs (tb_link_phys t pc a1 q) t)" "J' = J(t := [])"
    "\<forall>n<2. tb_next_offset (tbs (tb_link_phys t pc a1 q) t) n \<noteq> 0xffff \<longrightarrow>
      tb_next (tbs (tb_link_phys t pc a1 q) t) n = exit_stub (tbs (tb_link_phys t pc a1 q) t) n"
proof -
  define q' where "q' = tb_link_phys t pc a1 q"
  let ?h = "tb_phys_hash_func pc"
  define q1 where "q1 = link_hash ?h t q"
  note e = tb_link_phys_effect [where t = t and pc = pc and ?a1.0 = a1 and q = q, folded q'_def q1_def]
  from S have h: "hash_shape q H L" and p: "page_shape q P L" and jm: "jmp_shape q J L"
    and c: "\<And>h u. tb_jmp_cache q h = Some u \<Longrightarrow> u \<in> L \<and> h = tb_jmp_cache_hash_func (tb_pc (tbs q u))"
    and ok: "\<And>u. u \<in> L \<Longrightarrow> pages_ok (tbs q u)" and fin: "finite L"
    by (auto simp: tb_shape_def)
  have old: "u \<in> L \<Longrightarrow> tbs q' u = tbs q u" for u using e(1) t by metis
  have pa: "page_addr (tbs q' t) 0 = page_bits pc" "page_addr (tbs q' t) 1 = a1" "tb_pc (tbs q' t) = tb_pc (tbs q t)"
    using e(2) by (simp_all add: linked_block_def)
  have "phys_pc_of (tbs q' t) = pc" using pa pc page_plus_offset [of pc] by (simp add: phys_pc_of_def)
  then have ht: "hash_of (tbs q' t) = ?h" by (simp add: hash_of_def)
  have "hash_shape q' (H(?h := t # H ?h)) (insert t L)"
  proof -
    have m: "set (H k) = {u \<in> L. hash_of (tbs q u) = k}" for k using h by (simp add: hash_shape_def)
    have "chains (hash_nxt q') (tb_phys_hash q') (\<lambda>_. None) UNIV (H(?h := t # H ?h))"
      by (rule chains_push [OF h [unfolded hash_shape_def, THEN conjunct1]]) (use m t e(1,5,6) in auto)
    moreover have "set ((H(?h := t # H ?h)) k) = {u \<in> insert t L. hash_of (tbs q' u) = k}" for k
      using m ht t old by auto
    ultimately show ?thesis by (simp add: hash_shape_def)
  qed
  moreover obtain P' where "page_shape q' P' (insert t L)"
  proof -
    have m: "set (P i) = {(u, n). u \<in> L \<and> on_page (tbs q u) n i}" for i using p by (simp add: page_shape_def)
    have "chains (page_nxt q1) (page_first q1) (\<lambda>_. None) UNIV P"
      by (rule chains_cong [OF p [unfolded page_shape_def, THEN conjunct1]]) (simp_all add: q1_def link_hash_effect)
    then obtain P' where P': "chains (page_nxt (link_pages t (page_bits pc) a1 q1))
        (page_first (link_pages t (page_bits pc) a1 q1)) (\<lambda>_. None) UNIV P'"
      "\<And>i. set (P' i) = set (P i) \<union> (if i = drop_bit 12 (page_bits pc) then {(t, 0)} else {}) \<union>
        (if a1 \<noteq> -1 \<and> i = drop_bit 12 a1 then {(t, 1)} else {})"
      by (rule link_pages_chains [of q1 P t "page_bits pc" a1]) (use m t in auto)
    have "set (P' i) = {(u, n). u \<in> insert t L \<and> on_page (tbs q' u) n i}" for i
      unfolding P'(2) m using old t pa by (auto simp: on_page_def less_2_cases_iff)
    then show ?thesis using that [of P'] P'(1) e(3,4) by (simp add: page_shape_def)
  qed
  moreover have "jmp_shape q' (J(t := [])) (insert t L)"
  proof -
    have C: "chains (jmp_nxt q) (jmp_head_of q) (\<lambda>t. Some (t, 2)) L J"
      and sub: "\<And>u. u \<in> L \<Longrightarrow> set (J u) \<subseteq> L \<times> {0, 1}"
      and on: "\<And>u n. u \<in> L \<Longrightarrow> n < 2 \<Longrightarrow> jmp_nxt q (u, n) \<noteq> None \<longleftrightarrow> (\<exists>v\<in>L. (u, n) \<in> set (J v))"
      using jm unfolding jmp_shape_def by blast+
    have in_L: "fst y \<in> L" if "u \<in> L" "y \<in> set (J u)" for u y using sub [OF that(1)] that(2) by auto
    have "chains (jmp_nxt q') (jmp_head_of q') (\<lambda>t. Some (t, 2)) (insert t L) (J(t := []))"
      by (rule chains_new [OF C t]) (use old in_L e(2) in \<open>simp_all add: linked_block_def\<close>)
    moreover have "jmp_nxt q' (u, n) \<noteq> None \<longleftrightarrow> (\<exists>v\<in>insert t L. (u, n) \<in> set ((J(t := [])) v))"
      if "u \<in> insert t L" "n < 2" for u n
    proof (cases "u = t")
      case True
      have "(t, n) \<notin> set ((J(t := [])) v)" if "v \<in> insert t L" for v using that in_L [of v "(t, n)"] t by auto
      then have "\<not> (\<exists>v\<in>insert t L. (u, n) \<in> set ((J(t := [])) v))" unfolding True by metis
      moreover have "jmp_nxt q' (u, n) = None" using \<open>n < 2\<close> e(2) True by (simp add: linked_block_def)
      ultimately show ?thesis by (simp only: simp_thms)
    next
      case False
      have "(\<exists>v\<in>insert t L. (u, n) \<in> set ((J(t := [])) v)) \<longleftrightarrow> (\<exists>v\<in>L. (u, n) \<in> set (J v))" using t by auto
      then show ?thesis using that False on [of u n] e(1) [of u] by simp
    qed
    moreover have "set ((J(t := [])) u) \<subseteq> insert t L \<times> {0, 1}" if "u \<in> insert t L" for u
      using that sub [of u] by auto
    ultimately show ?thesis by (simp add: jmp_shape_def)
  qed
  moreover have "u \<in> insert t L \<and> k = tb_jmp_cache_hash_func (tb_pc (tbs q' u))" if "tb_jmp_cache q' k = Some u" for k u
    using c [of k u] that e(7) old by auto
  moreover have "pages_ok (tbs q' u)" if "u \<in> insert t L" for u
  proof (cases "u = t")
    case True
    have "offset_bits (page_bits pc) = 0" by (simp add: and.assoc)
    then show ?thesis using True a1 pa by (auto simp: pages_ok_def)
  next
    case False
    then show ?thesis using that ok old by auto
  qed
  ultimately have "tb_shape q' (H(?h := t # H ?h)) P' (J(t := [])) (insert t L)" using fin by (simp add: tb_shape_def)
  then show ?thesis unfolding q'_def by (rule that) (use e(1,2,8) in \<open>simp_all add: q'_def\<close>)
qed

end
