(* ===== verification/TBRuns.thy ===== *)
theory TBRuns
  imports TBStore TBLink
begin

text \<open>
  Histories of the translation cache: every sequence of translations, patched jumps, stores to
  guest code, interrupts and flushes keeps the cache consistent.
\<close>

section \<open>Where the jumps lead\<close>

text \<open>
  A patched jump leads to the start of its target, an unpatched one to the exit of its own block.
\<close>

definition jumps_sound :: "'a tb_ctx_scheme \<Rightarrow> (nat \<Rightarrow> tb_ref list) \<Rightarrow> nat set \<Rightarrow> bool" where
  "jumps_sound q J L \<longleftrightarrow>
     (\<forall>u\<in>L. \<forall>(v, n)\<in>set (J u). tb_next (tbs q v) n = tc_ptr (tbs q u)) \<and>
     (\<forall>v\<in>L. \<forall>n<2. tb_next_offset (tbs q v) n \<noteq> 0xffff \<longrightarrow> jmp_next (tbs q v) n = None \<longrightarrow>
        tb_next (tbs q v) n = exit_stub (tbs q v) n)"

lemma jumps_sound_cuts:
  assumes S: "jumps_sound q J L" and J: "jmp_shape q' J' (L - T)" and C: "cuts T q J q' J'"
  shows "jumps_sound q' J' (L - T)"
  unfolding jumps_sound_def
proof (intro conjI ballI allI impI)
  have same: "tc_ptr (tbs q' v) = tc_ptr (tbs q v)" "tb_next_offset (tbs q' v) = tb_next_offset (tbs q v)" for v
    using C by (simp_all add: cuts_def unlinks_def same_exits_def)
  fix u r assume u: "u \<in> L - T" "r \<in> set (J' u)"
  obtain v n where r: "r = (v, n)" by fastforce
  have v: "v \<in> L - T" "n < 2" using J u r unfolding jmp_shape_def by fastforce+
  have "jmp_nxt q' (v, n) \<noteq> None" using J u v r unfolding jmp_shape_def by blast
  then have "tb_next (tbs q' v) n = tb_next (tbs q v) n" using C by (simp add: cuts_def unlinks_def)
  moreover have "(v, n) \<in> set (J u)" using C u r unfolding cuts_def by blast
  then have "tb_next (tbs q v) n = tc_ptr (tbs q u)" using S u(1) unfolding jumps_sound_def by blast
  ultimately show "case r of (v, n) \<Rightarrow> tb_next (tbs q' v) n = tc_ptr (tbs q' u)" using same r by simp
next
  have same: "tc_ptr (tbs q' v) = tc_ptr (tbs q v)" "tb_next_offset (tbs q' v) = tb_next_offset (tbs q v)" for v
    using C by (simp_all add: cuts_def unlinks_def same_exits_def)
  fix v and n :: nat
  assume v: "v \<in> L - T" "n < 2" "tb_next_offset (tbs q' v) n \<noteq> 0xffff" "jmp_next (tbs q' v) n = None"
  have "tb_next (tbs q' v) n = exit_stub (tbs q v) n \<or>
      jmp_next (tbs q v) n = None \<and> tb_next (tbs q' v) n = tb_next (tbs q v) n"
    using C v by (simp add: cuts_def unlinks_def)
  moreover have "tb_next (tbs q v) n = exit_stub (tbs q v) n" if "jmp_next (tbs q v) n = None"
    using S v that same(2) unfolding jumps_sound_def by simp
  ultimately show "tb_next (tbs q' v) n = exit_stub (tbs q' v) n" using same by (auto simp: exit_stub_def)
qed

section \<open>The invariant\<close>

text \<open>
  The code of the blocks lies in the buffer in the order of the blocks. A block whose translation
  was given up may have no code; a live block has some.
\<close>

definition code_sorted :: "('a tb_ctx_scheme) trans \<Rightarrow> 'a tb_ctx_scheme \<Rightarrow> nat set \<Rightarrow> bool" where
  "code_sorted X q L \<longleftrightarrow> code_gen_buffer X \<le> code_gen_ptr q \<and>
     (\<forall>i<nb_tbs q. code_gen_buffer X \<le> tc_ptr (tbs q i) \<and> tc_ptr (tbs q i) \<le> code_gen_ptr q) \<and>
     (\<forall>i<nb_tbs q. \<forall>j<i. tc_ptr (tbs q j) \<le> tc_ptr (tbs q i)) \<and>
     (\<forall>t\<in>L. tc_ptr (tbs q t) < code_gen_ptr q \<and> (\<forall>j<nb_tbs q. t < j \<longrightarrow> tc_ptr (tbs q t) < tc_ptr (tbs q j)))"

definition cache_inv :: "('a tb_ctx_scheme) trans \<Rightarrow> 'a tb_ctx_scheme \<Rightarrow> nat set \<Rightarrow> bool" where
  "cache_inv X q L \<longleftrightarrow> (\<exists>H P J. tb_shape q H P J L \<and> jumps_sound q J L) \<and>
     (\<forall>t\<in>L. block_ok (tbs q t) \<and> t < nb_tbs q) \<and> current_ok q L \<and> code_sorted X q L \<and> marked q L"

text \<open>
  A block as the translator leaves it, before it is linked: its code was read at the physical
  address \<open>pc\<close>, and at the second page \<open>a1\<close> if it goes past the first; its code starts at the
  free part of the buffer.
\<close>

definition new_block :: "u32 \<Rightarrow> u32 \<Rightarrow> TranslationBlock \<Rightarrow> bool" where
  "new_block pc a1 b \<longleftrightarrow> offset_bits pc = offset_bits (tb_pc b) \<and> 0 < tb_size b \<and> unat (tb_size b) \<le> TARGET_PAGE_SIZE \<and>
     (a1 = -1 \<longleftrightarrow> unat (offset_bits (tb_pc b)) + unat (tb_size b) \<le> TARGET_PAGE_SIZE) \<and>
     (a1 = -1 \<or> offset_bits a1 = 0 \<and> a1 \<noteq> page_bits pc \<and> a1 < TARGET_PAGE_MASK) \<and> page_bits pc < TARGET_PAGE_MASK"

definition untouched :: "u32 \<Rightarrow> u32 \<Rightarrow> 'a tb_ctx_scheme \<Rightarrow> nat set \<Rightarrow> nat set" where
  "untouched s e q L = {t \<in> L. \<forall>a. s \<le> a \<and> a < e \<longrightarrow> \<not> tb_covers (tbs q t) a}"

text \<open>
  The histories. The set is the set of live blocks. A translation may be given up after the block
  was allocated, when reading guest code raises a page fault. The last rule stands for everything
  else the emulator does: it does not change the cache.
\<close>

inductive cache_run :: "('a tb_ctx_scheme) trans \<Rightarrow> 'a tb_ctx_scheme \<Rightarrow> nat set \<Rightarrow> bool" for X where
  flush: "current_tb q = None \<Longrightarrow> cache_run X (tb_flush X q) {}"
| translate: "cache_run X q L \<Longrightarrow> tb_alloc X vpc q = Some (t, q1) \<Longrightarrow> new_block pc a1 b \<Longrightarrow>
    tc_ptr b = code_gen_ptr q \<Longrightarrow> code_gen_ptr q < p \<Longrightarrow>
    cache_run X (tb_link_phys t pc a1 (set_tb t (\<lambda>_. b) (q1\<lparr>code_gen_ptr := p\<rparr>))) (insert t L)"
| abandon: "cache_run X q L \<Longrightarrow> tb_alloc X vpc q = Some (t, q1) \<Longrightarrow> tc_ptr b = code_gen_ptr q \<Longrightarrow> code_gen_ptr q \<le> p \<Longrightarrow>
    cache_run X (set_tb t (\<lambda>_. b) (q1\<lparr>code_gen_ptr := p\<rparr>)) L"
| jump: "cache_run X q L \<Longrightarrow> t \<in> L \<Longrightarrow> u \<in> L \<Longrightarrow> n < 2 \<Longrightarrow> cache_run X (tb_add_jump t n u q) L"
| remember: "cache_run X q L \<Longrightarrow> t \<in> L \<Longrightarrow>
    cache_run X (q\<lparr>tb_jmp_cache := (tb_jmp_cache q)(tb_jmp_cache_hash_func (tb_pc (tbs q t)) := Some t)\<rparr>) L"
| forget: "cache_run X q L \<Longrightarrow> \<forall>h. c h = None \<or> c h = tb_jmp_cache q h \<Longrightarrow> cache_run X (q\<lparr>tb_jmp_cache := c\<rparr>) L"
| enter: "cache_run X q L \<Longrightarrow> t \<in> L \<Longrightarrow> cache_run X (q\<lparr>current_tb := Some t\<rparr>) L"
| leave: "cache_run X q L \<Longrightarrow> cache_run X (q\<lparr>current_tb := None\<rparr>) L"
| store: "cache_run X q L \<Longrightarrow> page_range s e \<Longrightarrow> tb_invalidate_phys_page_range_full X s e w q = Some (Done () q') \<Longrightarrow>
    cache_run X q' (untouched s e q L)"
| interrupt: "cache_run X q L \<Longrightarrow> cpu_interrupt_tb m q = Some q' \<Longrightarrow> cache_run X q' L"
| other: "cache_run X q L \<Longrightarrow> cache_of q' = cache_of q \<Longrightarrow> current_tb q' = current_tb q \<Longrightarrow> cache_run X q' L"

lemma cache_invE:
  assumes "cache_inv X q L"
  obtains H P J where "tb_shape q H P J L" "jumps_sound q J L" "\<forall>t\<in>L. block_ok (tbs q t)"
    "\<forall>t\<in>L. t < nb_tbs q" "current_ok q L" "code_sorted X q L" "marked q L"
  using assms unfolding cache_inv_def by blast

section \<open>Stores and interrupts\<close>

lemma block_ok_same: "ident b' = ident b \<Longrightarrow> block_ok b' = block_ok b"
  by (simp add: ident_def block_ok_def pages_ok_def)

lemma code_sorted_same: "same_blocks q q' \<Longrightarrow> code_sorted X q L \<Longrightarrow> L' \<subseteq> L \<Longrightarrow> code_sorted X q' L'"
  by (auto simp: same_blocks_def code_sorted_def ident_def)

text \<open>The blocks that the loop hits are the live blocks with a byte in the range.\<close>

lemma hits_untouched:
  assumes "tb_shape q H P J L" "\<forall>t\<in>L. block_ok (tbs q t)" "page_range s e"
  shows "L - hits s e q (P (drop_bit 12 s)) = untouched s e q L"
proof -
  have "set (P (drop_bit 12 s)) = {(t, n). t \<in> L \<and> on_page (tbs q t) n (drop_bit 12 s)}"
    using assms(1) by (simp add: tb_shape_def page_shape_def)
  then have "t \<in> hits s e q (P (drop_bit 12 s)) \<longleftrightarrow> (\<exists>a. s \<le> a \<and> a < e \<and> tb_covers (tbs q t) a)" if "t \<in> L" for t
    using covers_range [OF bspec [OF assms(2) that] assms(3)] that by (auto simp: hits_def)
  then show ?thesis by (auto simp: untouched_def)
qed

lemma cache_inv_shrink:
  assumes I: "cache_inv X q L" and S: "tb_shape q' H P J' (L - T)" and c: "current_ok q' (L - T)"
    and sb: "same_blocks q q'" and m: "marked q' (L - T)"
    and J: "tb_shape q H0 P0 J L" "jumps_sound q J L" "cuts T q J q' J'"
  shows "cache_inv X q' (L - T)"
proof -
  have "jumps_sound q' J' (L - T)"
    using S by (intro jumps_sound_cuts [OF J(2) _ J(3)]) (simp add: tb_shape_def)
  moreover have "block_ok (tbs q' t) \<and> t < nb_tbs q'" if "t \<in> L - T" for t
    using that I sb block_ok_same [of "tbs q' t" "tbs q t"] by (auto simp: cache_inv_def same_blocks_def)
  moreover have "code_sorted X q' (L - T)"
    by (rule code_sorted_same [OF sb, of X L]) (use I in \<open>auto simp: cache_inv_def\<close>)
  ultimately show ?thesis using S c m unfolding cache_inv_def by blast
qed

lemma store_inv:
  assumes X: "restore_ok X" and I: "cache_inv X q L" and r: "page_range s e"
    and d: "tb_invalidate_phys_page_range_full X s e w q = Some (Done () q')"
  shows "cache_inv X q' (untouched s e q L)"
proof -
  obtain H P J where h: "tb_shape q H P J L" "jumps_sound q J L"
    "\<forall>t\<in>L. block_ok (tbs q t)" "\<forall>t\<in>L. t < nb_tbs q" "current_ok q L" "code_sorted X q L" "marked q L"
    by (rule cache_invE [OF I])
  note hu = hits_untouched [OF h(1,3) r]
  obtain q4 H' P' J' and sm :: smc where g: "tb_shape q4 H' P' J' (L - hits s e q (P (drop_bit 12 s)))"
    "current_ok q4 (L - hits s e q (P (drop_bit 12 s)))" "same_blocks q q4" "\<not> w \<longrightarrow> \<not> modified sm"
    "cuts (hits s e q (P (drop_bit 12 s))) q J q4 J'"
    "marked q L \<longrightarrow> marked q4 (L - hits s e q (P (drop_bit 12 s)))"
    "tb_invalidate_phys_page_range_full X s e w q =
      (if modified sm then
         and_then (tb_gen_code X (current_pc sm) (current_cs_base sm) (current_flags sm) CF_SINGLE_INSN
                     (q4\<lparr>current_tb := None\<rparr>)) (\<lambda>_ q5. Some (Longjmp q5))
       else Some (Done () q4))"
    by (rule invalidate_range_shape [OF X h(1,5)])
  have "q' = q4"
    using d g(7) by (cases "modified sm") (auto simp: and_then_def split: option.splits result.splits)
  then show ?thesis using cache_inv_shrink [OF I g(1,2,3) _ h(1,2) g(5)] g(6) h(7) hu by simp
qed

text \<open>A store that does not come from translated code always returns.\<close>

lemma store_returns:
  assumes X: "restore_ok X" and I: "cache_inv X q L"
  shows "\<exists>q'. tb_invalidate_phys_page_range_full X s e False q = Some (Done () q') \<and> same_blocks q q'"
proof -
  obtain H P J where h: "tb_shape q H P J L" "jumps_sound q J L"
    "\<forall>t\<in>L. block_ok (tbs q t)" "\<forall>t\<in>L. t < nb_tbs q" "current_ok q L" "code_sorted X q L" "marked q L"
    by (rule cache_invE [OF I])
  show ?thesis by (rule invalidate_range_shape [OF X h(1,5), of s e False]) auto
qed

lemma interrupt_inv:
  assumes I: "cache_inv X q L"
  obtains q' where "cpu_interrupt_tb m q = Some q'" "cache_inv X q' L"
proof -
  obtain H P J where h: "tb_shape q H P J L" "jumps_sound q J L"
    "\<forall>t\<in>L. block_ok (tbs q t)" "\<forall>t\<in>L. t < nb_tbs q" "current_ok q L" "code_sorted X q L" "marked q L"
    by (rule cache_invE [OF I])
  obtain q' J' where g: "cpu_interrupt_tb m q = Some q'" "tb_shape q' H P J' L" "same_blocks q q'" "current_ok q' L"
    "cuts {} q J q' J'"
    by (rule cpu_interrupt_shape [OF h(1,5)])
  show ?thesis using that [OF g(1)] cache_inv_shrink [OF I _ _ g(3) _ h(1,2) g(5), of H P] g(2,4)
      marked_fewer [OF h(7) fewer_l1 [OF interrupt_l1 [OF g(1)]] g(3) subset_refl] by simp
qed

section \<open>Translations and patched jumps\<close>

lemma cache_inv_same:
  assumes "cache_inv X q L" "cache_of q' = cache_of q" "current_tb q' = current_tb q"
  shows "cache_inv X q' L"
proof -
  have t: "tbs q' = tbs q" "nb_tbs q' = nb_tbs q" "code_gen_ptr q' = code_gen_ptr q" "l1_map q' = l1_map q"
    using assms(2) by (simp_all add: cache_of_def)
  have "marked q' L = marked q L" using t(1,4) by (simp add: marked_def page_find_def)
  moreover  have "jumps_sound q' J L = jumps_sound q J L" for J using t by (simp add: jumps_sound_def)
  moreover have "code_sorted X q' L = code_sorted X q L" using t by (simp add: code_sorted_def)
  ultimately show ?thesis using assms same_cache(1,2) [OF assms(2,3)] unfolding cache_inv_def t by simp
qed

text \<open>Fields that belong to the tables of the cache, apart from the blocks.\<close>

lemma tb_alloc_effect:
  assumes "tb_alloc X vpc q = Some (t, q1)"
  shows "t = nb_tbs q" "\<exists>b. q1 = set_tb t (\<lambda>_. b) (q\<lparr>nb_tbs := nb_tbs q + 1\<rparr>)"
  using assms by (auto simp: tb_alloc_def set_tb_def split: if_splits)

text \<open>The content of a block that is not live does not matter.\<close>

lemma set_dead_shape:
  assumes S: "tb_shape q H P J L" and t: "t \<notin> L"
  shows "tb_shape (set_tb t (\<lambda>_. b) q) H P J L"
proof -
  let ?q = "set_tb t (\<lambda>_. b) q"
  from S have h: "hash_shape q H L" and p: "page_shape q P L" and jm: "jmp_shape q J L" by (simp_all add: tb_shape_def)
  have old: "u \<in> L \<Longrightarrow> tbs ?q u = tbs q u" for u using t by auto
  have mh: "set (H k) = {u \<in> L. hash_of (tbs q u) = k}" for k using h by (simp add: hash_shape_def)
  have mp: "set (P i) = {(u, n). u \<in> L \<and> on_page (tbs q u) n i}" for i using p by (simp add: page_shape_def)
  have "chains (hash_nxt ?q) (tb_phys_hash ?q) (\<lambda>_. None) UNIV H"
    by (rule chains_cong [OF h [unfolded hash_shape_def, THEN conjunct1]]) (use mh t in auto)
  moreover have "{u \<in> L. hash_of (tbs ?q u) = k} = {u \<in> L. hash_of (tbs q u) = k}" for k using t by auto
  ultimately have h': "hash_shape ?q H L" using mh unfolding hash_shape_def by simp
  have "chains (page_nxt ?q) (page_first ?q) (\<lambda>_. None) UNIV P"
    by (rule chains_cong [OF p [unfolded page_shape_def, THEN conjunct1]]) (use mp t in auto)
  moreover have "{(u, n). u \<in> L \<and> on_page (tbs ?q u) n i} = {(u, n). u \<in> L \<and> on_page (tbs q u) n i}" for i
    using t by (auto split: if_splits)
  ultimately have p': "page_shape ?q P L" using mp unfolding page_shape_def by simp
  have sub: "set (J u) \<subseteq> L \<times> {0, 1}" if "u \<in> L" for u using jm that unfolding jmp_shape_def by blast
  have "chains (jmp_nxt ?q) (jmp_head_of ?q) (\<lambda>t. Some (t, 2)) L J"
  proof (rule chains_cong [OF jm [unfolded jmp_shape_def, THEN conjunct1]])
    fix k x assume "k \<in> L" "x \<in> set (J k)"
    then have "fst x \<in> L" using sub by fastforce
    then show "jmp_nxt ?q x = jmp_nxt q x" by (simp only: old)
  qed (simp only: old)
  moreover have "jmp_nxt ?q (u, n) = jmp_nxt q (u, n)" if "u \<in> L" for u n using old [OF that] by (simp only: fst_conv snd_conv)
  moreover have "jmp_nxt q (u, n) \<noteq> None \<longleftrightarrow> (\<exists>v\<in>L. (u, n) \<in> set (J v))" if "u \<in> L" "n < 2" for u n
    using jm that unfolding jmp_shape_def by blast
  ultimately have j': "jmp_shape ?q J L" using sub unfolding jmp_shape_def by simp
  show ?thesis using S h' p' j' t unfolding tb_shape_def by auto
qed

lemma tb_shape_fields: "tb_shape (q\<lparr>nb_tbs := n\<rparr>) H P J L = tb_shape q H P J L"
  "tb_shape (q\<lparr>code_gen_ptr := c\<rparr>) H P J L = tb_shape q H P J L"
  "tb_shape (q\<lparr>current_tb := d\<rparr>) H P J L = tb_shape q H P J L"
  by (simp_all add: tb_shape_def hash_shape_def page_shape_def jmp_shape_def page_find_def)

lemma jumps_sound_old:
  assumes "jmp_shape q J L" "jumps_sound q J L" "\<And>u. u \<in> L \<Longrightarrow> tbs q' u = tbs q u"
  shows "jumps_sound q' J L"
proof -
  have "v \<in> L" if "u \<in> L" "(v, n) \<in> set (J u)" for u v n using assms(1) that unfolding jmp_shape_def by fastforce
  then show ?thesis using assms(2,3) unfolding jumps_sound_def by fastforce
qed

lemma link_keeps:
  "current_tb (tb_link_phys t pc a1 q) = current_tb q" "nb_tbs (tb_link_phys t pc a1 q) = nb_tbs q"
  "code_gen_ptr (tb_link_phys t pc a1 q) = code_gen_ptr q"
proof -
  have set_tb: "current_tb (set_tb u f p) = current_tb p" "code_gen_ptr (set_tb u f p) = code_gen_ptr p" for u f and p :: "'b tb_ctx_scheme"
    by (simp_all add: set_tb_def)
  have prot: "current_tb (tlb_protect_code a p) = current_tb p" "nb_tbs (tlb_protect_code a p) = nb_tbs p"
    "code_gen_ptr (tlb_protect_code a p) = code_gen_ptr p" for a and p :: "'b tb_ctx_scheme"
    using protect_cache [of a p] by (simp_all add: cache_of_def)
  have alloc: "current_tb (tb_alloc_page u n a p) = current_tb p" "nb_tbs (tb_alloc_page u n a p) = nb_tbs p"
    "code_gen_ptr (tb_alloc_page u n a p) = code_gen_ptr p" for u n a and p :: "'b tb_ctx_scheme"
    by (simp_all add: tb_alloc_page_def Let_def set_tb prot page_find_alloc_def split: option.split)
  show "current_tb (tb_link_phys t pc a1 q) = current_tb q" "nb_tbs (tb_link_phys t pc a1 q) = nb_tbs q"
    "code_gen_ptr (tb_link_phys t pc a1 q) = code_gen_ptr q"
    by (simp_all add: tb_link_phys_def Let_def set_tb alloc tb_reset_jump_def tb_set_jmp_target_def)
qed

text \<open>The bitmaps of the pages of a new block are dropped.\<close>

lemma tb_alloc_page_bms: "bms (tb_alloc_page t n a q) i = (if i = drop_bit 12 a then None else bms q i)"
proof -
  have prot: "page_find i (tlb_protect_code a p) = page_find i p" for i a and p :: "'a tb_ctx_scheme"
    using protect_cache(1) [of a p] by (simp add: cache_of_def page_find_def)
  show ?thesis
    by (auto simp: tb_alloc_page_def Let_def prot page_find_set_page page_find_alloc_effect invalidate_page_bitmap_def
        empty_page_def)
qed

lemma link_bms: "bms (tb_link_phys t pc a1 q) i =
    (if i = drop_bit 12 (page_bits pc) \<or> a1 \<noteq> -1 \<and> i = drop_bit 12 a1 then None else bms q i)"
proof -
  let ?q1 = "link_hash (tb_phys_hash_func pc) t q"
  define q3 where "q3 = link_pages t (page_bits pc) a1 ?q1"
  define q4 where "q4 = set_tb t (\<lambda>b. b\<lparr>jmp_first := Some (t, 2), jmp_next := (jmp_next b)(0 := None, 1 := None)\<rparr>) q3"
  define q5 where "q5 = (if tb_next_offset (tbs q4 t) 0 \<noteq> 0xffff then tb_reset_jump t 0 q4 else q4)"
  have q': "tb_link_phys t pc a1 q = (if tb_next_offset (tbs q5 t) 1 \<noteq> 0xffff then tb_reset_jump t 1 q5 else q5)"
    by (simp only: tb_link_phys_def Let_def q5_def q4_def q3_def link_pages_def link_hash_def)
  have "l1_map (tb_link_phys t pc a1 q) = l1_map q3" by (simp add: q' q5_def q4_def)
  then have "bms (tb_link_phys t pc a1 q) i = bms q3 i" by (simp add: page_find_def)
  also have "bms q3 i = (if i = drop_bit 12 (page_bits pc) \<or> a1 \<noteq> -1 \<and> i = drop_bit 12 a1 then None else bms ?q1 i)"
  proof (cases "a1 = -1")
    case True
    then have "bms q3 i = bms (tb_alloc_page t 0 (page_bits pc) ?q1) i"
      unfolding q3_def link_pages_def Let_def by (simp only: if_False simp_thms set_tb_pages)
    then show ?thesis using True by (simp only: tb_alloc_page_bms) simp
  next
    case False
    then have "q3 = tb_alloc_page t 1 a1 (tb_alloc_page t 0 (page_bits pc) ?q1)"
      unfolding q3_def link_pages_def Let_def by (simp only: if_True simp_thms)
    then have "bms q3 i = (if i = drop_bit 12 a1 then None else if i = drop_bit 12 (page_bits pc) then None else bms ?q1 i)"
      by (simp only: tb_alloc_page_bms)
    then show ?thesis using False by (cases "i = drop_bit 12 a1") (simp_all only: simp_thms if_True if_False)
  qed
  also have "bms ?q1 i = bms q i" by (simp only: link_hash_effect)
  finally show ?thesis .
qed

lemma translate_inv:
  assumes I: "cache_inv X q L" and a: "tb_alloc X vpc q = Some (t, q1)" and b: "new_block pc a1 b"
    and c: "tc_ptr b = code_gen_ptr q" "code_gen_ptr q < p"
  shows "cache_inv X (tb_link_phys t pc a1 (set_tb t (\<lambda>_. b) (q1\<lparr>code_gen_ptr := p\<rparr>))) (insert t L)"
proof -
  obtain H P J where h: "tb_shape q H P J L" "jumps_sound q J L"
    "\<forall>t\<in>L. block_ok (tbs q t)" "\<forall>t\<in>L. t < nb_tbs q" "current_ok q L" "code_sorted X q L" "marked q L"
    by (rule cache_invE [OF I])
  obtain b0 where t: "t = nb_tbs q" and q1: "q1 = set_tb t (\<lambda>_. b0) (q\<lparr>nb_tbs := nb_tbs q + 1\<rparr>)"
    using tb_alloc_effect [OF a] by blast
  define q2 where "q2 = set_tb t (\<lambda>_. b) (q1\<lparr>code_gen_ptr := p\<rparr>)"
  define q' where "q' = tb_link_phys t pc a1 q2"
  have dead: "t \<notin> L" using h(4) t by auto
  have S2: "tb_shape q2 H P J L"
    unfolding q2_def q1 using h(1) by (simp add: tb_shape_fields set_dead_shape dead)
  have old2: "u \<noteq> t \<Longrightarrow> tbs q2 u = tbs q u" "tbs q2 t = b" for u by (simp_all add: q2_def q1)
  have f2: "nb_tbs q2 = nb_tbs q + 1" "code_gen_ptr q2 = p" "current_tb q2 = current_tb q"
    by (simp_all add: q2_def q1 set_tb_def)
  have pc: "offset_bits pc = offset_bits (tb_pc (tbs q2 t))" "a1 = -1 \<or> offset_bits a1 = 0 \<and> a1 \<noteq> page_bits pc"
    using b by (auto simp: new_block_def old2)
  obtain H' P' J' where g: "tb_shape q' H' P' J' (insert t L)" "\<And>u. u \<noteq> t \<Longrightarrow> tbs q' u = tbs q2 u"
    "linked_block t (page_bits pc) a1 (tbs q2 t) (tbs q' t)" "J' = J(t := [])"
    "\<forall>n<2. tb_next_offset (tbs q' t) n \<noteq> 0xffff \<longrightarrow> tb_next (tbs q' t) n = exit_stub (tbs q' t) n"
    unfolding q'_def by (rule tb_link_phys_shape [OF S2 dead pc]) blast
  have old: "u \<noteq> t \<Longrightarrow> tbs q' u = tbs q u" for u using g(2) old2 by simp
  note f' = link_keeps [of t pc a1 q2, folded q'_def]
  have "jumps_sound q' J' (insert t L)"
  proof -
    have "jumps_sound q' J L"
    proof (rule jumps_sound_old [OF _ h(2)])
      show "jmp_shape q J L" using h(1) by (simp add: tb_shape_def)
    qed (use old dead in metis)
    then show ?thesis using g(5) dead unfolding jumps_sound_def g(4) by auto
  qed
  moreover have "block_ok (tbs q' t)"
  proof -
    have e: "tb_pc (tbs q' t) = tb_pc b" "tb_size (tbs q' t) = tb_size b" "page_addr (tbs q' t) 0 = page_bits pc"
      "page_addr (tbs q' t) 1 = a1" using g(3) by (simp_all add: linked_block_def old2)
    have "pages_ok (tbs q' t)" using g(1) by (simp add: tb_shape_def)
    then show ?thesis using b unfolding block_ok_def e new_block_def by (auto simp: less_2_cases_iff e(3) e(4) [simplified])
  qed
  moreover have "current_ok q' (insert t L)"
    unfolding current_ok_def unlinkable_def
  proof (intro allI impI conjI)
    fix d assume "current_tb q' = Some d"
    then have d: "unlinkable q L d" "d < nb_tbs q" using h(5) f'(1) f2(3) by (simp_all add: current_ok_def)
    then show "d < nb_tbs q'" using f'(2) f2(1) by simp
    have "tbs q' d = tbs q d" using d(2) t old by simp
    then show "d \<in> insert t L \<or> (\<forall>n<2. jmp_nxt q' (d, n) = None)" using d(1) by (simp add: unlinkable_def)
  qed
  moreover have "code_sorted X q' (insert t L)"
  proof -
    have t': "tc_ptr (tbs q' t) = code_gen_ptr q" using g(3) c by (simp add: linked_block_def old2)
    have lt: "\<forall>u\<in>L. u < t" using h(4) t by simp
    then have ne: "u \<in> L \<Longrightarrow> tbs q' u = tbs q u" for u using old by (metis less_irrefl)
    have "tc_ptr (tbs q' u) < p \<and> (\<forall>j<nb_tbs q + 1. u < j \<longrightarrow> tc_ptr (tbs q' u) < tc_ptr (tbs q' j))" if "u \<in> insert t L" for u
    proof (cases "u = t")
      case True
      then show ?thesis using t' c(2) t by simp
    next
      case False
      then have u: "u \<in> L" using that by blast
      then have "tc_ptr (tbs q u) < code_gen_ptr q" "\<forall>j<nb_tbs q. u < j \<longrightarrow> tc_ptr (tbs q u) < tc_ptr (tbs q j)"
        using h(6) by (simp_all add: code_sorted_def)
      then show ?thesis using ne [OF u] t' c(2) old by (auto simp: less_Suc_eq t [symmetric])
    qed
    moreover have "code_gen_buffer X \<le> p" using h(6) c(2) by (auto simp: code_sorted_def)
    moreover have "code_gen_buffer X \<le> tc_ptr (tbs q' i) \<and> tc_ptr (tbs q' i) \<le> p" if "i < nb_tbs q + 1" for i
      using that h(6) c(2) t' old [of i] by (cases "i = t") (auto simp: code_sorted_def t [symmetric] less_Suc_eq)
    moreover have "tc_ptr (tbs q' j) \<le> tc_ptr (tbs q' i)" if "i < nb_tbs q + 1" "j < i" for i j
      using that h(6) t' old [of i] old [of j] by (cases "i = t") (auto simp: code_sorted_def t [symmetric] less_Suc_eq)
    ultimately show ?thesis unfolding code_sorted_def f' f2 by blast
  qed
  moreover have "block_ok (tbs q' u) \<and> u < nb_tbs q'" if "u \<in> L" for u
  proof -
    have "u \<noteq> t" using that dead by blast
    then show ?thesis using that h(3,4) old [of u] f'(2) f2(1) by (simp add: less_SucI)
  qed
  moreover have "t < nb_tbs q'" using f'(2) f2(1) t by simp
  moreover have "marked q' (insert t L)"
    unfolding marked_def
  proof (intro allI impI conjI ballI)
    fix i tab assume "bms q' i = Some tab"
    then have i: "i \<noteq> drop_bit 12 (page_bits pc)" "a1 \<noteq> -1 \<longrightarrow> i \<noteq> drop_bit 12 a1" "bms q2 i = Some tab"
      using link_bms [where t = t and pc = pc and ?a1.0 = a1 and q = q2 and i = i, folded q'_def] by (metis option.distinct(1))+
    have "page_find i q2 = page_find i q" by (simp add: q2_def q1 page_find_def)
    then have tab: "bms q i = Some tab" using i(3) by (simp only:)
    then show "length tab = 512" using h(7) unfolding marked_def by blast
    fix u n k assume u: "u \<in> insert t L" "on_page (tbs q' u) n i" "in_span (tbs q' u) n k"
    have "page_addr (tbs q' t) 0 = page_bits pc" "page_addr (tbs q' t) 1 = a1" using g(3) by (simp_all add: linked_block_def)
    then have "u \<noteq> t" using u(2) i(1,2) by (auto simp: on_page_def less_2_cases_iff)
    then have "u \<in> L" "tbs q' u = tbs q u" using u(1) old by auto
    then show "tab_bit tab k" using h(7) tab u(2,3) unfolding marked_def by metis
  qed
  ultimately show ?thesis using g(1) unfolding cache_inv_def q'_def [symmetric] q2_def [symmetric] by blast
qed

lemma abandon_inv:
  assumes I: "cache_inv X q L" and a: "tb_alloc X vpc q = Some (t, q1)"
    and c: "tc_ptr b = code_gen_ptr q" "code_gen_ptr q \<le> p"
  shows "cache_inv X (set_tb t (\<lambda>_. b) (q1\<lparr>code_gen_ptr := p\<rparr>)) L"
proof -
  obtain H P J where h: "tb_shape q H P J L" "jumps_sound q J L"
    "\<forall>t\<in>L. block_ok (tbs q t)" "\<forall>t\<in>L. t < nb_tbs q" "current_ok q L" "code_sorted X q L" "marked q L"
    by (rule cache_invE [OF I])
  obtain b0 where t: "t = nb_tbs q" and q1: "q1 = set_tb t (\<lambda>_. b0) (q\<lparr>nb_tbs := nb_tbs q + 1\<rparr>)"
    using tb_alloc_effect [OF a] by blast
  define q2 where "q2 = set_tb t (\<lambda>_. b) (q1\<lparr>code_gen_ptr := p\<rparr>)"
  have dead: "t \<notin> L" using h(4) t by auto
  have S2: "tb_shape q2 H P J L"
    unfolding q2_def q1 using h(1) by (simp add: tb_shape_fields set_dead_shape dead)
  have old: "u \<noteq> t \<Longrightarrow> tbs q2 u = tbs q u" "tbs q2 t = b" for u by (simp_all add: q2_def q1)
  have f2: "nb_tbs q2 = nb_tbs q + 1" "code_gen_ptr q2 = p" "current_tb q2 = current_tb q"
    by (simp_all add: q2_def q1 set_tb_def)
  have "jumps_sound q2 J L"
  proof (rule jumps_sound_old [OF _ h(2)])
    show "jmp_shape q J L" using h(1) by (simp add: tb_shape_def)
  qed (use old dead in metis)
  moreover have "current_ok q2 L"
    unfolding current_ok_def unlinkable_def
  proof (intro allI impI conjI)
    fix d assume "current_tb q2 = Some d"
    then have d: "unlinkable q L d" "d < nb_tbs q" using h(5) f2(3) by (simp_all add: current_ok_def)
    then show "d < nb_tbs q2" using f2(1) by simp
    have "tbs q2 d = tbs q d" using d(2) t old by simp
    then show "d \<in> L \<or> (\<forall>n<2. jmp_nxt q2 (d, n) = None)" using d(1) by (simp add: unlinkable_def)
  qed
  moreover have "code_sorted X q2 L"
  proof -
    have "tc_ptr (tbs q2 u) < p \<and> (\<forall>j<nb_tbs q + 1. u < j \<longrightarrow> tc_ptr (tbs q2 u) < tc_ptr (tbs q2 j))" if u: "u \<in> L" for u
    proof -
      have "u \<noteq> t" using u dead by blast
      moreover have "tc_ptr (tbs q u) < code_gen_ptr q" "\<forall>j<nb_tbs q. u < j \<longrightarrow> tc_ptr (tbs q u) < tc_ptr (tbs q j)"
        using h(6) u by (simp_all add: code_sorted_def)
      ultimately show ?thesis using c old by (auto simp: less_Suc_eq t [symmetric])
    qed
    then show ?thesis using h(6) c unfolding code_sorted_def f2 by (auto simp: less_Suc_eq t [symmetric] old)
  qed
  moreover have "block_ok (tbs q2 u) \<and> u < nb_tbs q2" if "u \<in> L" for u
  proof -
    have "u \<noteq> t" using that dead by blast
    then show ?thesis using that h(3,4) old(1) [of u] f2(1) by (simp add: less_SucI)
  qed
  moreover have "marked q2 L"
    unfolding marked_def
  proof (intro allI impI conjI ballI)
    fix i tab assume "bms q2 i = Some tab"
    moreover have "page_find i q2 = page_find i q" by (simp add: q2_def q1 page_find_def)
    ultimately have tab: "bms q i = Some tab" by (simp only:)
    then show "length tab = 512" using h(7) unfolding marked_def by blast
    fix u n k assume u: "u \<in> L" "on_page (tbs q2 u) n i" "in_span (tbs q2 u) n k"
    then have "tbs q2 u = tbs q u" using old dead by metis
    then show "tab_bit tab k" using h(7) tab u unfolding marked_def by metis
  qed
  ultimately show ?thesis using S2 unfolding cache_inv_def q2_def [symmetric] by blast
qed

text \<open>A jump that is patched joins the list of its target.\<close>

lemma tb_add_jump_effect:
  assumes "jmp_next (tbs q t) n = None"
  shows "jmp_nxt (tb_add_jump t n u q) r = (if r = (t, n) then jmp_first (tbs q u) else jmp_nxt q r)"
    "jmp_first (tbs (tb_add_jump t n u q) v) = (if v = u then Some (t, n) else jmp_first (tbs q v))"
    "tb_next (tbs (tb_add_jump t n u q) v) m = (if v = t \<and> m = n then tc_ptr (tbs q u) else tb_next (tbs q v) m)"
    "tb_next_offset (tbs (tb_add_jump t n u q) v) = tb_next_offset (tbs q v)"
    "tc_ptr (tbs (tb_add_jump t n u q) v) = tc_ptr (tbs q v)" "jmps_only q (tb_add_jump t n u q)"
proof -
  define q1 where "q1 = tb_set_jmp_target t n (tc_ptr (tbs q u)) q"
  have q': "tb_add_jump t n u q = set_jmp (JmpFirst u) (Some (t, n)) (set_jmp (JmpNext t n) (jmp_first (tbs q u)) q1)"
    using assms by (simp add: tb_add_jump_def q1_def tb_set_jmp_target_def Let_def)
  have q1: "jmp_next (tbs q1 v) = jmp_next (tbs q v)" "jmp_first (tbs q1 v) = jmp_first (tbs q v)"
    "tb_next_offset (tbs q1 v) = tb_next_offset (tbs q v)" "tc_ptr (tbs q1 v) = tc_ptr (tbs q v)"
    "tb_next (tbs q1 v) m = (if v = t \<and> m = n then tc_ptr (tbs q u) else tb_next (tbs q v) m)" for v m
    by (simp_all add: q1_def tb_set_jmp_target_def)
  show "jmp_nxt (tb_add_jump t n u q) r = (if r = (t, n) then jmp_first (tbs q u) else jmp_nxt q r)"
    unfolding q' jmp_next_set_jmp q1 by (auto simp: prod_eq_iff)
  show "jmp_first (tbs (tb_add_jump t n u q) v) = (if v = u then Some (t, n) else jmp_first (tbs q v))"
    unfolding q' jmp_first_set_jmp q1 by auto
  show "tb_next (tbs (tb_add_jump t n u q) v) m = (if v = t \<and> m = n then tc_ptr (tbs q u) else tb_next (tbs q v) m)"
    "tb_next_offset (tbs (tb_add_jump t n u q) v) = tb_next_offset (tbs q v)"
    "tc_ptr (tbs (tb_add_jump t n u q) v) = tc_ptr (tbs q v)"
    unfolding q' set_jmp_next q1 by simp_all
  have "jmps_only q q1" by (simp add: q1_def tb_set_jmp_target_def jmps_only_set_tb bare_def)
  then show "jmps_only q (tb_add_jump t n u q)" unfolding q' using jmps_only_trans jmps_only_set_jmp by metis
qed

lemma jump_inv:
  assumes I: "cache_inv X q L" and t: "t \<in> L" "u \<in> L" "n < 2"
  shows "cache_inv X (tb_add_jump t n u q) L"
proof (cases "jmp_next (tbs q t) n = None")
  case False
  then have "tb_add_jump t n u q = q" by (simp only: tb_add_jump_def if_False)
  then show ?thesis using I by simp
next
  case True
  obtain H P J where h: "tb_shape q H P J L" "jumps_sound q J L"
    "\<forall>t\<in>L. block_ok (tbs q t)" "\<forall>t\<in>L. t < nb_tbs q" "current_ok q L" "code_sorted X q L" "marked q L"
    by (rule cache_invE [OF I])
  let ?q = "tb_add_jump t n u q" and ?J = "J(u := (t, n) # J u)"
  note e = tb_add_jump_effect [OF True, of u]
  have jm: "chains (jmp_nxt q) (jmp_head_of q) (\<lambda>t. Some (t, 2)) L J" "\<And>v. v \<in> L \<Longrightarrow> set (J v) \<subseteq> L \<times> {0, 1}"
    "\<And>v m. v \<in> L \<Longrightarrow> m < 2 \<Longrightarrow> jmp_nxt q (v, m) \<noteq> None \<longleftrightarrow> (\<exists>w\<in>L. (v, m) \<in> set (J w))"
    using h(1) unfolding tb_shape_def jmp_shape_def by blast+
  have new: "(t, n) \<notin> set (J w)" if "w \<in> L" for w using jm(3) [OF t(1,3)] True that by auto
  have "chains (jmp_nxt ?q) (jmp_head_of ?q) (\<lambda>t. Some (t, 2)) L ?J"
    by (rule chains_push [OF jm(1) t(2) new]) (simp_all only: e(1,2) if_True if_False refl)
  moreover have "jmp_nxt ?q (v, m) \<noteq> None \<longleftrightarrow> (\<exists>w\<in>L. (v, m) \<in> set (?J w))" if v: "v \<in> L" "m < 2" for v m
  proof (cases "(v, m) = (t, n)")
    case True
    have "jmp_first (tbs q u) \<noteq> None" using chain_start [OF chainsD(1) [OF jm(1) t(2)]] by auto
    then show ?thesis unfolding e(1) using True t(2) by auto
  next
    case False
    have "(\<exists>w\<in>L. (v, m) \<in> set (?J w)) \<longleftrightarrow> (\<exists>w\<in>L. (v, m) \<in> set (J w))" using False by auto
    then show ?thesis unfolding e(1) using jm(3) [OF v] False by (simp only: if_False)
  qed
  moreover have "set (?J v) \<subseteq> L \<times> {0, 1}" if "v \<in> L" for v
    using jm(2) [OF that] t by (auto simp: less_2_cases_iff)
  ultimately have j': "jmp_shape ?q ?J L" unfolding jmp_shape_def by blast
  have S: "tb_shape ?q H P ?J L" by (rule jmps_only_shape [OF h(1) e(6) j'])
  have "jumps_sound ?q ?J L"
    unfolding jumps_sound_def
  proof (intro conjI ballI allI impI)
    fix w r assume w: "w \<in> L" "r \<in> set (?J w)"
    obtain v m where r: "r = (v, m)" by fastforce
    show "case r of (v, m) \<Rightarrow> tb_next (tbs ?q v) m = tc_ptr (tbs ?q w)"
    proof (cases "r = (t, n)")
      case True
      then have "w = u" using w new by (auto split: if_splits)
      then show ?thesis unfolding r using True r by (simp add: e)
    next
      case False
      then have "(v, m) \<in> set (J w)" using w r by (auto split: if_splits)
      then have "tb_next (tbs q v) m = tc_ptr (tbs q w)" using h(2) w(1) unfolding jumps_sound_def by blast
      then show ?thesis unfolding r using False r by (auto simp: e)
    qed
  next
    fix v and m :: nat
    assume v: "v \<in> L" "m < 2" "tb_next_offset (tbs ?q v) m \<noteq> 0xffff" "jmp_next (tbs ?q v) m = None"
    have "jmp_first (tbs q u) \<noteq> None" using chain_start [OF chainsD(1) [OF jm(1) t(2)]] by auto
    then have "\<not> (v = t \<and> m = n)" "jmp_next (tbs q v) m = None" using v(4) e(1) [of "(v, m)"] by (auto split: if_splits)
    then show "tb_next (tbs ?q v) m = exit_stub (tbs ?q v) m"
      using h(2) v(1-3) unfolding jumps_sound_def exit_stub_def e by auto
  qed
  moreover have sb: "same_blocks q ?q" by (rule same_blocks_relinked [OF relinked_jmps [OF e(6)]])
  moreover have "current_ok ?q L"
  proof -
    have c: "current_tb ?q = current_tb q" by (rule relinked_cpu(1) [OF relinked_jmps [OF e(6)]])
    have "unlinkable ?q L d" if "unlinkable q L d" for d using that t(1) by (auto simp: unlinkable_def e(1) [of "(d, _)", simplified])
    then show ?thesis using h(5) c sb by (simp add: current_ok_def same_blocks_def)
  qed
  moreover have "block_ok (tbs ?q v) \<and> v < nb_tbs ?q" if "v \<in> L" for v
    using that h(3,4) sb block_ok_same [of "tbs ?q v" "tbs q v"] by (auto simp: same_blocks_def)
  moreover have "marked ?q L"
    using e(6) by (intro marked_fewer [OF h(7) fewer_l1 sb subset_refl]) (rule jmps_only_rest(2))
  ultimately show ?thesis using S code_sorted_same [OF sb h(6) subset_refl] unfolding cache_inv_def by blast
qed

section \<open>Every history\<close>

lemma flush_inv: "current_tb q = None \<Longrightarrow> cache_inv X (tb_flush X q) {}"
proof -
  assume "current_tb q = None"
  then have "current_tb (tb_flush X q) = None" "nb_tbs (tb_flush X q) = 0" "code_gen_ptr (tb_flush X q) = code_gen_buffer X"
    by (simp_all add: tb_flush_def page_flush_tb_def Let_def)
  moreover have "bms (tb_flush X q) i = None" for i
  proof -
    have "page_find i (tb_flush X q) = map_option (\<lambda>p. invalidate_page_bitmap (p\<lparr>first_tb := None\<rparr>)) (page_find i q)"
      using page_find_flush [of i q] by (simp add: tb_flush_def page_flush_tb_def page_find_def Let_def)
    then show ?thesis by (cases "page_find i q") (simp_all add: invalidate_page_bitmap_def)
  qed
  then have "marked (tb_flush X q) {}" by (simp add: marked_def)
  ultimately show ?thesis using tb_flush_shape [of X q]
    by (auto simp: cache_inv_def jumps_sound_def current_ok_def code_sorted_def)
qed

lemma jmp_cache_inv:
  assumes I: "cache_inv X q L" and c: "\<forall>h t. c h = Some t \<longrightarrow> t \<in> L \<and> h = tb_jmp_cache_hash_func (tb_pc (tbs q t))"
  shows "cache_inv X (q\<lparr>tb_jmp_cache := c\<rparr>) L"
proof -
  have "tb_shape (q\<lparr>tb_jmp_cache := c\<rparr>) H P J L" if "tb_shape q H P J L" for H P J
    using that c by (simp add: tb_shape_def hash_shape_def page_shape_def jmp_shape_def page_find_def)
  moreover have "marked (q\<lparr>tb_jmp_cache := c\<rparr>) L = marked q L" by (simp add: marked_def page_find_def)
  ultimately show ?thesis using I
    unfolding cache_inv_def jumps_sound_def current_ok_def unlinkable_def code_sorted_def by fastforce
qed

lemma current_inv:
  assumes I: "cache_inv X q L" and c: "d = None \<or> (\<exists>t\<in>L. d = Some t)"
  shows "cache_inv X (q\<lparr>current_tb := d\<rparr>) L"
proof -
  have "current_ok (q\<lparr>current_tb := d\<rparr>) L" using I c by (auto simp: current_ok_def unlinkable_def cache_inv_def)
  moreover have "marked (q\<lparr>current_tb := d\<rparr>) L = marked q L" by (simp add: marked_def page_find_def)
  ultimately show ?thesis using I by (simp add: cache_inv_def tb_shape_fields jumps_sound_def code_sorted_def)
qed

lemma cache_run_inv:
  assumes X: "restore_ok X" and r: "cache_run X q L"
  shows "cache_inv X q L"
  using r
proof induction
  case (remember q L t)
  then have c: "\<forall>h t. tb_jmp_cache q h = Some t \<longrightarrow> t \<in> L \<and> h = tb_jmp_cache_hash_func (tb_pc (tbs q t))"
    by (auto simp: cache_inv_def tb_shape_def)
  show ?case using remember by (intro jmp_cache_inv) (use c in auto)
next
  case (forget q L c)
  then have "\<forall>h t. tb_jmp_cache q h = Some t \<longrightarrow> t \<in> L \<and> h = tb_jmp_cache_hash_func (tb_pc (tbs q t))"
    by (auto simp: cache_inv_def tb_shape_def)
  then have "\<forall>h t. c h = Some t \<longrightarrow> t \<in> L \<and> h = tb_jmp_cache_hash_func (tb_pc (tbs q t))" using forget.hyps(2) by (metis option.distinct(1))
  then show ?case by (rule jmp_cache_inv [OF forget.IH])
next
  case (interrupt q L m q')
  show ?case by (rule interrupt_inv [OF interrupt.IH, of m]) (use interrupt.hyps in simp)
next
  case (flush q)
  then show ?case by (rule flush_inv)
next
  case (translate q L vpc t q1 pc a1 b p)
  then show ?case by (intro translate_inv)
next
  case (abandon q L vpc t q1 b p)
  then show ?case by (intro abandon_inv)
next
  case (jump q L t u n)
  then show ?case by (intro jump_inv)
next
  case (enter q L t)
  then show ?case by (intro current_inv) auto
next
  case (leave q L)
  then show ?case by (intro current_inv) auto
next
  case (store q L s e w q')
  then show ?case by (intro store_inv [OF X])
next
  case (other q L q')
  show ?case by (rule cache_inv_same [OF other.IH other.hyps(2,3)])
qed

end
