(* ===== verification/TBTheorems.thy ===== *)
theory TBTheorems
  imports TBRuns MachineI386Props
begin

text \<open>
  What the histories of the translation cache guarantee: jumps lead to live blocks, overwritten
  code is gone, interrupts end chains of blocks, host addresses find their block, and the test of
  the code bitmap is sound.
\<close>

section \<open>The block of a host address\<close>

lemma tb_search_finds:
  assumes "\<forall>j\<le>t. tc_ptr (bs j) < pc"
  shows "\<forall>j. t < j \<and> int j \<le> hi \<longrightarrow> pc < tc_ptr (bs j) \<Longrightarrow> 0 \<le> lo \<Longrightarrow> lo \<le> int t + 1 \<Longrightarrow> int t \<le> hi \<Longrightarrow>
    tb_search bs pc lo hi = int t"
proof (induction "nat (hi - lo + 1)" arbitrary: lo hi rule: less_induct)
  case less
  show ?case
  proof (cases "lo \<le> hi")
    case False
    then show ?thesis using less.prems by (subst tb_search.simps) simp
  next
    case True
    define m where "m = (lo + hi) div 2"
    have m: "lo \<le> m" "m \<le> hi" "0 \<le> m" using True less.prems(2) by (simp_all add: m_def)
    show ?thesis
    proof (cases "m \<le> int t")
      case le: True
      then have "tc_ptr (bs (nat m)) < pc" using assms m by (simp add: nat_le_iff)
      then have "tb_search bs pc lo hi = tb_search bs pc (m + 1) hi"
        using True by (subst tb_search.simps) (auto simp: Let_def m_def [symmetric])
      also have "\<dots> = int t" using m le less.prems by (intro less.hyps) auto
      finally show ?thesis .
    next
      case gt: False
      then have "pc < tc_ptr (bs (nat m))" using less.prems(1) m by (simp add: zless_nat_eq_int_zless)
      then have "tb_search bs pc lo hi = tb_search bs pc lo (m - 1)"
        using True by (subst tb_search.simps) (auto simp: Let_def m_def [symmetric])
      also have "\<dots> = int t" using m gt less.prems by (intro less.hyps) auto
      finally show ?thesis .
    qed
  qed
qed

section \<open>The bitmap test\<close>

lemma test_bits:
  assumes "x mod 8 + len \<le> 8"
  shows "drop_bit (x mod 8) (tab ! (x div 8)) AND (push_bit len 1 - 1) \<noteq> (0 :: u8) \<longleftrightarrow> (\<exists>j<len. tab_bit tab (x + j))"
proof -
  have m: "push_bit len 1 - 1 = (mask len :: u8)" by (simp add: mask_eq_exp_minus_1 push_bit_eq_mult)
  have b: "tab_bit tab (x + j) \<longleftrightarrow> bit (tab ! (x div 8)) (x mod 8 + j)" if "j < len" for j
  proof -
    have e: "x + j = (x mod 8 + j) + 8 * (x div 8)" and lt: "x mod 8 + j < 8" using that assms by simp_all
    have "(x + j) div 8 = x div 8" unfolding e using lt by (subst div_mult_self2) simp_all
    moreover have "(x + j) mod 8 = x mod 8 + j" by (subst e, subst mod_mult_self2) (use lt in simp)
    ultimately have "(x + j) div 8 = x div 8 \<and> (x + j) mod 8 = x mod 8 + j" by simp
    then show ?thesis by (simp add: tab_bit_def)
  qed
  have "bit (drop_bit (x mod 8) (tab ! (x div 8)) AND mask len) j \<longleftrightarrow> j < len \<and> bit (tab ! (x div 8)) (x mod 8 + j)" for j
    using assms by (auto simp: bit_and_iff bit_mask_iff bit_drop_bit_eq)
  then have "drop_bit (x mod 8) (tab ! (x div 8)) AND mask len \<noteq> 0 \<longleftrightarrow> (\<exists>j<len. bit (tab ! (x div 8)) (x mod 8 + j))"
    by (metis bit_eq_iff bit_0_eq bot_apply bot_bool_def)
  then show ?thesis unfolding m using b by auto
qed

lemma span_intersects:
  assumes b: "block_ok b" and a: "on_page b n (drop_bit 12 a)" "intersects a (a + 1) b n" and lim: "a < TARGET_PAGE_MASK"
  shows "in_span b n (unat (offset_bits a))"
proof -
  let ?o = "unat (offset_bits (tb_pc b))"
  note p = block_pages [OF b]
  have ua: "unat (a + 1) = unat a + 1"
  proof -
    have "unat a < 4294963200" using lim by (simp add: word_less_nat_alt)
    then show ?thesis by (simp add: unat_add_no_wrap32)
  qed
  have mod: "unat (offset_bits a) = unat a mod 4096" by (rule unat_offset)
  consider "n = 0" | "n = 1" "page_addr b 1 \<noteq> -1" using a(1) by (auto simp: on_page_def less_2_cases_iff)
  then show ?thesis
  proof cases
    case 1
    have pg: "unat (page_addr b 0) = unat a - unat a mod 4096"
      using same_page_nat [OF p(1), of a] a(1) 1 by (simp add: on_page_def)
    have "unat a < unat (page_addr b 0) + code_end b" "unat (page_addr b 0) + ?o < unat a + 1"
      using intersects_nat [OF bounds_nat(1) [OF b], of a "a + 1"] a(2) 1 ua by simp_all
    moreover have "unat a mod 4096 < 4096" "unat a mod 4096 \<le> unat a" by simp_all
    ultimately have "?o \<le> unat a mod 4096" "unat a mod 4096 < code_end b" "unat a mod 4096 < 4096" using pg by linarith+
    then show ?thesis unfolding mod using 1 by (simp add: in_span_def tb_span_def Let_def)
  next
    case 2
    have pg: "unat (page_addr b 1) = unat a - unat a mod 4096"
      using same_page_nat [OF p(3) [OF 2(2)], of a] a(1) 2(1) by (simp add: on_page_def)
    have "unat a < unat (page_addr b 1) + (code_end b - 4096)"
      using intersects_nat [OF bounds_nat(2) [OF b 2(2)], of a "a + 1"] a(2) 2(1) by simp
    moreover have "unat a mod 4096 \<le> unat a" by simp
    ultimately have lt: "unat a mod 4096 < code_end b - 4096" using pg by linarith
    have "map_prod unat unat (tb_bounds b 1) = (unat (page_addr b 1), unat (page_addr b 1) + (code_end b - 4096))"
      by (rule bounds_nat(2) [OF b 2(2)])
    have "unat (tb_size b) \<le> 4096" "4096 < code_end b" using b 2(2) by (simp_all add: block_ok_def)
    moreover have "unat (offset_bits (tb_pc b + ucast (tb_size b))) = code_end b mod 4096"
      by (simp add: unat_offset unat_word_ariths unat_ucast_16 mod_mod_cancel mod_add_left_eq)
    moreover have "code_end b mod 4096 = code_end b - 4096"
      using calculation(1,2) offset_less [of "tb_pc b"] by (simp add: mod_if)
    ultimately show ?thesis unfolding mod using lt 2(1) by (simp add: in_span_def tb_span_def)
  qed
qed

lemma below_last_page: "page_bits a \<noteq> TARGET_PAGE_MASK \<Longrightarrow> a < TARGET_PAGE_MASK"
proof (rule ccontr)
  assume n: "page_bits a \<noteq> TARGET_PAGE_MASK" and "\<not> a < TARGET_PAGE_MASK"
  then have "4294963200 \<le> unat a" "unat a < 4294967296"
    using unat_less_pow32 [of a] by (simp_all add: word_less_nat_alt)
  then have "unat a div 4096 = 1048575" by auto
  then have "unat (page_bits a) = unat (TARGET_PAGE_MASK :: u32)"
    by (simp add: unat_page_bits minus_mod_eq_div_mult)
  then show False using n by (simp only: word_unat_eq_iff)
qed

lemma fast_miss:
  assumes I: "cache_inv X q L" and len: "unat (offset_bits s) mod 8 + len \<le> 8" and lim: "s < TARGET_PAGE_MASK"
    and tab: "bms q (drop_bit 12 s) = Some tab" and no: "\<forall>j<len. \<not> tab_bit tab (unat (offset_bits s) + j)"
  shows "untouched s (s + of_nat len) q L = L"
proof -
  have off: "unat (offset_bits s) + j < 4096" if "j < len" for j
  proof -
    have "unat (offset_bits s) div 8 < 512" using offset_less [of s] by (simp add: less_mult_imp_div_less)
    moreover have "unat (offset_bits s) = unat (offset_bits s) div 8 * 8 + unat (offset_bits s) mod 8" by simp
    ultimately show ?thesis using that len by linarith
  qed
  have "\<not> tb_covers (tbs q t) a" if t: "t \<in> L" and a: "s \<le> a" "a < s + of_nat len" for t a
  proof
    assume c: "tb_covers (tbs q t) a"
    have b: "block_ok (tbs q t)" using I t by (simp add: cache_inv_def)
    have sl: "unat s + 4096 \<le> 4294967295" using lim by (simp add: word_less_nat_alt)
    have "len \<le> 8" using len by simp
    then have "unat (s + of_nat len) = unat s + len" using sl by (simp add: unat_add_no_wrap32 unat_of_nat)
    then have j: "unat a - unat s < len" "unat s \<le> unat a" using a by (simp_all add: word_le_nat_alt word_less_nat_alt)
    define j where "j = unat a - unat s"
    have jl: "j < len" using j by (simp add: j_def)
    note ip = in_page [OF off [OF jl]]
    have "unat (s + of_nat j) = unat a" using ip(1) j by (simp add: j_def)
    then have aj: "a = s + of_nat j" by (intro word_unat_eq_iff [THEN iffD2]) (simp only:)
    have "unat (offset_bits s + of_nat j) = unat (offset_bits s) + j"
      using off [OF jl] by (subst unat_add_no_wrap32) (simp_all add: unat_of_nat)
    then have pa: "drop_bit 12 a = drop_bit 12 s" "unat (offset_bits a) = unat (offset_bits s) + j"
      unfolding aj ip(3,4) by (simp_all only:)
    have "page_bits a \<noteq> TARGET_PAGE_MASK"
    proof
      assume "page_bits a = TARGET_PAGE_MASK"
      then have "page_bits s = TARGET_PAGE_MASK" using ip(2) by (simp only: aj)
      then have "unat s - unat s mod 4096 = 4294963200" using unat_page_bits [of s] by simp
      then show False using lim by (simp add: word_less_nat_alt)
    qed
    then have al: "a < TARGET_PAGE_MASK"
      by (rule below_last_page)
    have ua: "unat (a + 1) = unat a + 1"
    proof -
      have "unat a < 4294963200" using al by (simp add: word_less_nat_alt)
      then show ?thesis by (simp add: unat_add_no_wrap32)
    qed
    have "page_range a (a + 1)"
      using ua offset_less [of a] by (simp add: page_range_def word_less_nat_alt)
    moreover have "\<exists>x. a \<le> x \<and> x < a + 1 \<and> tb_covers (tbs q t) x"
      using c ua by (intro exI [of _ a]) (simp add: word_less_nat_alt)
    ultimately obtain n where n: "on_page (tbs q t) n (drop_bit 12 a)" "intersects a (a + 1) (tbs q t) n"
      using covers_range [OF b] by blast
    have "in_span (tbs q t) n (unat (offset_bits a))" by (rule span_intersects [OF b n al])
    then have "tab_bit tab (unat (offset_bits a))"
      using I t n(1) tab pa(1) unfolding cache_inv_def marked_def by metis
    then show False using no jl pa(2) by simp
  qed
  then show ?thesis by (auto simp: untouched_def)
qed

section \<open>Chains of blocks\<close>

text \<open>
  The blocks that run after the block \<open>c\<close> without a return to the main loop: those that patched
  jumps lead to. \<^verbatim>\<open>current_tb\<close> stays at the first of them.
\<close>

inductive chained :: "'a tb_ctx_scheme \<Rightarrow> nat set \<Rightarrow> nat \<Rightarrow> nat \<Rightarrow> bool" for q L c where
  start: "chained q L c c"
| follow: "chained q L c v \<Longrightarrow> n < 2 \<Longrightarrow> jmp_next (tbs q v) n \<noteq> None \<Longrightarrow> w \<in> L \<Longrightarrow>
    tb_next (tbs q v) n = tc_ptr (tbs q w) \<Longrightarrow> chained q L c w"

lemma same_code:
  assumes "code_sorted X q L" "\<forall>t\<in>L. t < nb_tbs q" "u \<in> L" "w \<in> L" "tc_ptr (tbs q u) = tc_ptr (tbs q w)"
  shows "u = w"
proof -
  have lt: "tc_ptr (tbs q a) < tc_ptr (tbs q b)" if "a \<in> L" "b \<in> L" "a < b" for a b
    using assms(1,2) that unfolding code_sorted_def by blast
  show ?thesis using lt [OF assms(3,4)] lt [OF assms(4,3)] assms(5) by (cases u w rule: linorder_cases) auto
qed

lemma interrupt_cleans:
  assumes I: "cache_inv X q L" and c: "current_tb q = Some c" "c \<in> L" and l: "\<not> interrupt_lock q"
  shows "\<exists>q'. cpu_interrupt_tb m q = Some q' \<and> interrupt_request q' = interrupt_request q OR m \<and>
    (\<forall>t n. chained q L c t \<longrightarrow> n < 2 \<longrightarrow> tb_next_offset (tbs q' t) n \<noteq> 0xffff \<longrightarrow>
       tb_next (tbs q' t) n = exit_stub (tbs q' t) n)"
proof -
  obtain H P J where h: "tb_shape q H P J L" "jumps_sound q J L"
    "\<forall>t\<in>L. block_ok (tbs q t)" "\<forall>t\<in>L. t < nb_tbs q" "current_ok q L" "code_sorted X q L" "marked q L"
    by (rule cache_invE [OF I])
  define q2 where "q2 = q\<lparr>interrupt_request := interrupt_request q OR m, interrupt_lock := True, current_tb := None\<rparr>"
  have t2: "tbs q2 = tbs q" by (simp add: q2_def)
  have j2: "jmp_shape q2 J L" "finite L" "unlinkable q2 L c"
    using h(1) c t2 by (simp_all add: tb_shape_def jmp_shape_def unlinkable_def)
  obtain q3 J3 where q3: "tb_reset_jump_recursive c q2 = Some q3" "jmps_only q2 q3" "outside L q2 q3" "jmp_shape q3 J3 L"
    "cuts {} q2 J q3 J3" "settled J q3 J3 L" "\<And>n. n < 2 \<Longrightarrow> jmp_nxt q3 (c, n) = None"
    using reset_jump_recursive_shape [OF j2] by metis
  have cut: "cuts {} q J q3 J3" using q3(5) cuts_tbs [OF t2 refl] by simp
  have sound: "jumps_sound q3 J3 L" using jumps_sound_cuts [OF h(2) _ cut] q3(4) by simp
  have clean: "t \<in> L \<and> (\<forall>n<2. jmp_nxt q3 (t, n) = None)" if "chained q L c t" for t
    using that
  proof induction
    case start
    then show ?case using c(2) q3(7) by blast
  next
    case (follow v n w)
    then have v: "v \<in> L" "jmp_nxt q3 (v, n) = None" "jmp_nxt q (v, n) \<noteq> None" by auto
    have "jmp_shape q J L" using h(1) by (simp add: tb_shape_def)
    then have "\<exists>u\<in>L. (v, n) \<in> set (J u)" using v(1,3) follow.hyps(2) unfolding jmp_shape_def by blast
    then obtain u where u: "u \<in> L" "(v, n) \<in> set (J u)" by blast
    have "tb_next (tbs q v) n = tc_ptr (tbs q u)" using h(2) u unfolding jumps_sound_def by blast
    then have "u = w" using follow.hyps(5) by (intro same_code [OF h(6,4) u(1) follow.hyps(4)]) (simp only:)
    moreover have "(v, n) \<notin> set (J3 u)"
    proof
      assume "(v, n) \<in> set (J3 u)"
      then have "jmp_nxt q3 (v, n) \<noteq> None" using q3(4) v(1) follow.hyps(2) u(1) unfolding jmp_shape_def by blast
      then show False using v(2) by (simp only: simp_thms)
    qed
    then have "\<forall>m<2. jmp_nxt q3 (u, m) = None" using q3(6) u unfolding settled_def by blast
    ultimately show ?case using u(1) by (simp only: simp_thms)
  qed
  have "cpu_interrupt_tb m q = Some (q3\<lparr>interrupt_lock := False\<rparr>)"
    using c l q3(1) by (simp add: cpu_interrupt_tb_def Let_def q2_def)
  moreover have "interrupt_request q3 = interrupt_request q OR m"
    using relinked_cpu(3) [OF relinked_jmps [OF q3(2)]] by (simp add: q2_def)
  moreover have "tb_next (tbs q3 t) n = exit_stub (tbs q3 t) n"
    if "chained q L c t" "n < 2" "tb_next_offset (tbs q3 t) n \<noteq> 0xffff" for t n
    using clean [OF that(1)] sound that(2,3) unfolding jumps_sound_def by auto
  ultimately show ?thesis by (intro exI [of _ "q3\<lparr>interrupt_lock := False\<rparr>"]) simp
qed

section \<open>A history\<close>

text \<open>
  A concrete history for the witnesses below: two blocks are translated, the second goes past the
  end of a page; a jump of the first is patched to the second; the first runs.
\<close>

definition blank_tb :: TranslationBlock where
  "blank_tb = \<lparr>tb_pc = 0, tb_cs_base = 0, tb_flags = 0, tb_size = 0, tb_cflags = 0, tc_ptr = 0, phys_hash_next = None,
     page_next = (\<lambda>_. None), page_addr = (\<lambda>_. 0), tb_next_offset = (\<lambda>_. 0xffff), tb_next = (\<lambda>_. 0),
     jmp_next = (\<lambda>_. None), jmp_first = None\<rparr>"

definition sample_cache :: tb_ctx where
  "sample_cache = cpu_x86.extend sample_x86
     (tb_ctx.fields (\<lambda>_. blank_tb) 0 0 (\<lambda>_. None) (\<lambda>_. None) False 0 0 False 0 0 [] 0 initial_memcheck)"

definition sample_trans :: "tb_ctx trans" where
  "sample_trans = \<lparr>x_host = \<lparr>h_board = \<lparr>io_mem_read = (\<lambda>_ _ _ q. (0, q)), io_mem_write = (\<lambda>_ _ _ _ q. q),
       tb_invalidate_phys_page_range = (\<lambda>_ _ _ q. q)\<rparr>, h_restore = (\<lambda>_ q. q), h_time = (\<lambda>_. 0)\<rparr>,
     x_machine = i386_machine \<lparr>io_mem_read = (\<lambda>_ _ _ q. (0, q)), io_mem_write = (\<lambda>_ _ _ _ q. q),
       tb_invalidate_phys_page_range = (\<lambda>_ _ _ q. q)\<rparr>,
     x_ambient = quiet, cpu_gen_code = (\<lambda>_ q. Done 64 q), cpu_restore_state = (\<lambda>_ _ q. q),
     code_gen_buffer = 0x8000000, code_gen_max_block_size = 0x1000\<rparr>"

definition sample_tb :: "nat \<Rightarrow> TranslationBlock" where
  "sample_tb t = (if t = 0 then blank_tb\<lparr>tb_pc := 0x1010, tb_size := 0x20, tc_ptr := 0x8000000, tb_next_offset := (\<lambda>_. 16)\<rparr>
     else blank_tb\<lparr>tb_pc := 0x2ff0, tb_size := 0x20, tc_ptr := 0x8000040, tb_next_offset := (\<lambda>_. 16)\<rparr>)"

definition sample_0 :: tb_ctx where
  "sample_0 = tb_flush sample_trans sample_cache"

definition sample_1 :: tb_ctx where
  "sample_1 = tb_link_phys 0 0x1010 (-1) (set_tb 0 (\<lambda>_. sample_tb 0)
     ((set_tb 0 (\<lambda>b. b\<lparr>tb_pc := 0x1010, tb_cflags := 0\<rparr>) (sample_0\<lparr>nb_tbs := 1\<rparr>))\<lparr>code_gen_ptr := 0x8000040\<rparr>))"

definition sample_2 :: tb_ctx where
  "sample_2 = tb_link_phys 1 0x2ff0 0x5000 (set_tb 1 (\<lambda>_. sample_tb 1)
     ((set_tb 1 (\<lambda>b. b\<lparr>tb_pc := 0x2ff0, tb_cflags := 0\<rparr>) (sample_1\<lparr>nb_tbs := 2\<rparr>))\<lparr>code_gen_ptr := 0x8000080\<rparr>))"

definition sample_run :: tb_ctx where
  "sample_run = (tb_add_jump 0 0 1 sample_2)\<lparr>current_tb := Some 0\<rparr>"

lemma sample_trans_simps:
  "code_gen_buffer sample_trans = 0x8000000" "code_gen_max_block_size sample_trans = 0x1000" "restore_ok sample_trans"
  by (simp_all add: sample_trans_def restore_ok_def)

lemma sample_0_simps: "nb_tbs sample_0 = 0" "code_gen_ptr sample_0 = 0x8000000" "current_tb sample_0 = None"
  "interrupt_lock sample_0 = False"
  by (simp_all add: sample_0_def tb_flush_def page_flush_tb_def sample_trans_simps Let_def sample_cache_def
      cpu_x86.defs tb_ctx.defs sample_x86_def)

lemma sample_1_simps: "nb_tbs sample_1 = 1" "code_gen_ptr sample_1 = 0x8000040" "current_tb sample_1 = None"
  by (simp_all add: sample_1_def link_keeps set_tb_def sample_0_simps)

lemma sample_2_simps: "nb_tbs sample_2 = 2" "code_gen_ptr sample_2 = 0x8000080" "current_tb sample_2 = None"
  by (simp_all add: sample_2_def link_keeps set_tb_def sample_1_simps)

lemma sample_history: "cache_run sample_trans sample_2 {0, 1}" "cache_run sample_trans sample_run {0, 1}"
proof -
  have "cache_run sample_trans sample_0 {}"
    unfolding sample_0_def
    by (rule cache_run.flush) (simp add: sample_cache_def cpu_x86.defs tb_ctx.defs sample_x86_def)
  then have "cache_run sample_trans sample_1 {0}"
    unfolding sample_1_def
    by (rule cache_run.translate [where vpc = "0x1010"])
      (simp_all add: tb_alloc_def sample_0_simps sample_trans_simps new_block_def sample_tb_def blank_tb_def)
  moreover have "nb_tbs sample_1 + 1 = 2" by (simp add: sample_1_simps)
  then have "tb_alloc sample_trans 0x2ff0 sample_1 =
      Some (1, set_tb 1 (\<lambda>b. b\<lparr>tb_pc := 0x2ff0, tb_cflags := 0\<rparr>) (sample_1\<lparr>nb_tbs := 2\<rparr>))"
    unfolding tb_alloc_def by (simp only: sample_1_simps sample_trans_simps) simp
  ultimately have "cache_run sample_trans sample_2 (insert 1 {0})"
    unfolding sample_2_def
    by (rule cache_run.translate) (simp_all add: sample_1_simps new_block_def sample_tb_def blank_tb_def)
  then show 2: "cache_run sample_trans sample_2 {0, 1}" by (simp add: insert_commute)
  show "cache_run sample_trans sample_run {0, 1}"
    unfolding sample_run_def by (intro cache_run.enter cache_run.jump 2) simp_all
qed

lemma sample_blocks:
  "tb_pc (tbs sample_2 0) = 0x1010" "tb_size (tbs sample_2 0) = 0x20" "tc_ptr (tbs sample_2 0) = 0x8000000"
  "page_addr (tbs sample_2 0) 0 = 0x1000" "page_addr (tbs sample_2 0) 1 = -1" "jmp_next (tbs sample_2 0) 0 = None"
  "tc_ptr (tbs sample_2 1) = 0x8000040" "tb_next_offset (tbs sample_2 0) n = 16"
  "tb_cs_base (tbs sample_2 0) = 0" "tb_flags (tbs sample_2 0) = 0"
proof -
  have l1: "linked_block 0 0x1000 (-1) (sample_tb 0) (tbs sample_1 0)"
    using tb_link_phys_effect(2) [where t = 0 and pc = "0x1010" and ?a1.0 = "-1" and
        q = "set_tb 0 (\<lambda>_. sample_tb 0) ((set_tb 0 (\<lambda>b. b\<lparr>tb_pc := 0x1010, tb_cflags := 0\<rparr>) (sample_0\<lparr>nb_tbs := 1\<rparr>))\<lparr>code_gen_ptr := 0x8000040\<rparr>)"]
    by (simp add: sample_1_def)
  let ?q = "set_tb 1 (\<lambda>_. sample_tb 1)
     ((set_tb 1 (\<lambda>b. b\<lparr>tb_pc := 0x2ff0, tb_cflags := 0\<rparr>) (sample_1\<lparr>nb_tbs := 2\<rparr>))\<lparr>code_gen_ptr := 0x8000080\<rparr>)"
  have l2: "linked_block 1 0x2000 0x5000 (sample_tb 1) (tbs sample_2 1)"
    using tb_link_phys_effect(2) [where t = 1 and pc = "0x2ff0" and ?a1.0 = "0x5000" and q = ?q] by (simp add: sample_2_def)
  have "tbs sample_2 0 = tbs sample_1 0"
    using tb_link_phys_effect(1) [where t = 1 and pc = "0x2ff0" and ?a1.0 = "0x5000" and q = ?q and u = 0] by (simp add: sample_2_def)
  then show "tb_pc (tbs sample_2 0) = 0x1010" "tb_size (tbs sample_2 0) = 0x20" "tc_ptr (tbs sample_2 0) = 0x8000000"
    "page_addr (tbs sample_2 0) 0 = 0x1000" "page_addr (tbs sample_2 0) 1 = -1" "jmp_next (tbs sample_2 0) 0 = None"
    "tb_next_offset (tbs sample_2 0) n = 16" "tb_cs_base (tbs sample_2 0) = 0" "tb_flags (tbs sample_2 0) = 0"
    using l1 by (simp_all add: linked_block_def sample_tb_def blank_tb_def)
  show "tc_ptr (tbs sample_2 1) = 0x8000040" using l2 by (simp add: linked_block_def sample_tb_def)
qed

lemma sample_unlocked: "\<not> interrupt_lock sample_run"
proof -
  have set_tb: "interrupt_lock (set_tb t f q) = interrupt_lock q" for t f and q :: tb_ctx by (simp add: set_tb_def)
  have prot: "interrupt_lock (tlb_protect_code a q) = interrupt_lock q" for a and q :: tb_ctx
    by (simp add: tlb_protect_code_def cpu_physical_memory_reset_dirty_def tlb_map_def Let_def)
  have page: "interrupt_lock (set_page i f q) = interrupt_lock q" for i f and q :: tb_ctx
    by (simp add: set_page_def split: option.split)
  have alloc: "interrupt_lock (tb_alloc_page t n a q) = interrupt_lock q" for t n a and q :: tb_ctx
    by (simp add: tb_alloc_page_def Let_def set_tb prot page page_find_alloc_def split: option.split)
  have link: "interrupt_lock (tb_link_phys t pc a1 q) = interrupt_lock q" for t pc a1 and q :: tb_ctx
    by (simp add: tb_link_phys_def Let_def set_tb alloc tb_reset_jump_def tb_set_jmp_target_def)
  show ?thesis
    by (simp add: sample_run_def tb_add_jump_def tb_set_jmp_target_def Let_def set_tb sample_2_def sample_1_def link sample_0_simps)
qed

lemma sample_jump: "current_tb sample_run = Some 0" "jmp_next (tbs sample_run 0) 0 \<noteq> None"
  "tb_next (tbs sample_run 0) 0 = tc_ptr (tbs sample_run 1)" "nb_tbs sample_run = 2" "code_gen_ptr sample_run = 0x8000080"
  "tc_ptr (tbs sample_run 0) = 0x8000000" "tc_ptr (tbs sample_run 1) = 0x8000040"
  "tb_next_offset (tbs sample_run 0) n = 16"
proof -
  note e = tb_add_jump_effect [OF sample_blocks(6), of 1]
  have k: "nb_tbs (tb_add_jump 0 0 1 sample_2) = 2" "code_gen_ptr (tb_add_jump 0 0 1 sample_2) = 0x8000080"
    using relinked_cpu(6,7) [OF relinked_jmps [OF e(6)]] by (simp_all add: sample_2_simps)
  have "cache_inv sample_trans sample_2 {0, 1}" by (rule cache_run_inv [OF sample_trans_simps(3) sample_history(1)])
  then obtain J where "jmp_shape sample_2 J {0, 1}" by (auto simp: cache_inv_def tb_shape_def)
  then have "chain (jmp_nxt sample_2) (jmp_first (tbs sample_2 1)) (J 1) (Some (1, 2))"
    unfolding jmp_shape_def chains_def by simp
  then have "jmp_first (tbs sample_2 1) \<noteq> None" by (auto dest: chain_start)
  then show "jmp_next (tbs sample_run 0) 0 \<noteq> None" using e(1) [of "(0, 0)"] by (simp add: sample_run_def)
  show "current_tb sample_run = Some 0" "tb_next (tbs sample_run 0) 0 = tc_ptr (tbs sample_run 1)" "nb_tbs sample_run = 2"
    "code_gen_ptr sample_run = 0x8000080" "tc_ptr (tbs sample_run 0) = 0x8000000" "tc_ptr (tbs sample_run 1) = 0x8000040"
    "tb_next_offset (tbs sample_run 0) n = 16"
    using e k sample_blocks by (simp_all add: sample_run_def)
qed

section \<open>Properties\<close>

lemma covers_same: "ident b' = ident b \<Longrightarrow> tb_covers b' a = tb_covers b a"
proof -
  assume "ident b' = ident b"
  then have e: "tb_pc b' = tb_pc b" "tb_size b' = tb_size b" "page_addr b' = page_addr b" by (simp_all add: ident_def)
  have "tb_byte b' = tb_byte b" by (rule ext) (simp only: tb_byte_def e)
  then show ?thesis by (simp only: tb_covers_def e)
qed

text \<open>
  \<^bold>\<open>C13\<close>. In every history of the translation cache the tables hold exactly the live blocks: each
  hash list and each page list is a finite list without repetition of the live blocks that belong
  on it, the circular lists of jumps join exactly the patched jumps of live blocks, the cache by
  virtual address holds live blocks only, and every bitmap marks the code of the live blocks.
\<close>

theorem tables_hold_live_blocks:
  assumes "restore_ok X" "cache_run X q L"
  shows "(\<exists>H P J. tb_shape q H P J L) \<and> marked q L"
  using cache_run_inv [OF assms] unfolding cache_inv_def by blast

theorem tables_hold_live_blocks_witness:
  "cache_run sample_trans sample_run {0, 1} \<and> (\<exists>H P J. tb_shape sample_run H P J {0, 1}) \<and> marked sample_run {0, 1}"
  using tables_hold_live_blocks [OF sample_trans_simps(3) sample_history(2)] sample_history(2) by blast

text \<open>
  \<^bold>\<open>C11\<close>. In every history, each jump of a live block that the block uses leads to the exit of the
  block itself or to the start of the code of a live block: translated code never continues in a
  block that was invalidated.
\<close>

theorem jumps_reach_live_blocks:
  assumes "restore_ok X" "cache_run X q L" "t \<in> L" "n < 2" "tb_next_offset (tbs q t) n \<noteq> 0xffff"
  shows "tb_next (tbs q t) n = exit_stub (tbs q t) n \<or> (\<exists>u\<in>L. tb_next (tbs q t) n = tc_ptr (tbs q u))"
proof -
  obtain H P J where h: "tb_shape q H P J L" "jumps_sound q J L"
    "\<forall>t\<in>L. block_ok (tbs q t)" "\<forall>t\<in>L. t < nb_tbs q" "current_ok q L" "code_sorted X q L" "marked q L"
    by (rule cache_invE [OF cache_run_inv [OF assms(1,2)]])
  show ?thesis
  proof (cases "jmp_next (tbs q t) n = None")
    case True
    then show ?thesis using h(2) assms(3-5) unfolding jumps_sound_def by blast
  next
    case False
    have "jmp_shape q J L" using h(1) by (simp add: tb_shape_def)
    moreover have "jmp_nxt q (t, n) \<noteq> None" using False by (simp only: fst_conv snd_conv simp_thms)
    ultimately have "\<exists>u\<in>L. (t, n) \<in> set (J u)" using assms(3,4) unfolding jmp_shape_def by blast
    then show ?thesis using h(2) unfolding jumps_sound_def by blast
  qed
qed

theorem jumps_reach_live_blocks_witness:
  "tb_next (tbs sample_run 0) 0 = exit_stub (tbs sample_run 0) 0 \<or>
   (\<exists>u\<in>{0, 1}. tb_next (tbs sample_run 0) 0 = tc_ptr (tbs sample_run u))"
  using jumps_reach_live_blocks [OF sample_trans_simps(3) sample_history(2), of 0 0] by (simp add: sample_jump(8))



text \<open>
  \<^bold>\<open>C12\<close>. An interrupt request reaches the CPU: it returns, the request is recorded, and every block
  that could run without a return to the main loop, from the block the CPU entered along patched
  jumps, afterwards leaves through its own exit, so the CPU returns to the main loop at the end of
  whichever block it is in.
\<close>

theorem interrupt_ends_chain:
  assumes "restore_ok X" "cache_run X q L" "current_tb q = Some c" "c \<in> L" "\<not> interrupt_lock q"
  shows "\<exists>q'. cpu_interrupt_tb m q = Some q' \<and> interrupt_request q' = interrupt_request q OR m \<and>
    (\<forall>t n. chained q L c t \<longrightarrow> n < 2 \<longrightarrow> tb_next_offset (tbs q' t) n \<noteq> 0xffff \<longrightarrow>
       tb_next (tbs q' t) n = exit_stub (tbs q' t) n)"
  by (rule interrupt_cleans [OF cache_run_inv [OF assms(1,2)] assms(3-5)])

theorem interrupt_ends_chain_witness:
  "chained sample_run {0, 1} 0 1 \<and>
   (\<exists>q'. cpu_interrupt_tb 2 sample_run = Some q' \<and> interrupt_request q' = interrupt_request sample_run OR 2 \<and>
    (tb_next_offset (tbs q' 1) 0 = 0xffff \<or> tb_next (tbs q' 1) 0 = exit_stub (tbs q' 1) 0))"
proof -
  have c: "chained sample_run {0, 1} 0 1"
    by (rule chained.follow [OF chained.start, of 0]) (simp_all add: sample_jump)
  have "(0 :: nat) \<in> {0, 1}" by simp
  from interrupt_ends_chain [OF sample_trans_simps(3) sample_history(2) sample_jump(1) this sample_unlocked, of 2] c
  show ?thesis by (metis zero_less_numeral)
qed

text \<open>
  \<^bold>\<open>C24\<close>. The search for the block of a host address is right: in every history an address inside the
  code of a live block, that is after its start and before the next block's code, gives that block.
\<close>

theorem host_address_finds_block:
  assumes "restore_ok X" "cache_run X q L" "t \<in> L" "tc_ptr (tbs q t) < pc" "pc < code_gen_ptr q"
    and "\<forall>j<nb_tbs q. t < j \<longrightarrow> pc < tc_ptr (tbs q j)"
  shows "tb_find_pc X pc q = Some t"
proof -
  obtain H P J where h: "tb_shape q H P J L" "jumps_sound q J L"
    "\<forall>t\<in>L. block_ok (tbs q t)" "\<forall>t\<in>L. t < nb_tbs q" "current_ok q L" "code_sorted X q L" "marked q L"
    by (rule cache_invE [OF cache_run_inv [OF assms(1,2)]])
  have t: "t < nb_tbs q" using h(4) assms(3) by blast
  have "tc_ptr (tbs q j) < pc" if "j \<le> t" for j
  proof -
    have "tc_ptr (tbs q j) \<le> tc_ptr (tbs q t)"
      using h(6) that t by (cases "j = t") (auto simp: code_sorted_def)
    then show ?thesis using assms(4) by (rule order.strict_trans1)
  qed
  then have "tb_search (tbs q) pc 0 (int (nb_tbs q) - 1) = int t"
    using assms(6) t by (intro tb_search_finds) auto
  moreover have "code_gen_buffer X \<le> tc_ptr (tbs q t)" using h(6) t by (simp add: code_sorted_def)
  then have "\<not> pc < code_gen_buffer X" using assms(4) by auto
  ultimately show ?thesis using t assms(5) by (simp add: tb_find_pc_def)
qed

theorem host_address_finds_block_witness: "tb_find_pc sample_trans 0x8000024 sample_run = Some 0"
proof (rule host_address_finds_block [OF sample_trans_simps(3) sample_history(2)])
  show "\<forall>j<nb_tbs sample_run. 0 < j \<longrightarrow> 0x8000024 < tc_ptr (tbs sample_run j)"
  proof (intro allI impI)
    fix j assume "j < nb_tbs sample_run" "0 < j"
    then have "j = 1" using sample_jump(4) by simp
    then show "0x8000024 < tc_ptr (tbs sample_run j)" using sample_jump(7) by simp
  qed
qed (simp_all add: sample_jump)

text \<open>
  \<^bold>\<open>C25\<close>. The fast path of a store is sound: for an aligned store of at most eight bytes it does what
  the full invalidation does, or it does nothing and no live block translates a byte that is
  written.
\<close>

theorem fast_store_check:
  assumes "restore_ok X" "cache_run X q L" "unat (offset_bits s) mod 8 + len \<le> 8" "s < TARGET_PAGE_MASK"
  shows "tb_invalidate_phys_page_fast X s len q = tb_invalidate_phys_page_range_full X s (s + of_nat len) True q \<or>
    tb_invalidate_phys_page_fast X s len q = Some (Done () q) \<and> untouched s (s + of_nat len) q L = L"
proof -
  have I: "cache_inv X q L" by (rule cache_run_inv [OF assms(1,2)])
  show ?thesis
  proof (cases "page_find (drop_bit 12 s) q")
    case None
    then show ?thesis by (simp add: tb_invalidate_phys_page_fast_def tb_invalidate_phys_page_range_full_def)
  next
    case (Some p)
    show ?thesis
    proof (cases "code_bitmap p")
      case None
      then show ?thesis using Some by (simp add: tb_invalidate_phys_page_fast_def)
    next
      case tab: (Some tab)
      note test = test_bits [OF assms(3), of tab]
      have fast: "tb_invalidate_phys_page_fast X s len q =
          (if \<exists>j<len. tab_bit tab (unat (offset_bits s) + j)
           then tb_invalidate_phys_page_range_full X s (s + of_nat len) True q else Some (Done () q))"
        using Some tab by (simp only: tb_invalidate_phys_page_fast_def option.case Let_def test)
      have b: "bms q (drop_bit 12 s) = Some tab" using Some tab by simp
      show ?thesis using fast fast_miss [OF I assms(3,4) b]
        by (cases "\<exists>j<len. tab_bit tab (unat (offset_bits s) + j)") auto
    qed
  qed
qed

theorem fast_store_check_witness:
  "tb_invalidate_phys_page_fast sample_trans 0x1004 4 sample_run =
     tb_invalidate_phys_page_range_full sample_trans 0x1004 0x1008 True sample_run \<or>
   tb_invalidate_phys_page_fast sample_trans 0x1004 4 sample_run = Some (Done () sample_run) \<and>
     untouched 0x1004 0x1008 sample_run {0, 1} = {0, 1}"
  using fast_store_check [OF sample_trans_simps(3) sample_history(2), of "0x1004" 4] by simp

end
