(* ===== verification/CpuExec.thy ===== *)
theory CpuExec
  imports TBTheorems Checker
begin

text \<open>
  The main loop of the emulator (\<^verbatim>\<open>cpu-exec.c\<close>) for the i386 target: the search for the block of
  the current guest address, the delivery of interrupts, the call of MemCheck before a block is
  entered, the patching of the jump that led to it, and the run of the translated code, which may
  go on to further blocks through patched jumps.
\<close>

section \<open>State and surroundings\<close>

text \<open>The fields of the CPU that only the loop uses; \<open>df\<close>, \<open>cc_src\<close> and \<open>cc_op\<close> are registers.\<close>

record exec_ctx = tb_ctx +
  cc_src :: u32
  cc_op :: u32
  df :: u32
  old_exception :: int

text \<open>How translated code leaves a block: by \<^verbatim>\<open>EXIT_TB\<close> with \<^verbatim>\<open>T0\<close> zero, or by \<^verbatim>\<open>GOTO_TB\<close>.\<close>

datatype block_exit = Exit_tb | Goto_tb nat

text \<open>
  What the loop calls: the translated code of a block, the delivery of the pending exception
  (\<^verbatim>\<open>do_interrupt\<close> with the exception fields of the CPU) and of an interrupt (with its number and
  the next address), the test for an intercept of a virtual machine, the entry of system management
  mode, the interrupt controllers, and the computation of the flags.
\<close>

record 'q engine =
  translated_code :: "nat \<Rightarrow> 'q \<Rightarrow> (block_exit, 'q) result"
  do_exception :: "'q \<Rightarrow> (unit, 'q) result"
  do_interrupt :: "u32 \<Rightarrow> u32 \<Rightarrow> 'q \<Rightarrow> (unit, 'q) result"
  svm_check_intercept :: "u32 \<Rightarrow> 'q \<Rightarrow> (unit, 'q) result"
  do_smm_enter :: "'q \<Rightarrow> 'q"
  cpu_get_pic_interrupt :: "'q \<Rightarrow> u32 \<times> 'q"
  compute_all :: "'q \<Rightarrow> u32"

abbreviation (input) EXCP_INTERRUPT :: int where "EXCP_INTERRUPT \<equiv> 0x10000"
abbreviation (input) EXCP_DEBUG :: int where "EXCP_DEBUG \<equiv> 0x10002"
abbreviation (input) EXCP_HALTED :: int where "EXCP_HALTED \<equiv> 0x10003"
abbreviation (input) CPU_INTERRUPT_EXIT :: u32 where "CPU_INTERRUPT_EXIT \<equiv> 0x01"
abbreviation (input) CPU_INTERRUPT_HARD :: u32 where "CPU_INTERRUPT_HARD \<equiv> 0x02"
abbreviation (input) CPU_INTERRUPT_SMI :: u32 where "CPU_INTERRUPT_SMI \<equiv> 0x40"
abbreviation (input) CPU_INTERRUPT_DEBUG :: u32 where "CPU_INTERRUPT_DEBUG \<equiv> 0x80"
abbreviation (input) CPU_INTERRUPT_VIRQ :: u32 where "CPU_INTERRUPT_VIRQ \<equiv> 0x100"
abbreviation (input) HF_INHIBIT_IRQ_MASK :: u32 where "HF_INHIBIT_IRQ_MASK \<equiv> 0x8"
abbreviation (input) HF_HALTED_MASK :: u32 where "HF_HALTED_MASK \<equiv> 0x40000"
abbreviation (input) HF_SMM_MASK :: u32 where "HF_SMM_MASK \<equiv> 0x80000"
abbreviation (input) HF_GIF_MASK :: u32 where "HF_GIF_MASK \<equiv> 0x100000"
abbreviation (input) HF_HIF_MASK :: u32 where "HF_HIF_MASK \<equiv> 0x200000"
abbreviation (input) IF_MASK :: u32 where "IF_MASK \<equiv> 0x200"
abbreviation (input) DF_MASK :: u32 where "DF_MASK \<equiv> 0x400"
abbreviation (input) CC_FLAGS :: u32 where "CC_FLAGS \<equiv> 0x8d5"
abbreviation (input) CC_OP_EFLAGS :: u32 where "CC_OP_EFLAGS \<equiv> 1"
abbreviation (input) VMCB_INT_CTL :: u32 where "VMCB_INT_CTL \<equiv> 0x60"
abbreviation (input) VMCB_INT_VECTOR :: u32 where "VMCB_INT_VECTOR \<equiv> 0x64"
abbreviation (input) V_IRQ_MASK :: u32 where "V_IRQ_MASK \<equiv> 0x100"

section \<open>The search for a block\<close>

text \<open>
  The loop over a hash chain. A block that goes on to a second page is only taken when that page is
  still where it was at translation; finding out may raise a page fault.
\<close>

partial_function (option) hash_search ::
  "('a tb_ctx_scheme) trans \<Rightarrow> u32 \<Rightarrow> u32 \<Rightarrow> u64 \<Rightarrow> u32 \<Rightarrow> hash_slot \<Rightarrow> 'a tb_ctx_scheme \<Rightarrow>
   (nat option, 'a tb_ctx_scheme) result option" where
  "hash_search X pc cs_base flags phys_page1 ptb1 q =
     (case get_hash ptb1 q of
        None \<Rightarrow> Some (Done None q)
      | Some tb \<Rightarrow>
          if tb_pc (tbs q tb) = pc \<and> page_addr (tbs q tb) 0 = phys_page1 \<and>
             tb_cs_base (tbs q tb) = cs_base \<and> tb_flags (tbs q tb) = flags then
            if page_addr (tbs q tb) 1 \<noteq> -1 then
              (case get_phys_addr_code X (page_bits pc + 0x1000) q of
                 None \<Rightarrow> None
               | Some (Longjmp q1) \<Rightarrow> Some (Longjmp q1)
               | Some (Done phys_page2 q1) \<Rightarrow>
                   if page_addr (tbs q1 tb) 1 = phys_page2 then Some (Done (Some tb) q1)
                   else hash_search X pc cs_base flags phys_page1 (HashNext tb) q1)
            else Some (Done (Some tb) q)
          else hash_search X pc cs_base flags phys_page1 (HashNext tb) q)"

definition tb_find_slow ::
  "('a tb_ctx_scheme) trans \<Rightarrow> u32 \<Rightarrow> u32 \<Rightarrow> u64 \<Rightarrow> 'a tb_ctx_scheme \<Rightarrow> (nat, 'a tb_ctx_scheme) result option" where
  "tb_find_slow X pc cs_base flags q =
     and_then (get_phys_addr_code X pc (q\<lparr>tb_invalidated_flag := False\<rparr>)) (\<lambda>phys_pc q1.
     and_then
       (and_then (hash_search X pc cs_base flags (page_bits phys_pc) (HashHead (tb_phys_hash_func phys_pc)) q1)
          (\<lambda>found q2.
             case found of
               Some tb \<Rightarrow> Some (Done tb q2)
             | None \<Rightarrow>
                 (case tb_alloc_flush X pc q2 of
                    None \<Rightarrow> None
                  | Some (flushed, tb, q3) \<Rightarrow>
                      let q4 = (if flushed then q3\<lparr>tb_invalidated_flag := True\<rparr> else q3) in
                      gen_and_link X tb pc phys_pc
                        (set_tb tb (\<lambda>b. b\<lparr>tc_ptr := code_gen_ptr q4, tb_cs_base := cs_base, tb_flags := flags\<rparr>) q4))))
       (\<lambda>tb q5. Some (Done tb (q5\<lparr>tb_jmp_cache := (tb_jmp_cache q5)(tb_jmp_cache_hash_func pc := Some tb)\<rparr>))))"

text \<open>The part of the CPU state that a block is specialised to, and the search; \<open>t0\<close> is \<^verbatim>\<open>T0\<close>.\<close>

definition cpu_tb_flags :: "'a tb_ctx_scheme \<Rightarrow> u64" where
  "cpu_tb_flags q = ucast (hflags q OR (eflags q AND IOPL_TF_VM_MASK)) OR intercept q"

definition tb_find_fast ::
  "('a tb_ctx_scheme) trans \<Rightarrow> tb_ref option \<Rightarrow> 'a tb_ctx_scheme \<Rightarrow> (nat \<times> tb_ref option, 'a tb_ctx_scheme) result option" where
  "tb_find_fast X t0 q =
     (let flags = cpu_tb_flags q; cs_base = cs_seg_base q; pc = cs_base + eip q in
      case tb_jmp_cache q (tb_jmp_cache_hash_func pc) of
        Some tb \<Rightarrow>
          if tb_pc (tbs q tb) \<noteq> pc \<or> tb_cs_base (tbs q tb) \<noteq> cs_base \<or> tb_flags (tbs q tb) \<noteq> flags
          then and_then (tb_find_slow X pc cs_base flags q)
                 (\<lambda>tb q1. Some (Done (tb, if tb_invalidated_flag q1 then None else t0) q1))
          else Some (Done (tb, t0) q)
      | None \<Rightarrow> and_then (tb_find_slow X pc cs_base flags q)
                 (\<lambda>tb q1. Some (Done (tb, if tb_invalidated_flag q1 then None else t0) q1)))"

section \<open>Running translated code\<close>

text \<open>
  The block whose code starts at a host address; of several, the one translated last, whose code
  is in the buffer.
\<close>

definition tb_at_code :: "u32 \<Rightarrow> 'a tb_ctx_scheme \<Rightarrow> nat option" where
  "tb_at_code a q = find (\<lambda>i. tc_ptr (tbs q i) = a) (rev [0..<nb_tbs q])"

text \<open>
  The call \<^verbatim>\<open>gen_func()\<close>. \<^verbatim>\<open>GOTO_TB\<close> jumps to the address in \<^verbatim>\<open>tb_next\<close>: as long as the jump is not
  patched that is the rest of the same block, which sets \<^verbatim>\<open>T0\<close> to the block and the number of the
  exit and returns to the loop; after \<^verbatim>\<open>tb_add_jump\<close> it is the code of another block.
\<close>

partial_function (option) gen_func ::
  "('a tb_ctx_scheme) engine \<Rightarrow> nat \<Rightarrow> 'a tb_ctx_scheme \<Rightarrow> (tb_ref option, 'a tb_ctx_scheme) result option" where
  "gen_func E tb q =
     (case translated_code E tb q of
        Longjmp q1 \<Rightarrow> Some (Longjmp q1)
      | Done Exit_tb q1 \<Rightarrow> Some (Done None q1)
      | Done (Goto_tb n) q1 \<Rightarrow>
          if tb_next (tbs q1 tb) n = tc_ptr (tbs q1 tb) + ucast (tb_next_offset (tbs q1 tb) n)
          then Some (Done (Some (tb, n)) q1)
          else (case tb_at_code (tb_next (tbs q1 tb) n) q1 of
                  None \<Rightarrow> None
                | Some tb1 \<Rightarrow> gen_func E tb1 q1))"

section \<open>Interrupts\<close>

text \<open>
  The branches for the kinds of interrupts; \<open>ir\<close> is the local copy of \<^verbatim>\<open>interrupt_request\<close>. The
  result is \<^verbatim>\<open>T0\<close>, which \<^verbatim>\<open>BREAK_CHAIN\<close> clears.
\<close>

definition deliver_interrupt ::
  "('a tb_ctx_scheme) trans \<Rightarrow> ('a tb_ctx_scheme) engine \<Rightarrow> u32 \<Rightarrow> tb_ref option \<Rightarrow> 'a tb_ctx_scheme \<Rightarrow>
   (tb_ref option, 'a tb_ctx_scheme) result option" where
  "deliver_interrupt X E ir t0 q =
     (if ir AND CPU_INTERRUPT_SMI \<noteq> 0 \<and> hflags q AND HF_SMM_MASK = 0 then
        and_then (Some (svm_check_intercept E 0x62 q)) (\<lambda>_ q1.
          Some (Done None (do_smm_enter E (q1\<lparr>interrupt_request := interrupt_request q1 AND NOT CPU_INTERRUPT_SMI\<rparr>))))
      else if ir AND CPU_INTERRUPT_HARD \<noteq> 0 \<and>
              (eflags q AND IF_MASK \<noteq> 0 \<or> hflags q AND HF_HIF_MASK \<noteq> 0) \<and> hflags q AND HF_INHIBIT_IRQ_MASK = 0 then
        and_then (Some (svm_check_intercept E 0x60 q)) (\<lambda>_ q1.
          case cpu_get_pic_interrupt E
                 (q1\<lparr>interrupt_request := interrupt_request q1 AND NOT (CPU_INTERRUPT_HARD OR CPU_INTERRUPT_VIRQ)\<rparr>) of
            (intno, q2) \<Rightarrow> and_then (Some (do_interrupt E intno 0 q2)) (\<lambda>_ q3. Some (Done None q3)))
      else if ir AND CPU_INTERRUPT_VIRQ \<noteq> 0 \<and> eflags q AND IF_MASK \<noteq> 0 \<and> hflags q AND HF_INHIBIT_IRQ_MASK = 0 then
        and_then (Some (svm_check_intercept E 0x64
                   (q\<lparr>interrupt_request := interrupt_request q AND NOT CPU_INTERRUPT_VIRQ\<rparr>))) (\<lambda>_ q1.
          case ldl_phys (h_board (x_host X)) (vm_vmcb q1 + VMCB_INT_VECTOR) q1 of
            (intno, q2) \<Rightarrow> and_then (Some (do_interrupt E intno (-1) q2)) (\<lambda>_ q3.
              case ldl_phys (h_board (x_host X)) (vm_vmcb q3 + VMCB_INT_CTL) q3 of
                (ctl, q4) \<Rightarrow> Some (Done None
                   (stl_phys (h_board (x_host X)) (vm_vmcb q4 + VMCB_INT_CTL) (ctl AND NOT V_IRQ_MASK) q4))))
      else Some (Done t0 q))"

definition service_interrupts ::
  "('a tb_ctx_scheme) trans \<Rightarrow> ('a tb_ctx_scheme) engine \<Rightarrow> tb_ref option \<Rightarrow> 'a tb_ctx_scheme \<Rightarrow>
   (tb_ref option, 'a tb_ctx_scheme) result option" where
  "service_interrupts X E t0 q =
     (let ir = interrupt_request q in
      if ir \<noteq> 0 \<and> hflags q AND HF_GIF_MASK \<noteq> 0 then
        if ir AND CPU_INTERRUPT_DEBUG \<noteq> 0 then
          Some (Longjmp (q\<lparr>interrupt_request := interrupt_request q AND NOT CPU_INTERRUPT_DEBUG,
                           exception_index := EXCP_DEBUG\<rparr>))
        else and_then (deliver_interrupt X E ir t0 q) (\<lambda>t1 q1.
          let exittb = (interrupt_request q1 AND CPU_INTERRUPT_EXITTB \<noteq> 0);
              q2 = (if exittb then q1\<lparr>interrupt_request := interrupt_request q1 AND NOT CPU_INTERRUPT_EXITTB\<rparr>
                    else q1) in
          if ir AND CPU_INTERRUPT_EXIT \<noteq> 0 then
            Some (Longjmp (q2\<lparr>interrupt_request := interrupt_request q2 AND NOT CPU_INTERRUPT_EXIT,
                              exception_index := EXCP_INTERRUPT\<rparr>))
          else Some (Done (if exittb then None else t1) q2))
      else Some (Done t0 q))"

section \<open>The loop\<close>

text \<open>
  The points of the loop: before \<^verbatim>\<open>setjmp\<close>, at the head of the inner loop with \<^verbatim>\<open>T0\<close>, after the
  search with the block found, after \<^verbatim>\<open>break\<close> with the value to return, and after the return.
\<close>

datatype 'q loop = Setjmp 'q | Lookup "tb_ref option" 'q | Found "tb_ref option" nat 'q | Break int 'q | Return int 'q

definition resume :: "('v, 'q) result option \<Rightarrow> ('v \<Rightarrow> 'q \<Rightarrow> 'q loop) \<Rightarrow> 'q loop option" where
  "resume r f = (case r of None \<Rightarrow> None | Some (Longjmp q) \<Rightarrow> Some (Setjmp q) | Some (Done v q) \<Rightarrow> Some (f v q))"

definition cpu_halted :: "'a cpu_x86_scheme \<Rightarrow> int \<times> 'a cpu_x86_scheme" where
  "cpu_halted q =
     (if hflags q AND HF_HALTED_MASK = 0 then (0, q)
      else if interrupt_request q AND CPU_INTERRUPT_HARD \<noteq> 0 \<and> eflags q AND IF_MASK \<noteq> 0
      then (0, q\<lparr>hflags := hflags q AND NOT HF_HALTED_MASK\<rparr>)
      else (EXCP_HALTED, q))"

definition cpu_exec_enter :: "'a exec_ctx_scheme \<Rightarrow> ('a exec_ctx_scheme) loop" where
  "cpu_exec_enter q =
     (case cpu_halted q of (r, q1) \<Rightarrow>
        if r = EXCP_HALTED then Return EXCP_HALTED q1
        else Setjmp (q1\<lparr>in_cpu_exec := True, cc_src := eflags q1 AND CC_FLAGS,
                        df := 1 - 2 * (drop_bit 10 (eflags q1) AND 1), cc_op := CC_OP_EFLAGS,
                        eflags := eflags q1 AND NOT (DF_MASK OR CC_FLAGS), exception_index := -1\<rparr>))"

definition setjmp_step :: "('a exec_ctx_scheme) engine \<Rightarrow> 'a exec_ctx_scheme \<Rightarrow> ('a exec_ctx_scheme) loop option" where
  "setjmp_step E q0 =
     (let q = q0\<lparr>current_tb := None\<rparr> in
      if 0 \<le> exception_index q then
        if EXCP_INTERRUPT \<le> exception_index q then Some (Break (exception_index q) q)
        else resume (Some (do_exception E q)) (\<lambda>_ q1. Lookup None (q1\<lparr>old_exception := -1, exception_index := -1\<rparr>))
      else Some (Lookup None q))"

definition lookup_step ::
  "('a exec_ctx_scheme) trans \<Rightarrow> ('a exec_ctx_scheme) engine \<Rightarrow> tb_ref option \<Rightarrow> 'a exec_ctx_scheme \<Rightarrow>
   ('a exec_ctx_scheme) loop option" where
  "lookup_step X E t0 q =
     resume (and_then (service_interrupts X E t0 q) (\<lambda>t1 q1. tb_find_fast X t1 q1)) (\<lambda>(tb, t2) q2. Found t2 tb q2)"

text \<open>The call of MemCheck, the patch of the jump that led here, and the run of the block.\<close>

definition run_step ::
  "('a exec_ctx_scheme) trans \<Rightarrow> ('a exec_ctx_scheme) engine \<Rightarrow> tb_ref option \<Rightarrow> nat \<Rightarrow> 'a exec_ctx_scheme \<Rightarrow>
   ('a exec_ctx_scheme) loop option" where
  "run_step X E t0 tb q =
     (let q1 = q\<lparr>mc := QEMU_DoAddress (x_machine X) (x_ambient X) q (mc q)\<rparr>;
          q2 = (case t0 of
                  Some (t, n) \<Rightarrow> if page_addr (tbs q1 tb) 1 = -1 then tb_add_jump t n tb q1 else q1
                | None \<Rightarrow> q1) in
      resume (gen_func E tb (q2\<lparr>current_tb := Some tb\<rparr>)) (\<lambda>t1 q3. Lookup t1 (q3\<lparr>current_tb := None\<rparr>)))"

definition cpu_exec_leave :: "('a exec_ctx_scheme) engine \<Rightarrow> 'a exec_ctx_scheme \<Rightarrow> 'a exec_ctx_scheme" where
  "cpu_exec_leave E q =
     q\<lparr>eflags := eflags q OR compute_all E q OR (df q AND DF_MASK), in_cpu_exec := False\<rparr>"

definition cpu_exec_step ::
  "('a exec_ctx_scheme) trans \<Rightarrow> ('a exec_ctx_scheme) engine \<Rightarrow> ('a exec_ctx_scheme) loop \<Rightarrow>
   ('a exec_ctx_scheme) loop option" where
  "cpu_exec_step X E l =
     (case l of
        Setjmp q \<Rightarrow> setjmp_step E q
      | Lookup t0 q \<Rightarrow> lookup_step X E t0 q
      | Found t0 tb q \<Rightarrow> run_step X E t0 tb q
      | Break r q \<Rightarrow> Some (Return r (cpu_exec_leave E q))
      | Return r q \<Rightarrow> None)"

end
