(* ===== verification/LoopChecker.thy ===== *)
theory LoopChecker
  imports CpuExec
begin

text \<open>
  The main loop and MemCheck together: whatever the emulator does, MemCheck's state is one that the
  runs of \<open>Checker\<close> reach, so what they guarantee holds while the guest runs.
\<close>

section \<open>Operations of the cache leave MemCheck alone\<close>

lemma set_tb_mc [simp]: "mc (set_tb t f q) = mc q"
  by (simp add: set_tb_def)

lemma set_jmp_mc [simp]: "mc (set_jmp p v q) = mc q"
  by (cases p) simp_all

lemma set_hash_mc [simp]: "mc (set_hash p v q) = mc q"
  by (cases p) simp_all

lemma reset_jump_mc [simp]: "mc (tb_reset_jump t n q) = mc q"
  by (simp add: tb_reset_jump_def tb_set_jmp_target_def)

lemma tb_add_jump_mc [simp]: "mc (tb_add_jump t n u q) = mc q"
  by (simp add: tb_add_jump_def tb_set_jmp_target_def Let_def)

lemma tb_alloc_page_mc [simp]: "mc (tb_alloc_page t n a q) = mc q"
  by (simp add: tb_alloc_page_def page_find_alloc_def set_page_def Let_def tlb_protect_code_def
      cpu_physical_memory_reset_dirty_def tlb_map_def split: option.split)

lemma tb_link_phys_mc [simp]: "mc (tb_link_phys t pc a q) = mc q"
  by (simp add: tb_link_phys_def Let_def)

lemma tb_alloc_mc: "tb_alloc X pc q = Some (t, q') \<Longrightarrow> mc q' = mc q"
  by (auto simp: tb_alloc_def split: if_splits)

lemma tb_alloc_flush_mc: "tb_alloc_flush X pc q = Some (f, t, q') \<Longrightarrow> mc q' = mc q"
  using tb_alloc_mc [of X pc "tb_flush X q" t q'] tb_alloc_mc [of X pc q t q']
  by (auto simp: tb_alloc_flush_def tb_flush_def page_flush_tb_def Let_def split: option.splits)

lemma recursive2_mc: "tb_reset_jump_recursive2 t n q = Some q' \<Longrightarrow> mc q' = mc q"
proof (erule tb_reset_jump_recursive2.raw_induct [where P = "\<lambda>t n q q'. mc q' = mc q", rotated])
  fix f t n and q q' :: "'a tb_ctx_scheme"
  assume IH: "\<And>t n q q'. f t n q = Some q' \<Longrightarrow> mc q' = mc q"
    and e: "(if jmp_next (tbs q t) n = None then Some q
      else Option.bind (jmp_head (jmp_next (tbs q t) n) q) (\<lambda>nxt.
        Option.bind (jmp_search (JmpFirst nxt) t n q) (\<lambda>ptb.
          let q1 = set_jmp (JmpNext t n) None (set_jmp ptb (jmp_next (tbs q t) n) q);
              q2 = tb_reset_jump t n q1 in
          Option.bind (f nxt 0 q2) (\<lambda>q3. f nxt 1 q3)))) = Some q'"
  show "mc q' = mc q"
    using e by (auto simp: Let_def bind_eq_Some_conv split: if_splits dest!: IH)
qed

lemma cpu_interrupt_mc: "cpu_interrupt_tb m q = Some q' \<Longrightarrow> mc q' = mc q"
  by (auto simp: cpu_interrupt_tb_def tb_reset_jump_recursive_def Let_def bind_eq_Some_conv
      split: option.splits if_splits dest!: recursive2_mc)

section \<open>Accesses\<close>

text \<open>What accesses of the guest make of MemCheck's state.\<close>

inductive accesses :: "'q Machine \<Rightarrow> memcheck \<Rightarrow> memcheck \<Rightarrow> bool" for M where
  none: "accesses M s s"
| one: "accesses M s s1 \<Longrightarrow> accesses M s (MemoryAccess_hook M am SHIFT q a s1)"

lemma accesses_trans: "accesses M s1 s2 \<Longrightarrow> accesses M s s1 \<Longrightarrow> accesses M s s2"
  by (induction rule: accesses.induct) (auto intro: accesses.one)

lemma accesses_run: "accesses M s s' \<Longrightarrow> checker_run M s\<^sub>0 s H \<Longrightarrow> checker_run M s\<^sub>0 s' H"
  by (induction rule: accesses.induct)
    (auto simp: MemoryAccess_hook_def intro: run_b run_w run_l run_q)

text \<open>The same of a step that returns or leaves by \<^verbatim>\<open>longjmp\<close>.\<close>

abbreviation state_of :: "('v, 'q) result \<Rightarrow> 'q" where
  "state_of r \<equiv> (case r of Done v q \<Rightarrow> q | Longjmp q \<Rightarrow> q)"

definition quiet_result :: "'q Machine \<Rightarrow> ('q \<Rightarrow> memcheck) \<Rightarrow> 'q \<Rightarrow> ('v, 'q) result option \<Rightarrow> bool" where
  "quiet_result M m q r \<longleftrightarrow> (\<forall>x. r = Some x \<longrightarrow> accesses M (m q) (m (state_of x)))"

lemma quiet_and_then:
  assumes "quiet_result M m q r" "\<And>v q1. r = Some (Done v q1) \<Longrightarrow> quiet_result M m q1 (f v q1)"
  shows "quiet_result M m q (and_then r f)"
proof (cases r)
  case (Some x)
  then show ?thesis
  proof (cases x)
    case (Done v q1)
    then have "accesses M (m q) (m q1)" "quiet_result M m q1 (f v q1)"
      using assms Some by (simp_all add: quiet_result_def)
    then show ?thesis using Some Done by (auto simp: quiet_result_def and_then_def intro: accesses_trans)
  qed (use assms(1) Some in \<open>simp add: quiet_result_def and_then_def\<close>)
qed (simp add: quiet_result_def and_then_def)

lemma quiet_start: "quiet_result M m q' r \<Longrightarrow> accesses M (m q) (m q') \<Longrightarrow> quiet_result M m q r"
  by (auto simp: quiet_result_def intro: accesses_trans)

lemma quiet_same: "m q' = m q \<Longrightarrow> quiet_result M m q (Some (Done v q'))" "m q' = m q \<Longrightarrow> quiet_result M m q (Some (Longjmp q'))"
  by (simp_all add: quiet_result_def accesses.none)

lemma quiet_None: "quiet_result M m q None"
  by (simp add: quiet_result_def)

text \<open>
  The surroundings of the loop reach MemCheck only through accesses of the guest: the translated
  code, the delivery of exceptions and interrupts, the translator, and the devices.
\<close>

definition board_quiet :: "('a tb_ctx_scheme) trans \<Rightarrow> bool" where
  "board_quiet X \<longleftrightarrow> (\<forall>r w a q. accesses (x_machine X) (mc q) (mc (snd (io_mem_read (h_board (x_host X)) r w a q)))) \<and>
     (\<forall>r w a v q. accesses (x_machine X) (mc q) (mc (io_mem_write (h_board (x_host X)) r w a v q))) \<and>
     (\<forall>s e w q. accesses (x_machine X) (mc q) (mc (tb_invalidate_phys_page_range (h_board (x_host X)) s e w q)))"

definition engine_quiet :: "('a tb_ctx_scheme) trans \<Rightarrow> ('a tb_ctx_scheme) engine \<Rightarrow> bool" where
  "engine_quiet X E \<longleftrightarrow>
     (\<forall>t q. quiet_result (x_machine X) mc q (Some (translated_code E t q))) \<and>
     (\<forall>q. quiet_result (x_machine X) mc q (Some (do_exception E q))) \<and>
     (\<forall>i e q. quiet_result (x_machine X) mc q (Some (do_interrupt E i e q))) \<and>
     (\<forall>c q. quiet_result (x_machine X) mc q (Some (svm_check_intercept E c q))) \<and>
     (\<forall>q. accesses (x_machine X) (mc q) (mc (do_smm_enter E q))) \<and>
     (\<forall>q. accesses (x_machine X) (mc q) (mc (snd (cpu_get_pic_interrupt E q)))) \<and>
     (\<forall>t q. quiet_result (x_machine X) mc q (Some (cpu_gen_code X t q)))"

lemma engine_quietD:
  assumes "engine_quiet X E"
  shows "quiet_result (x_machine X) mc q (Some (translated_code E t q))"
    "quiet_result (x_machine X) mc q (Some (do_exception E q))"
    "quiet_result (x_machine X) mc q (Some (do_interrupt E i e q))"
    "quiet_result (x_machine X) mc q (Some (svm_check_intercept E c q))"
    "accesses (x_machine X) (mc q) (mc (do_smm_enter E q))"
    "accesses (x_machine X) (mc q) (mc (snd (cpu_get_pic_interrupt E q)))"
    "quiet_result (x_machine X) mc q (Some (cpu_gen_code X t q))"
  using assms unfolding engine_quiet_def by blast+

section \<open>The search for a block\<close>

lemma get_phys_addr_code_quiet: "quiet_result (x_machine X) mc q (get_phys_addr_code X a q)"
proof -
  have "fst (ldu (x_machine X) (x_ambient X) (x_host X) True 0 cpu_mmu_index 0 a (mc q) q) =
      MemoryAccess_hook (x_machine X) (x_ambient X) 0 q a (mc q)"
    by (simp add: ldu_def Let_def)
  moreover have "accesses (x_machine X) (mc q) (MemoryAccess_hook (x_machine X) (x_ambient X) 0 q a (mc q))"
    by (rule accesses.one [OF accesses.none])
  ultimately show ?thesis
    unfolding get_phys_addr_code_def Let_def
    by (intro quiet_and_then)
      (auto simp: quiet_result_def accesses.none split: prod.splits option.splits sum.splits)
qed

lemma hash_search_quiet: "quiet_result (x_machine X) mc q (hash_search X pc b fl p1 slot q)"
proof -
  have "accesses (x_machine X) (mc q) (mc (state_of r))" if "hash_search X pc b fl p1 slot q = Some r" for r
    using that
  proof (rule hash_search.raw_induct [where P = "\<lambda>X pc b fl p1 slot q r. accesses (x_machine X) (mc q) (mc (state_of r))", rotated])
    fix f and X :: "('a tb_ctx_scheme) trans" and pc b p1 :: u32 and fl :: u64 and slot and q r
    assume IH: "\<And>X pc b fl p1 slot q r. f X pc b fl p1 slot q = Some r \<Longrightarrow> accesses (x_machine X) (mc q) (mc (state_of r))"
      and e: "(case get_hash slot q of
        None \<Rightarrow> Some (Done None q)
      | Some tb \<Rightarrow>
          if tb_pc (tbs q tb) = pc \<and> page_addr (tbs q tb) 0 = p1 \<and> tb_cs_base (tbs q tb) = b \<and> tb_flags (tbs q tb) = fl then
            if page_addr (tbs q tb) 1 \<noteq> -1 then
              (case get_phys_addr_code X (page_bits pc + 0x1000) q of
                 None \<Rightarrow> None
               | Some (Done p2 q1) \<Rightarrow>
                   if page_addr (tbs q1 tb) 1 = p2 then Some (Done (Some tb) q1)
                   else f X pc b fl p1 (HashNext tb) q1
               | Some (Longjmp q1) \<Rightarrow> Some (Longjmp q1))
            else Some (Done (Some tb) q)
          else f X pc b fl p1 (HashNext tb) q) = Some r"
    note g = get_phys_addr_code_quiet [of X q "page_bits pc + 0x1000", unfolded quiet_result_def]
    show "accesses (x_machine X) (mc q) (mc (state_of r))"
    proof (cases "get_phys_addr_code X (page_bits pc + 0x1000) q")
      case None
      then show ?thesis using e by (auto split: option.splits if_splits intro: accesses.none dest: IH)
    next
      case (Some x)
      then have x: "accesses (x_machine X) (mc q) (mc (state_of x))" using g by simp
      have "\<exists>q1. accesses (x_machine X) (mc q) (mc q1) \<and>
          (mc (state_of r) = mc q1 \<or> (\<exists>slot. f X pc b fl p1 slot q1 = Some r))"
        using e Some x by (cases x) (auto split: option.splits if_splits intro: accesses.none)
      then show ?thesis using accesses_trans IH by metis
    qed
  qed
  then show ?thesis by (simp add: quiet_result_def)
qed

lemma gen_and_link_quiet:
  assumes "engine_quiet X E"
  shows "quiet_result (x_machine X) mc q (gen_and_link X t pc ppc q)"
  unfolding gen_and_link_def Let_def
  by (intro quiet_and_then engine_quietD(7) [OF assms])
    (auto intro!: quiet_and_then quiet_same quiet_start [OF get_phys_addr_code_quiet] accesses.none)

lemma tb_find_slow_quiet:
  assumes E: "engine_quiet X E"
  shows "quiet_result (x_machine X) mc q (tb_find_slow X pc b fl q)"
  unfolding tb_find_slow_def
proof (intro quiet_and_then)
  show "quiet_result (x_machine X) mc q (get_phys_addr_code X pc (q\<lparr>tb_invalidated_flag := False\<rparr>))"
    by (rule quiet_start [OF get_phys_addr_code_quiet]) (simp add: accesses.none)
  show "quiet_result (x_machine X) mc q1 (hash_search X pc b fl p h q1)" for p h q1 by (rule hash_search_quiet)
  show "quiet_result (x_machine X) mc q2 (case found of Some tb \<Rightarrow> Some (Done tb q2)
      | None \<Rightarrow> (case tb_alloc_flush X pc q2 of None \<Rightarrow> None
         | Some (flushed, tb, q3) \<Rightarrow>
             let q4 = if flushed then q3\<lparr>tb_invalidated_flag := True\<rparr> else q3
             in gen_and_link X tb pc ppc
                 (set_tb tb (\<lambda>b'. b'\<lparr>tc_ptr := code_gen_ptr q4, tb_cs_base := b, tb_flags := fl\<rparr>) q4)))" for found q2 ppc
    using tb_alloc_flush_mc [of X pc q2]
    by (auto simp: Let_def accesses.none split: option.split
        intro!: quiet_same quiet_start [OF gen_and_link_quiet [OF E]] simp: quiet_None)
qed (simp add: quiet_same)

lemma tb_find_fast_quiet:
  assumes E: "engine_quiet X E"
  shows "quiet_result (x_machine X) mc q (tb_find_fast X t0 q)"
  unfolding tb_find_fast_def Let_def
  by (auto split: option.split intro!: quiet_and_then tb_find_slow_quiet [OF E] quiet_same)

section \<open>Interrupts and translated code\<close>

lemma phys_quiet:
  assumes "board_quiet X"
  shows "accesses (x_machine X) (mc q) (mc (snd (ldl_phys (h_board (x_host X)) a q)))"
    "accesses (x_machine X) (mc q) (mc (stl_phys (h_board (x_host X)) a v q))"
proof -
  have t: "accesses (x_machine X) (mc q) (mc (tb_invalidate_phys_page_range (h_board (x_host X)) s e w (q\<lparr>phys_ram := m\<rparr>)))" for s e w m
  proof -
    have "accesses (x_machine X) (mc (q\<lparr>phys_ram := m\<rparr>)) (mc (tb_invalidate_phys_page_range (h_board (x_host X)) s e w (q\<lparr>phys_ram := m\<rparr>)))"
      using assms by (simp only: board_quiet_def)
    then show ?thesis by simp
  qed
  show "accesses (x_machine X) (mc q) (mc (snd (ldl_phys (h_board (x_host X)) a q)))"
    using assms by (simp add: board_quiet_def ldl_phys_def Let_def accesses.none)
  show "accesses (x_machine X) (mc q) (mc (stl_phys (h_board (x_host X)) a v q))"
    using assms t by (simp add: board_quiet_def stl_phys_def mark_written_def Let_def accesses.none)
qed

lemma svm_quiet:
  assumes "engine_quiet X E" "m = mc q" "\<And>q1. quiet_result (x_machine X) mc q1 (f () q1)"
  shows "quiet_result (x_machine X) mc q (and_then (Some (svm_check_intercept E c (q\<lparr>interrupt_request := i\<rparr>))) f)"
    "quiet_result (x_machine X) mc q (and_then (Some (svm_check_intercept E c q)) f)"
  using assms(3) by (auto intro!: quiet_and_then quiet_start [OF engine_quietD(4) [OF assms(1)]] accesses.none)

lemma interrupt_quiet:
  assumes "engine_quiet X E" "accesses (x_machine X) (mc q) (mc q1)" "\<And>q2. quiet_result (x_machine X) mc q2 (f () q2)"
  shows "quiet_result (x_machine X) mc q (and_then (Some (do_interrupt E i e q1)) f)"
  using assms(2,3) by (auto intro!: quiet_and_then quiet_start [OF engine_quietD(3) [OF assms(1)]])

lemma deliver_interrupt_quiet:
  assumes E: "engine_quiet X E" and B: "board_quiet X"
  shows "quiet_result (x_machine X) mc q (deliver_interrupt X E ir t0 q)"
proof -
  have smm: "quiet_result (x_machine X) mc q1 (Some (Done None (do_smm_enter E (q1\<lparr>interrupt_request := i\<rparr>))))" for q1 i
    using engine_quietD(5) [OF E, of "q1\<lparr>interrupt_request := i\<rparr>"] by (simp add: quiet_result_def)
  have hard: "quiet_result (x_machine X) mc q1 (case cpu_get_pic_interrupt E (q1\<lparr>interrupt_request := i\<rparr>) of
      (intno, q2) \<Rightarrow> and_then (Some (do_interrupt E intno 0 q2)) (\<lambda>_ q3. Some (Done None q3)))" for q1 i
    using engine_quietD(6) [OF E, of "q1\<lparr>interrupt_request := i\<rparr>"]
    by (auto split: prod.split intro!: interrupt_quiet [OF E] quiet_same)
  have ctl: "quiet_result (x_machine X) mc q1 (case ldl_phys (h_board (x_host X)) a q1 of
      (ctl, q2) \<Rightarrow> Some (Done None (stl_phys (h_board (x_host X)) (g q2) (h ctl) q2)))" for q1 a g h
    using phys_quiet(1) [OF B, of q1 a]
    by (auto split: prod.split simp: quiet_result_def intro: accesses_trans [OF phys_quiet(2) [OF B]])
  have virq: "quiet_result (x_machine X) mc q1 (case ldl_phys (h_board (x_host X)) a q1 of
      (intno, q2) \<Rightarrow> and_then (Some (do_interrupt E intno (-1) q2)) (\<lambda>_ q3.
        case ldl_phys (h_board (x_host X)) (b q3) q3 of
          (ctl, q4) \<Rightarrow> Some (Done None (stl_phys (h_board (x_host X)) (g q4) (h ctl) q4))))" for q1 a b g h
    using phys_quiet(1) [OF B, of q1 a] ctl by (auto split: prod.split intro!: interrupt_quiet [OF E])
  show ?thesis
    unfolding deliver_interrupt_def
    by (simp only: split: if_split) (intro conjI impI svm_quiet [OF E refl] smm hard virq quiet_same refl)
qed

lemma service_interrupts_quiet:
  assumes "engine_quiet X E" "board_quiet X"
  shows "quiet_result (x_machine X) mc q (service_interrupts X E t0 q)"
  unfolding service_interrupts_def Let_def
  by (auto intro!: quiet_and_then deliver_interrupt_quiet [OF assms] quiet_same)

lemma gen_func_quiet:
  assumes E: "engine_quiet X E"
  shows "quiet_result (x_machine X) mc q (gen_func E t q)"
proof -
  have "\<forall>X. engine_quiet X E \<longrightarrow> accesses (x_machine X) (mc q) (mc (state_of r))" if "gen_func E t q = Some r" for r
    using that
  proof (rule gen_func.raw_induct [where P = "\<lambda>E t q r. \<forall>X. engine_quiet X E \<longrightarrow> accesses (x_machine X) (mc q) (mc (state_of r))", rotated],
      intro allI impI)
    fix f and E :: "('a tb_ctx_scheme) engine" and X :: "('a tb_ctx_scheme) trans" and t q r
    assume IH: "\<And>E t q r. f E t q = Some r \<Longrightarrow> \<forall>X. engine_quiet X E \<longrightarrow> accesses (x_machine X) (mc q) (mc (state_of r))"
      and X: "engine_quiet X E"
      and e: "(case translated_code E t q of
        Done Exit_tb q1 \<Rightarrow> Some (Done None q1)
      | Done (Goto_tb n) q1 \<Rightarrow>
          if tb_next (tbs q1 t) n = tc_ptr (tbs q1 t) + ucast (tb_next_offset (tbs q1 t) n)
          then Some (Done (Some (t, n)) q1)
          else (case tb_at_code (tb_next (tbs q1 t) n) q1 of None \<Rightarrow> None | Some tb1 \<Rightarrow> f E tb1 q1)
      | Longjmp q1 \<Rightarrow> Some (Longjmp q1)) = Some r"
    have a: "accesses (x_machine X) (mc q) (mc (state_of (translated_code E t q)))"
      using engine_quietD(1) [OF X, of q t] by (simp add: quiet_result_def)
    have "\<exists>q1. accesses (x_machine X) (mc q) (mc q1) \<and> (mc (state_of r) = mc q1 \<or> (\<exists>u. f E u q1 = Some r))"
      using e a by (auto split: result.splits block_exit.splits if_splits option.splits)
    then show "accesses (x_machine X) (mc q) (mc (state_of r))" using accesses_trans IH X by metis
  qed
  then show ?thesis using E by (simp add: quiet_result_def)
qed

section \<open>Runs of the loop\<close>

fun loop_state :: "'q loop \<Rightarrow> 'q" where
  "loop_state (Setjmp q) = q"
| "loop_state (Lookup t0 q) = q"
| "loop_state (Found t0 tb q) = q"
| "loop_state (Break r q) = q"
| "loop_state (Return r q) = q"

fun set_loop_state :: "'q \<Rightarrow> 'q loop \<Rightarrow> 'q loop" where
  "set_loop_state q (Setjmp _) = Setjmp q"
| "set_loop_state q (Lookup t0 _) = Lookup t0 q"
| "set_loop_state q (Found t0 tb _) = Found t0 tb q"
| "set_loop_state q (Break r _) = Break r q"
| "set_loop_state q (Return r _) = Return r q"

text \<open>The announcement that a step makes: the operation hooked at the address of the block that runs next.\<close>

definition loop_op :: "('a tb_ctx_scheme) trans \<Rightarrow> ('a tb_ctx_scheme) loop \<Rightarrow> shadow_op option" where
  "loop_op X l = (case l of Found t0 tb q \<Rightarrow> visit_op (x_machine X) q (mc q) | _ \<Rightarrow> None)"

text \<open>
  The runs: \<^verbatim>\<open>cpu_exec\<close> is entered again and again; between two steps other code of the emulator may
  request an interrupt, or run devices, which does not reach MemCheck. The heap is the one that the
  announcements give.
\<close>

inductive exec_run ::
  "('a exec_ctx_scheme) trans \<Rightarrow> ('a exec_ctx_scheme) engine \<Rightarrow> memcheck \<Rightarrow> ('a exec_ctx_scheme) loop \<Rightarrow> heap \<Rightarrow> bool"
  for X E s\<^sub>0 where
  start: "mc q = s\<^sub>0 \<Longrightarrow> exec_run X E s\<^sub>0 (cpu_exec_enter q) (abs_heap (mc_ShadowMemory s\<^sub>0))"
| again: "exec_run X E s\<^sub>0 (Return r q) H \<Longrightarrow> mc q' = mc q \<Longrightarrow> exec_run X E s\<^sub>0 (cpu_exec_enter q') H"
| plain: "exec_run X E s\<^sub>0 l H \<Longrightarrow> loop_op X l = None \<Longrightarrow> cpu_exec_step X E l = Some l' \<Longrightarrow> exec_run X E s\<^sub>0 l' H"
| announce: "exec_run X E s\<^sub>0 l H \<Longrightarrow> loop_op X l = Some x \<Longrightarrow> spec_pre H x \<Longrightarrow> cpu_exec_step X E l = Some l' \<Longrightarrow>
    exec_run X E s\<^sub>0 l' (snd (spec_step H x))"
| signal: "exec_run X E s\<^sub>0 l H \<Longrightarrow> cpu_interrupt_tb m (loop_state l) = Some q \<Longrightarrow> exec_run X E s\<^sub>0 (set_loop_state q l) H"

lemma loop_state_set [simp]: "loop_state (set_loop_state q l) = q"
  by (cases l) simp_all

lemma enter_mc [simp]: "mc (loop_state (cpu_exec_enter q)) = mc q"
  by (simp add: cpu_exec_enter_def cpu_halted_def)

lemma resume_quiet:
  assumes "resume r f = Some l" "quiet_result M mc q r" "\<And>v q1. mc (loop_state (f v q1)) = mc q1"
  shows "accesses M (mc q) (mc (loop_state l))"
  using assms by (auto simp: resume_def quiet_result_def split: option.splits result.splits)

text \<open>A step visits MemCheck once, when a block has been found; the rest is accesses.\<close>

lemma step_mc:
  assumes "engine_quiet X E" "board_quiet X" "cpu_exec_step X E l = Some l'"
  shows "accesses (x_machine X)
    (case l of Found t0 tb q \<Rightarrow> QEMU_DoAddress (x_machine X) (x_ambient X) q (mc q) | _ \<Rightarrow> mc (loop_state l))
    (mc (loop_state l'))"
proof (cases l)
  case (Setjmp q)
  let ?q = "q\<lparr>current_tb := None\<rparr>"
  have "accesses (x_machine X) (mc ?q) (mc (loop_state l'))"
    if "resume (Some (do_exception E ?q)) (\<lambda>_ q1. Lookup None (q1\<lparr>old_exception := -1, exception_index := -1\<rparr>)) = Some l'"
    by (rule resume_quiet [OF that engine_quietD(2) [OF assms(1)]]) simp
  then show ?thesis
    using assms(3) Setjmp by (auto simp: cpu_exec_step_def setjmp_step_def Let_def accesses.none split: if_splits)
next
  case (Lookup t0 q)
  have "quiet_result (x_machine X) mc q (and_then (service_interrupts X E t0 q) (\<lambda>t1 q1. tb_find_fast X t1 q1))"
    by (intro quiet_and_then service_interrupts_quiet tb_find_fast_quiet [OF assms(1)] assms(1,2))
  then show ?thesis
    using assms(3) Lookup by (auto simp: cpu_exec_step_def lookup_step_def intro!: resume_quiet split: prod.split)
next
  case (Found t0 tb q)
  define q1 where "q1 = q\<lparr>mc := QEMU_DoAddress (x_machine X) (x_ambient X) q (mc q)\<rparr>"
  define q2 where "q2 = (case t0 of Some (t, n) \<Rightarrow> if page_addr (tbs q1 tb) 1 = -1 then tb_add_jump t n tb q1 else q1
                | None \<Rightarrow> q1)\<lparr>current_tb := Some tb\<rparr>"
  have "mc q2 = mc q1" by (simp add: q2_def split: option.split prod.split)
  moreover have "resume (gen_func E tb q2) (\<lambda>t1 q3. Lookup t1 (q3\<lparr>current_tb := None\<rparr>)) = Some l'"
    using assms(3) Found unfolding q2_def q1_def by (simp add: cpu_exec_step_def run_step_def Let_def)
  then have "accesses (x_machine X) (mc q2) (mc (loop_state l'))"
    by (rule resume_quiet [OF _ gen_func_quiet [OF assms(1)]]) simp
  ultimately show ?thesis using Found by (simp add: q1_def)
qed (use assms(3) in \<open>auto simp: cpu_exec_step_def cpu_exec_leave_def accesses.none\<close>)

lemma exec_run_checker:
  assumes "exec_run X E s\<^sub>0 l H" "engine_quiet X E" "board_quiet X"
  shows "checker_run (x_machine X) s\<^sub>0 (mc (loop_state l)) H"
  using assms(1)
proof induction
  case (plain l H l')
  have "checker_run (x_machine X) s\<^sub>0 (case l of Found t0 tb q \<Rightarrow> QEMU_DoAddress (x_machine X) (x_ambient X) q (mc q)
      | _ \<Rightarrow> mc (loop_state l)) H"
    using plain.IH plain.hyps(2) by (cases l) (simp_all add: loop_op_def run_visit)
  then show ?case by (rule accesses_run [OF step_mc [OF assms(2,3) plain.hyps(3)]])
next
  case (announce l H x l')
  have "checker_run (x_machine X) s\<^sub>0 (case l of Found t0 tb q \<Rightarrow> QEMU_DoAddress (x_machine X) (x_ambient X) q (mc q)
      | _ \<Rightarrow> mc (loop_state l)) (snd (spec_step H x))"
    using announce.IH announce.hyps(2,3) by (cases l) (simp_all add: loop_op_def run_hook)
  then show ?case by (rule accesses_run [OF step_mc [OF assms(2,3) announce.hyps(4)]])
qed (auto simp: run_start dest: cpu_interrupt_mc)

end
