(* ===== verification/LoopTheorems.thy ===== *)
theory LoopTheorems
  imports LoopChecker
begin

text \<open>
  What the main loop guarantees: accesses of the guest are checked against the heap that it has
  announced, a request to leave the loop is honoured, and the block that runs is the one for the
  state of the CPU.
\<close>

section \<open>A run\<close>

text \<open>
  A guest that calls \<^verbatim>\<open>MemCheck_Alloc\<close>: the CPU is at the hook with the arguments in \<^verbatim>\<open>EAX\<close> and
  \<^verbatim>\<open>EDX\<close>, and the block of that address is in the cache by virtual address.
\<close>

definition guest_board :: "exec_ctx board" where
  "guest_board = \<lparr>io_mem_read = (\<lambda>_ _ _ q. (0, q)), io_mem_write = (\<lambda>_ _ _ _ q. q),
     tb_invalidate_phys_page_range = (\<lambda>_ _ _ q. q)\<rparr>"

definition guest_trans :: "exec_ctx trans" where
  "guest_trans = \<lparr>x_host = \<lparr>h_board = guest_board, h_restore = (\<lambda>_ q. q), h_time = (\<lambda>_. 0)\<rparr>,
     x_machine = i386_machine guest_board, x_ambient = quiet, cpu_gen_code = (\<lambda>_ q. Done 64 q),
     cpu_restore_state = (\<lambda>_ _ q. q), code_gen_buffer = 0x8000000, code_gen_max_block_size = 0x1000\<rparr>"

definition guest_engine :: "exec_ctx engine" where
  "guest_engine = \<lparr>translated_code = (\<lambda>_ q. Done Exit_tb (q\<lparr>eip := 0xc0100040\<rparr>)), do_exception = (\<lambda>q. Done () q),
     do_interrupt = (\<lambda>_ _ q. Done () q), svm_check_intercept = (\<lambda>_ q. Done () q), do_smm_enter = (\<lambda>q. q),
     cpu_get_pic_interrupt = (\<lambda>q. (0, q)), compute_all = (\<lambda>_. 0)\<rparr>"

definition guest_block :: TranslationBlock where
  "guest_block = blank_tb\<lparr>tb_pc := 0xc0100000, tb_flags := 0x100003, tb_size := 0x20, tc_ptr := 0x8000000,
     page_addr := (\<lambda>n. if n = 1 then -1 else 0x100000)\<rparr>"

definition guest_cpu :: exec_ctx where
  "guest_cpu = tb_ctx.extend (sample_cache\<lparr>eip := 0xc0100000, hflags := 0x100003, eflags := 2,
       regs := (\<lambda>r. if r = R_EAX then 0xc1000000 else if r = R_EDX then 16 else 0), mc := hooked,
       tbs := (\<lambda>_. guest_block), nb_tbs := 1, tb_jmp_cache := (\<lambda>_. Some 0)\<rparr>)
     (exec_ctx.fields 0 0 0 0)"

definition guest_after :: "exec_ctx loop" where
  "guest_after = the (cpu_exec_step guest_trans guest_engine (the (cpu_exec_step guest_trans guest_engine
     (the (cpu_exec_step guest_trans guest_engine (cpu_exec_enter guest_cpu))))))"

lemma guest_quiet: "engine_quiet guest_trans guest_engine" "board_quiet guest_trans"
  by (simp_all add: engine_quiet_def board_quiet_def quiet_result_def guest_trans_def guest_engine_def guest_board_def
      accesses.none)

lemma guest_fields:
  "eip guest_cpu = 0xc0100000" "hflags guest_cpu = 0x100003" "eflags guest_cpu = 2" "regs guest_cpu R_EAX = 0xc1000000"
  "regs guest_cpu R_EDX = 16" "mc guest_cpu = hooked" "tbs guest_cpu t = guest_block" "tb_jmp_cache guest_cpu h = Some 0"
  "cs_seg_base guest_cpu = 0" "intercept guest_cpu = 0" "interrupt_request guest_cpu = 0"
  by (simp_all add: guest_cpu_def tb_ctx.defs sample_cache_def cpu_x86.defs sample_x86_def exec_ctx.defs)

definition guest_entered :: exec_ctx where
  "guest_entered = guest_cpu\<lparr>in_cpu_exec := True, cc_src := 0, df := 1, cc_op := 1, exception_index := -1, current_tb := None\<rparr>"

lemma guest_enter: "\<exists>q. cpu_exec_enter guest_cpu = Setjmp q \<and> exception_index q = -1 \<and> q\<lparr>current_tb := None\<rparr> = guest_entered"
  by (simp add: cpu_exec_enter_def cpu_halted_def guest_fields guest_entered_def)

lemma entered_fields:
  "eip guest_entered = 0xc0100000" "hflags guest_entered = 0x100003" "eflags guest_entered = 2"
  "regs guest_entered R_EAX = 0xc1000000" "regs guest_entered R_EDX = 16" "mc guest_entered = hooked"
  "tbs guest_entered t = guest_block" "tb_jmp_cache guest_entered h = Some 0"
  "cs_seg_base guest_entered = 0" "intercept guest_entered = 0" "interrupt_request guest_entered = 0"
  "exception_index guest_entered = -1"
  by (simp_all add: guest_entered_def guest_fields)

lemma guest_steps:
  "cpu_exec_step guest_trans guest_engine (cpu_exec_enter guest_cpu) = Some (Lookup None guest_entered)"
  "cpu_exec_step guest_trans guest_engine (Lookup None guest_entered) = Some (Found None 0 guest_entered)"
  "loop_op guest_trans (Found None 0 guest_entered) = Some (Alloc 0xc1000000 16)"
proof -
  show "cpu_exec_step guest_trans guest_engine (cpu_exec_enter guest_cpu) = Some (Lookup None guest_entered)"
    using guest_enter by (auto simp: cpu_exec_step_def setjmp_step_def Let_def entered_fields)
  show "cpu_exec_step guest_trans guest_engine (Lookup None guest_entered) = Some (Found None 0 guest_entered)"
    by (simp add: cpu_exec_step_def lookup_step_def service_interrupts_def entered_fields and_then_def tb_find_fast_def
        guest_block_def blank_tb_def cpu_tb_flags_def resume_def)
  show "loop_op guest_trans (Found None 0 guest_entered) = Some (Alloc 0xc1000000 16)"
    by (simp add: loop_op_def visit_op_def guest_trans_def i386_machine_def i386_GetPC_def entered_fields hooked_def
        initial_memcheck_def NewFunction_def AddressOfInterest_NewFunction_def class_op_def i386_GetArgument1_def
        i386_GetArgument2_def)
qed

lemma guest_last:
  "\<exists>q. cpu_exec_step guest_trans guest_engine (Found None 0 guest_entered) = Some (Lookup None q) \<and> guest_after = Lookup None q \<and>
     mc q = QEMU_DoAddress (x_machine guest_trans) quiet guest_entered hooked"
proof -
  have "gen_func guest_engine t q = Some (Done None (q\<lparr>eip := 0xc0100040\<rparr>))" for t and q :: exec_ctx
    by (subst gen_func.simps) (simp add: guest_engine_def)
  then have "\<exists>q. cpu_exec_step guest_trans guest_engine (Found None 0 guest_entered) = Some (Lookup None q) \<and>
     mc q = QEMU_DoAddress (x_machine guest_trans) quiet guest_entered hooked"
    by (simp add: cpu_exec_step_def run_step_def resume_def Let_def entered_fields) (simp add: guest_trans_def)
  then show ?thesis by (auto simp: guest_after_def guest_steps)
qed

lemma guest_run: "exec_run guest_trans guest_engine hooked guest_after {(0xc1000000, 16)}"
proof -
  have e: "abs_heap (mc_ShadowMemory hooked) = {}" by (simp add: hooked_fields abs_heap_def)
  have "exec_run guest_trans guest_engine hooked (cpu_exec_enter guest_cpu) {}"
    using exec_run.start [of guest_cpu hooked guest_trans guest_engine] e by (simp add: guest_fields)
  then have "exec_run guest_trans guest_engine hooked (Lookup None guest_entered) {}"
    by (rule exec_run.plain [OF _ _ guest_steps(1)]) (use guest_enter in \<open>auto simp: loop_op_def\<close>)
  then have "exec_run guest_trans guest_engine hooked (Found None 0 guest_entered) {}"
    by (rule exec_run.plain [OF _ _ guest_steps(2)]) (simp add: loop_op_def)
  moreover have "spec_pre {} (Alloc 0xc1000000 16)" "snd (spec_step {} (Alloc 0xc1000000 16)) = {(0xc1000000, 16)}"
    by (simp_all add: spec_alloc_def)
  ultimately show ?thesis
    using exec_run.announce [OF _ guest_steps(3)] guest_last by metis
qed

lemma guest_after_enabled: "\<not> mc_MemoryAccessDisable (mc (loop_state guest_after))"
proof -
  obtain q where q: "guest_after = Lookup None q" "mc q = QEMU_DoAddress (x_machine guest_trans) quiet guest_entered hooked"
    using guest_last by blast
  have "\<not> mc_MemoryAccessDisable (QEMU_DoAddress (x_machine guest_trans) quiet guest_entered hooked)"
    by (simp add: guest_trans_def hooked_def initial_memcheck_def NewFunction_def AddressOfInterest_NewFunction_def
        QEMU_DoAddress_def DoAddress_def FunctionInterceptor_DoAddress_def enter_function_def Enter_def debug_enter_def
        Let_def i386_machine_def i386_GetPC_def entered_fields)
  then show ?thesis unfolding q(1) loop_state.simps q(2) .
qed

section \<open>Properties\<close>

text \<open>
  \<^bold>\<open>C1\<close>. Emulator and checker together: at any moment of any run of the main loop, also in the midst of
  a block (\<open>s\<close> is what the accesses of the block have made of MemCheck's state), a load or store of
  the guest of any size is reported exactly when checking is on, its address lies in the monitored
  range and none of its bytes belongs to a block that the guest has announced and not freed; the
  report is the only effect on MemCheck. Assumed: code outside the model calls MemCheck only through
  guest accesses.
\<close>

theorem guest_access_checked:
  assumes "exec_run X E s\<^sub>0 l H" "engine_quiet X E" "board_quiet X" "checker_inv s\<^sub>0"
    and "accesses (x_machine X) (mc (loop_state l)) s" "SHIFT \<le> 3" "unat a + 2 ^ SHIFT < 2 ^ 32"
    and "r = fst (ldu (x_machine X) am H' code SHIFT idx ra a s q) \<or> r = fst (lds (x_machine X) am H' code SHIFT idx ra a s q) \<or>
      r = fst (st (x_machine X) am H' SHIFT idx ra a v s q)"
  shows "if \<not> mc_MemoryAccessDisable s \<and> mc_MemoryAccessStart s\<^sub>0 \<le> a \<and> a < mc_MemoryAccessStop s\<^sub>0 \<and>
       {unat a..<unat a + 2 ^ SHIFT} \<inter> (\<Union>x\<in>H. span x) = {}
    then \<exists>os. r = emit (OutOfBound a (2 ^ SHIFT) # os) s else r = s"
proof -
  have "checker_run (x_machine X) s\<^sub>0 s H"
    by (rule accesses_run [OF assms(5) exec_run_checker [OF assms(1-3)]])
  then have ok: "run_ok s\<^sub>0 s H" by (rule run_invariant [OF _ assms(4)])
  then have al: "allocated (mc_ShadowMemory s) = (\<Union>x\<in>H. span x)" by (simp add: run_ok_def allocated_span)
  have w: "wf_shadow (mc_ShadowMemory s)" "range_of s = range_of s\<^sub>0" using ok by (simp_all add: run_ok_def checker_inv_def)
  consider "SHIFT = 0" | "SHIFT = 1" | "SHIFT = 2" | "SHIFT = 3" using assms(6) by linarith
  then have "r = MemoryAccess (x_machine X) am q a (2 ^ SHIFT) s \<and> unat (2 ^ SHIFT :: u32) = 2 ^ SHIFT"
    using assms(8)
    by cases (auto simp: ldu_def lds_def st_def Let_def MemoryAccess_hook_def MemoryAccess_b_def MemoryAccess_w_def
        MemoryAccess_l_def MemoryAccess_q_def)
  then show ?thesis
    using MemoryAccess_outcome [OF w(1), of a "2 ^ SHIFT" "x_machine X" am q] assms(7) w(2) al
    by (simp add: range_of_def max_def)
qed

theorem guest_access_checked_witness:
  "(\<exists>os. fst (ldu (x_machine guest_trans) quiet (x_host guest_trans) False 2 cpu_mmu_index 0 0xc1000020
       (mc (loop_state guest_after)) guest_cpu) = emit (OutOfBound 0xc1000020 4 # os) (mc (loop_state guest_after))) \<and>
   fst (ldu (x_machine guest_trans) quiet (x_host guest_trans) False 2 cpu_mmu_index 0 0xc100000c
       (mc (loop_state guest_after)) guest_cpu) = mc (loop_state guest_after)"
proof -
  have sp: "span (0xc1000000, 16) = {0xc1000000..<0xc1000010}" by (simp add: span_def)
  have "{0xc100000c..<0xc1000010 :: nat} \<inter> {0xc1000000..<0xc1000010} \<noteq> {}"
    by (auto intro!: exI [of _ "0xc100000c"])
  then show ?thesis
    using guest_access_checked [OF guest_run guest_quiet hooked_inv accesses.none, of 2 "0xc1000020"
        "fst (ldu (x_machine guest_trans) quiet (x_host guest_trans) False 2 cpu_mmu_index 0 0xc1000020
          (mc (loop_state guest_after)) guest_cpu)" quiet "x_host guest_trans" False cpu_mmu_index 0 guest_cpu]
      guest_access_checked [OF guest_run guest_quiet hooked_inv accesses.none, of 2 "0xc100000c"
        "fst (ldu (x_machine guest_trans) quiet (x_host guest_trans) False 2 cpu_mmu_index 0 0xc100000c
          (mc (loop_state guest_after)) guest_cpu)" quiet "x_host guest_trans" False cpu_mmu_index 0 guest_cpu]
      guest_after_enabled
    by (simp add: hooked_fields sp)
qed

end
