(* ===== verification/LoopLookup.thy ===== *)
theory LoopLookup
  imports LoopTheorems
begin

text \<open>
  The search for a block finds the block for the state of the CPU: fetching guest code does not
  disturb the blocks, and every way through the search ends at a block with the address and the
  flags asked for.
\<close>

section \<open>Fetching code leaves the blocks alone\<close>

text \<open>The blocks, and the part of the CPU state that selects one.\<close>

definition tb_view :: "'a tb_ctx_scheme \<Rightarrow> _" where
  "tb_view q = (tbs q, tb_phys_hash q, cs_seg_base q, eip q, hflags q, eflags q, intercept q)"

text \<open>Device accesses during a page walk do not change the CPU or the blocks.\<close>

definition view_quiet :: "('a tb_ctx_scheme) board \<Rightarrow> bool" where
  "view_quiet B \<longleftrightarrow> (\<forall>r w a q. tb_view (snd (io_mem_read B r w a q)) = tb_view q) \<and>
     (\<forall>r w a v q. tb_view (io_mem_write B r w a v q) = tb_view q)"

lemma view_ram [simp]: "tb_view (q\<lparr>phys_ram := m\<rparr>) = tb_view q" "tb_view (q\<lparr>tlb_table := t\<rparr>) = tb_view q"
  "tb_view (q\<lparr>last_io_time := x\<rparr>) = tb_view q" "tb_view (q\<lparr>watchpoints := y\<rparr>) = tb_view q"
  "tb_view (q\<lparr>mc := s\<rparr>) = tb_view q" "tb_view (q\<lparr>tb_invalidated_flag := f\<rparr>) = tb_view q"
  "tb_view (q\<lparr>phys_ram_dirty := d\<rparr>) = tb_view q"
  by (simp_all add: tb_view_def)

lemma phys_view:
  assumes "view_quiet B"
  shows "tb_view (snd (ldl_phys B a q)) = tb_view q" "tb_view (snd (ldq_phys B a q)) = tb_view q"
    "tb_view (stl_phys_notdirty B a v q) = tb_view q" "tb_view (snd (mark_entry B w a e q)) = tb_view q"
proof -
  note q = assms [unfolded view_quiet_def]
  show l: "tb_view (snd (ldl_phys B a q)) = tb_view q" for a q using q by (simp add: ldl_phys_def Let_def)
  show "tb_view (snd (ldq_phys B a q)) = tb_view q"
    using q unfolding ldq_phys_def Let_def by (auto split: prod.split) (metis snd_conv)
  show s: "tb_view (stl_phys_notdirty B a v q) = tb_view q" for a v q using q by (simp add: stl_phys_notdirty_def Let_def)
  show "tb_view (snd (mark_entry B w a e q)) = tb_view q" by (simp add: mark_entry_def Let_def s)
qed

lemma walk_view:
  assumes "view_quiet B"
  shows "tb_view (snd (legacy_walk B a u w q)) = tb_view q" "tb_view (snd (pae_leaf B a w1 u e p q)) = tb_view q"
    "tb_view (snd (pae_walk B a w1 u q)) = tb_view q"
proof -
  note P = phys_view [OF assms]
  have l: "ldl_phys B a q = (x, q1) \<Longrightarrow> tb_view q1 = tb_view q" for a q x q1 using P(1) [of a q] by simp
  have m: "mark_entry B w a e q = (x, q1) \<Longrightarrow> tb_view q1 = tb_view q" for w a q q1 and e x :: "'w::len word"
    using P(4) [of w a e q] by simp
  have d: "ldq_phys B a q = (x, q1) \<Longrightarrow> tb_view q1 = tb_view q" for a q x q1 using P(2) [of a q] by simp
  show "tb_view (snd (legacy_walk B a u w q)) = tb_view q"
    by (auto simp: legacy_walk_def Let_def dest!: l m split: prod.split)
  show f: "tb_view (snd (pae_leaf B a w1 u e p q)) = tb_view q" for e p q
    by (auto simp: pae_leaf_def Let_def dest!: d m split: prod.split)
  show "tb_view (snd (pae_walk B a w1 u q)) = tb_view q"
    by (auto simp: pae_walk_def Let_def f dest!: d m split: prod.split)
qed

lemma set_page_view: "tb_view (snd (tlb_set_page_exec v p prot m q)) = tb_view q"
  by (simp add: tlb_set_page_exec_def Let_def watch_page_def split: prod.split)

lemma handle_fault_view:
  assumes "view_quiet B" "cpu_x86_handle_mmu_fault B a w m q = (0, q')"
  shows "tb_view q' = tb_view q"
proof -
  note W = walk_view [OF assms(1)]
  have map: "do_mapping a pte v sz prot m p = (0, q') \<Longrightarrow> tb_view q' = tb_view p" for pte v sz prot p
    unfolding do_mapping_def Let_def by (metis set_page_view snd_conv)
  have no: "do_fault B a w u c p \<noteq> (0, q')" for u c p by (simp add: do_fault_def Let_def)
  have l: "legacy_walk B a u x q = (r, p) \<Longrightarrow> tb_view p = tb_view q" for u x r p using W(1) [of a u x q] by simp
  have e: "pae_walk B a x u q = (r, p) \<Longrightarrow> tb_view p = tb_view q" for u x r p using W(3) [of a x u q] by simp
  show ?thesis
    using assms(2) no
    by (auto simp: cpu_x86_handle_mmu_fault_def Let_def split: if_splits prod.splits walk.splits dest!: map l e)
qed

lemma tlb_fill_view: "view_quiet B \<Longrightarrow> tlb_fill B rs a w m ra q = (None, q') \<Longrightarrow> tb_view q' = tb_view q"
  by (auto simp: tlb_fill_def Let_def split: prod.splits if_splits intro: handle_fault_view)

lemma io_read_view:
  assumes "view_quiet (h_board H)"
  shows "tb_view (snd (io_read H 0 p t q)) = tb_view q"
  using assms unfolding view_quiet_def io_read_def Let_def by (auto split: prod.split) (metis snd_conv)

text \<open>A byte never needs two accesses.\<close>

lemma byte_simple: "\<not> misaligned 0 a" "\<not> spans_pages 0 a"
proof -
  show "\<not> misaligned 0 a" by (simp add: misaligned_def)
  have "offset_bits a < 0x1000" using offset_less [of a] by (simp add: word_less_nat_alt)
  then show "\<not> spans_pages 0 a" by (simp add: spans_pages_def not_le)
qed

lemma ld_mmu_view:
  assumes "ld_mmu H code 0 m ra a q = Some (Inr v, q')" "view_quiet (h_board H)"
  shows "tb_view q' = tb_view q"
proof -
  have "\<forall>v q'. view_quiet (h_board H) \<longrightarrow> n = 0 \<longrightarrow> r = (Inr v, q') \<longrightarrow> tb_view q' = tb_view q"
    if "ld_mmu H code n m ra a q = Some r" for n r
    using that
  proof (rule ld_mmu.raw_induct [where P = "\<lambda>H code n m ra a q r. \<forall>v q'. view_quiet (h_board H) \<longrightarrow> n = 0 \<longrightarrow>
        r = (Inr v, q') \<longrightarrow> tb_view q' = tb_view q", rotated], intro allI impI)
    fix f and H :: "('a tb_ctx_scheme) host" and code n m ra a q r and v q'
    assume IH: "\<And>H code n m ra a q r. f H code n m ra a q = Some r \<Longrightarrow>
        \<forall>v q'. view_quiet (h_board H) \<longrightarrow> n = 0 \<longrightarrow> r = (Inr v, q') \<longrightarrow> tb_view q' = tb_view q"
      and h: "view_quiet (h_board H)" "n = 0" "r = (Inr v, q')"
      and e: "(let te = tlb_table q m (tlb_index a); tlb_addr = ADDR_READ code te in
      if tlb_matches a tlb_addr then
        let physaddr = a + addend te in
        if offset_bits tlb_addr \<noteq> 0 \<and> \<not> misaligned n a then
          case io_read H n physaddr tlb_addr q of (v, q1) \<Rightarrow> Some (Inr v, q1)
        else if offset_bits tlb_addr \<noteq> 0 \<or> spans_pages n a then
          slow_ld H code n m ra a q
        else Some (Inr (ld_raw n physaddr q), q)
      else
        case tlb_fill (h_board H) (h_restore H) a (READ_ACCESS_TYPE code) m ra q of
          (None, q1) \<Rightarrow> f H code n m ra a q1
        | (Some e, q1) \<Rightarrow> Some (Inl e, q1)) = Some r"
    have io: "io_read H 0 p t q = (x, q1) \<Longrightarrow> tb_view q1 = tb_view q" for p t x q1
      using io_read_view [OF h(1), of p t q] by simp
    show "tb_view q' = tb_view q"
    proof (cases "tlb_matches a (ADDR_READ code (tlb_table q m (tlb_index a)))")
      case True
      then show ?thesis using e h by (auto simp: Let_def byte_simple split: if_splits prod.splits dest!: io)
    next
      case False
      then obtain q1 where "tlb_fill (h_board H) (h_restore H) a (READ_ACCESS_TYPE code) m ra q = (None, q1)"
        "f H code n m ra a q1 = Some r"
        using e h by (auto simp: Let_def split: prod.splits option.splits)
      then show ?thesis using tlb_fill_view [OF h(1)] IH h by metis
    qed
  qed
  then show ?thesis using assms by blast
qed

lemma get_phys_addr_code_view:
  assumes q: "view_quiet (h_board (x_host X))" and g: "get_phys_addr_code X a q = Some (Done p q')"
  shows "tb_view q' = tb_view q"
proof -
  have l: "tb_view q1 = tb_view q" if "ldu M am (x_host X) True 0 i ra a s q = (s', Some (Inr v, q1))" for M am i ra s s' v q1
    using that ld_mmu_view [OF _ q] by (auto simp: ldu_def Let_def split: if_splits)
  show ?thesis
    using g unfolding get_phys_addr_code_def Let_def and_then_def
    by (auto split: if_splits option.splits prod.splits sum.splits result.splits dest!: l)
qed

section \<open>The search\<close>

text \<open>What a block is looked up by, and the same of the CPU.\<close>

definition tb_key :: "TranslationBlock \<Rightarrow> u32 \<times> u32 \<times> u64" where
  "tb_key b = (tb_pc b, tb_cs_base b, tb_flags b)"

definition cpu_key :: "'a tb_ctx_scheme \<Rightarrow> u32 \<times> u32 \<times> u64" where
  "cpu_key q = (cs_seg_base q + eip q, cs_seg_base q, cpu_tb_flags q)"

lemma view_key: "tb_view q' = tb_view q \<Longrightarrow> tbs q' = tbs q \<and> tb_phys_hash q' = tb_phys_hash q \<and> cpu_key q' = cpu_key q"
  by (simp add: tb_view_def cpu_key_def cpu_tb_flags_def)

text \<open>The translator fills in the block it is given, and does not change the state of the CPU.\<close>

definition gen_keeps :: "('a tb_ctx_scheme) trans \<Rightarrow> bool" where
  "gen_keeps X \<longleftrightarrow> (\<forall>t q n q1. cpu_gen_code X t q = Done n q1 \<longrightarrow> tb_key (tbs q1 t) = tb_key (tbs q t) \<and> cpu_key q1 = cpu_key q)"

lemma hash_search_view:
  assumes "hash_search X pc b fl p1 slot q = Some (Done v q')" "view_quiet (h_board (x_host X))"
  shows "tb_view q' = tb_view q \<and> (\<forall>t. v = Some t \<longrightarrow> tb_key (tbs q' t) = (pc, b, fl))"
proof -
  let ?P = "\<lambda>X pc b fl q r. \<forall>v q'. view_quiet (h_board (x_host X)) \<longrightarrow> r = Done v q' \<longrightarrow>
      tb_view q' = tb_view q \<and> (\<forall>t. v = Some t \<longrightarrow> tb_key (tbs q' t) = (pc, b, fl))"
  have "?P X pc b fl q r" if "hash_search X pc b fl p1 slot q = Some r" for r
    using that
  proof (rule hash_search.raw_induct [where P = "\<lambda>X pc b fl p1 slot q r. ?P X pc b fl q r", rotated], intro allI impI)
    fix f and X :: "('a tb_ctx_scheme) trans" and pc b p1 :: u32 and fl :: u64 and slot q r v q'
    assume IH: "\<And>X pc b fl p1 slot q r. f X pc b fl p1 slot q = Some r \<Longrightarrow> ?P X pc b fl q r"
      and h: "view_quiet (h_board (x_host X))" "r = Done v q'"
      and e: "(case get_hash slot q of
        None \<Rightarrow> Some (Done None q)
      | Some tb \<Rightarrow>
          if tb_pc (tbs q tb) = pc \<and> page_addr (tbs q tb) 0 = p1 \<and> tb_cs_base (tbs q tb) = b \<and> tb_flags (tbs q tb) = fl then
            if page_addr (tbs q tb) 1 \<noteq> -1 then
              (case get_phys_addr_code X (page_bits pc + 0x1000) q of
                 None \<Rightarrow> None
               | Some (Done p2 q1) \<Rightarrow>
                   if page_addr (tbs q1 tb) 1 = p2 then Some (Done (Some tb) q1)
                   else f X pc b fl p1 (HashNext tb) q1
               | Some (Longjmp q1) \<Rightarrow> Some (Longjmp q1))
            else Some (Done (Some tb) q)
          else f X pc b fl p1 (HashNext tb) q) = Some r"
    note g = get_phys_addr_code_view [OF h(1), of "page_bits pc + 0x1000" q]
    have "(\<exists>q1 slot. tb_view q1 = tb_view q \<and> f X pc b fl p1 slot q1 = Some r) \<or>
        tb_view q' = tb_view q \<and> (\<forall>t. v = Some t \<longrightarrow> tb_key (tbs q t) = (pc, b, fl))"
      using e h(2) g by (auto split: option.splits if_splits result.splits simp: tb_key_def)
    then show "tb_view q' = tb_view q \<and> (\<forall>t. v = Some t \<longrightarrow> tb_key (tbs q' t) = (pc, b, fl))"
      using IH h view_key by metis
  qed
  then show ?thesis using assms by blast
qed

text \<open>The search ends: it follows a hash list, which is finite.\<close>

lemma hash_search_ends:
  assumes "chain (\<lambda>t. phys_hash_next (B t)) (get_hash slot q) ts None" "view_quiet (h_board (x_host X))" "tbs q = B"
    "\<forall>a q'. get_phys_addr_code X a q' \<noteq> None"
  shows "hash_search X pc b fl p1 slot q \<noteq> None"
  using assms(1,3)
proof (induction ts arbitrary: slot q)
  case Nil
  then show ?case by (subst hash_search.simps) simp
next
  case (Cons t ts)
  obtain x where x: "get_phys_addr_code X (page_bits pc + 0x1000) q = Some x" using assms(4) by fastforce
  have "hash_search X pc b fl p1 (HashNext t) q1 \<noteq> None" if "tb_view q1 = tb_view q" for q1
    by (rule Cons.IH) (use Cons.prems view_key [OF that] in simp_all)
  then show ?case
    using Cons.prems get_phys_addr_code_view [OF assms(2), of "page_bits pc + 0x1000" q] x
    by (subst hash_search.simps) (auto split: result.split)
qed

lemma link_cpu_key: "cpu_key (tb_link_phys t pc a q) = cpu_key q"
proof -
  have a: "cpu_key (tb_alloc_page t n a q) = cpu_key q" for n a q
    by (simp add: cpu_key_def cpu_tb_flags_def tb_alloc_page_def page_find_alloc_def set_page_def set_tb_def Let_def
        tlb_protect_code_def cpu_physical_memory_reset_dirty_def tlb_map_def split: option.split)
  have s: "cpu_key (set_tb u f q) = cpu_key q" for u f q by (simp add: cpu_key_def cpu_tb_flags_def set_tb_def)
  have h: "cpu_key (set_hash u f q) = cpu_key q" for u f q
    by (cases u) (simp_all add: s, simp add: cpu_key_def cpu_tb_flags_def)
  show ?thesis by (simp add: tb_link_phys_def Let_def a s h tb_reset_jump_def tb_set_jmp_target_def del: set_hash.simps)
qed

lemma ptr_cpu_key: "cpu_key (q\<lparr>code_gen_ptr := p\<rparr>) = cpu_key q" "cpu_key (q\<lparr>tb_jmp_cache := c\<rparr>) = cpu_key q"
  "cpu_key (q\<lparr>tb_invalidated_flag := f\<rparr>) = cpu_key q" "cpu_key (set_tb t g q) = cpu_key q"
  by (simp_all add: cpu_key_def cpu_tb_flags_def set_tb_def)

lemma alloc_key:
  assumes "tb_alloc_flush X pc q = Some (f, t, q')"
  shows "cpu_key q' = cpu_key q" "tb_pc (tbs q' t) = pc"
proof -
  have a: "cpu_key q2 = cpu_key q1 \<and> tb_pc (tbs q2 u) = pc" if "tb_alloc X pc q1 = Some (u, q2)" for q1 u q2
    using that by (auto simp: tb_alloc_def cpu_key_def cpu_tb_flags_def set_tb_def split: if_splits)
  have "cpu_key (tb_flush X q) = cpu_key q"
    by (simp add: tb_flush_def page_flush_tb_def cpu_key_def cpu_tb_flags_def Let_def)
  then show "cpu_key q' = cpu_key q" "tb_pc (tbs q' t) = pc"
    using assms a [of q t q'] a [of "tb_flush X q" t q'] by (auto simp: tb_alloc_flush_def split: option.splits)
qed

lemma gen_and_link_key:
  assumes "gen_and_link X t pc ppc q = Some (Done t' q')" "view_quiet (h_board (x_host X))" "gen_keeps X"
  shows "t' = t" "tb_key (tbs q' t) = tb_key (tbs q t)" "cpu_key q' = cpu_key q"
proof -
  obtain n q1 where g: "cpu_gen_code X t q = Done n q1"
    using assms(1) by (cases "cpu_gen_code X t q") (auto simp: gen_and_link_def and_then_def)
  define q2 where "q2 = q1\<lparr>code_gen_ptr := (code_gen_ptr q1 + n + 15) AND NOT 15\<rparr>"
  have k2: "tb_key (tbs q2 t) = tb_key (tbs q t)" "cpu_key q2 = cpu_key q"
    using assms(3) g unfolding gen_keeps_def q2_def by (auto simp: ptr_cpu_key)
  define z where "z = (if page_bits pc \<noteq> page_bits (pc + ucast (tb_size (tbs q2 t)) - 1)
      then get_phys_addr_code X (page_bits (pc + ucast (tb_size (tbs q2 t)) - 1)) q2 else Some (Done (-1) q2))"
  have "and_then z (\<lambda>p2 q3. Some (Done t (tb_link_phys t ppc p2 q3))) = Some (Done t' q')"
    using assms(1) unfolding gen_and_link_def g and_then_def [of "Some (Done n q1)"] z_def q2_def
    by (simp only: Let_def option.case result.case)
  then obtain p2 q3 where z: "z = Some (Done p2 q3)" "t' = t" "q' = tb_link_phys t ppc p2 q3"
    by (auto simp: and_then_def split: option.splits result.splits)
  have "tb_view q3 = tb_view q2"
    using z(1) get_phys_addr_code_view [OF assms(2)] unfolding z_def by (auto split: if_splits)
  then have "tb_key (tbs q3 t) = tb_key (tbs q t)" "cpu_key q3 = cpu_key q" using k2 view_key [of q3 q2] by simp_all
  moreover have "tb_key (tbs q' t) = tb_key (tbs q3 t)"
    using tb_link_phys_effect(2) [where t = t and pc = ppc and ?a1.0 = p2 and q = q3] z(3)
    by (simp add: linked_block_def tb_key_def)
  ultimately show "t' = t" "tb_key (tbs q' t) = tb_key (tbs q t)" "cpu_key q' = cpu_key q"
    using z by (simp_all add: link_cpu_key)
qed

lemma tb_find_slow_key:
  assumes v: "view_quiet (h_board (x_host X))" and g: "gen_keeps X" and r: "tb_find_slow X pc b fl q = Some (Done t q')"
  shows "tb_key (tbs q' t) = (pc, b, fl)" "cpu_key q' = cpu_key q" "tb_jmp_cache q' (tb_jmp_cache_hash_func pc) = Some t"
proof -
  have bindD: "\<exists>v q1. z = Some (Done v q1) \<and> f v q1 = Some (Done w p)" if "and_then z f = Some (Done w p)" for z f w p
    using that by (auto simp: and_then_def split: option.splits result.splits)
  obtain ppc q1 w where 1: "get_phys_addr_code X pc (q\<lparr>tb_invalidated_flag := False\<rparr>) = Some (Done ppc q1)"
    and w: "and_then w (\<lambda>tb q5. Some (Done tb (q5\<lparr>tb_jmp_cache := (tb_jmp_cache q5)(tb_jmp_cache_hash_func pc := Some tb)\<rparr>)))
      = Some (Done t q')"
    and w_def: "w = and_then (hash_search X pc b fl (page_bits ppc) (HashHead (tb_phys_hash_func ppc)) q1)
          (\<lambda>found q2. case found of Some tb \<Rightarrow> Some (Done tb q2)
             | None \<Rightarrow> (case tb_alloc_flush X pc q2 of None \<Rightarrow> None
                  | Some (flushed, tb, q3) \<Rightarrow>
                      let q4 = (if flushed then q3\<lparr>tb_invalidated_flag := True\<rparr> else q3) in
                      gen_and_link X tb pc ppc
                        (set_tb tb (\<lambda>b'. b'\<lparr>tc_ptr := code_gen_ptr q4, tb_cs_base := b, tb_flags := fl\<rparr>) q4)))"
    using bindD [OF r [unfolded tb_find_slow_def]] by blast
  obtain q5 where 5: "w = Some (Done t q5)" "q' = q5\<lparr>tb_jmp_cache := (tb_jmp_cache q5)(tb_jmp_cache_hash_func pc := Some t)\<rparr>"
    using bindD [OF w] by auto
  obtain found q2 where 2: "hash_search X pc b fl (page_bits ppc) (HashHead (tb_phys_hash_func ppc)) q1 = Some (Done found q2)"
    and 3: "(case found of Some tb \<Rightarrow> Some (Done tb q2)
             | None \<Rightarrow> (case tb_alloc_flush X pc q2 of None \<Rightarrow> None
                  | Some (flushed, tb, q3) \<Rightarrow>
                      let q4 = (if flushed then q3\<lparr>tb_invalidated_flag := True\<rparr> else q3) in
                      gen_and_link X tb pc ppc
                        (set_tb tb (\<lambda>b'. b'\<lparr>tc_ptr := code_gen_ptr q4, tb_cs_base := b, tb_flags := fl\<rparr>) q4))) = Some (Done t q5)"
    using bindD [OF 5(1) [unfolded w_def]] by blast
  have c1: "cpu_key q1 = cpu_key q"
    using view_key [OF get_phys_addr_code_view [OF v 1]] by (simp add: ptr_cpu_key)
  note h = hash_search_view [OF 2 v]
  have c2: "cpu_key q2 = cpu_key q" using view_key [of q2 q1] h c1 by simp
  have "tb_key (tbs q5 t) = (pc, b, fl) \<and> cpu_key q5 = cpu_key q"
  proof (cases found)
    case (Some u)
    then show ?thesis using 3 h c2 by simp
  next
    case None
    then obtain f u q3 q4 where a: "tb_alloc_flush X pc q2 = Some (f, u, q3)"
      "q4 = (if f then q3\<lparr>tb_invalidated_flag := True\<rparr> else q3)"
      "gen_and_link X u pc ppc (set_tb u (\<lambda>b'. b'\<lparr>tc_ptr := code_gen_ptr q4, tb_cs_base := b, tb_flags := fl\<rparr>) q4) = Some (Done t q5)"
      using 3 by (auto simp: Let_def split: option.splits)
    note k = gen_and_link_key [OF a(3) v g]
    have "cpu_key q4 = cpu_key q" "tb_pc (tbs q4 u) = pc" using alloc_key [OF a(1)] c2 a(2) by (simp_all add: ptr_cpu_key)
    then show ?thesis using k by (simp add: tb_key_def ptr_cpu_key)
  qed
  then show "tb_key (tbs q' t) = (pc, b, fl)" "cpu_key q' = cpu_key q"
    "tb_jmp_cache q' (tb_jmp_cache_hash_func pc) = Some t"
    using 5(2) by (simp_all add: ptr_cpu_key)
qed

text \<open>If a search does not end, then a fetch of guest code did not: the emulator has aborted there.\<close>

lemma tb_find_slow_ends:
  assumes I: "cache_inv X q L" and v: "view_quiet (h_board (x_host X))"
    and sz: "code_gen_max_block_size X < CODE_GEN_BUFFER_SIZE" and f: "\<forall>a q'. get_phys_addr_code X a q' \<noteq> None"
  shows "tb_find_slow X pc b fl q \<noteq> None"
proof -
  have ends: "and_then z k \<noteq> None" if "z \<noteq> None" "\<And>u p. z = Some (Done u p) \<Longrightarrow> k u p \<noteq> None" for z k
    using that by (auto simp: and_then_def split: option.split result.split)
  obtain H P J where S: "tb_shape q H P J L" using I by (auto simp: cache_inv_def)
  have "chain (hash_nxt q) (tb_phys_hash q h) (H h) None" for h
    using S by (simp add: tb_shape_def hash_shape_def chains_def)
  then have c: "chain (\<lambda>t. phys_hash_next (tbs q t)) (tb_phys_hash q h) (H h) None" for h .
  have search: "hash_search X pc b fl p (HashHead h) q1 \<noteq> None"
    if "get_phys_addr_code X pc (q\<lparr>tb_invalidated_flag := False\<rparr>) = Some (Done p' q1)" for p h p' q1
  proof (rule hash_search_ends [OF _ v _ f])
    have "tb_view q1 = tb_view q" using get_phys_addr_code_view [OF v that] by simp
    then show "tbs q1 = tbs q" "chain (\<lambda>t. phys_hash_next (tbs q t)) (get_hash (HashHead h) q1) (H h) None"
      using c view_key [of q1 q] by simp_all
  qed
  have link: "gen_and_link X t pc p q4 \<noteq> None" for t p q4
    unfolding gen_and_link_def Let_def by (intro ends) (use f in \<open>auto split: if_splits\<close>)
  have alloc: "tb_alloc_flush X pc q2 \<noteq> None" for q2
    using sz by (auto simp: tb_alloc_flush_def tb_alloc_def tb_flush_def page_flush_tb_def Let_def word_le_nat_alt
        word_less_nat_alt unat_sub split: option.split)
  have new: "(case found of Some tb \<Rightarrow> Some (Done tb q2)
      | None \<Rightarrow> (case tb_alloc_flush X pc q2 of None \<Rightarrow> None | Some (flushed, tb, q3) \<Rightarrow> gen_and_link X tb pc p (k flushed tb q3))) \<noteq> None"
    for found q2 p k using link alloc [of q2] by (auto split: option.split prod.split)
  show ?thesis
    unfolding tb_find_slow_def Let_def by (intro ends search new) (use f in auto)
qed

lemma tb_find_fast_hit:
  "tb_jmp_cache q (tb_jmp_cache_hash_func (fst (cpu_key q))) = Some t \<Longrightarrow> tb_key (tbs q t) = cpu_key q \<Longrightarrow>
   tb_find_fast X t0 q = Some (Done (t, t0) q)"
  by (simp add: tb_find_fast_def tb_key_def cpu_key_def Let_def)

lemma tb_find_fast_cases:
  "tb_find_fast X t0 q =
     (case tb_jmp_cache q (tb_jmp_cache_hash_func (fst (cpu_key q))) of
        Some t \<Rightarrow> if tb_key (tbs q t) = cpu_key q then Some (Done (t, t0) q)
                  else and_then (tb_find_slow X (fst (cpu_key q)) (fst (snd (cpu_key q))) (snd (snd (cpu_key q))) q)
                    (\<lambda>t q1. Some (Done (t, if tb_invalidated_flag q1 then None else t0) q1))
      | None \<Rightarrow> and_then (tb_find_slow X (fst (cpu_key q)) (fst (snd (cpu_key q))) (snd (snd (cpu_key q))) q)
                    (\<lambda>t q1. Some (Done (t, if tb_invalidated_flag q1 then None else t0) q1)))"
  by (auto simp: tb_find_fast_def tb_key_def cpu_key_def Let_def split: option.split)

section \<open>Properties\<close>


definition ready :: tb_ctx where
  "ready = sample_2\<lparr>tb_jmp_cache := (tb_jmp_cache sample_2)(tb_jmp_cache_hash_func (tb_pc (tbs sample_2 0)) := Some 0),
     eip := 0x1010, hflags := 0, eflags := 0, cs_seg_base := 0, intercept := 0\<rparr>"


section \<open>A hook that is not seen\<close>

text \<open>A block that jumps to the hook of \<^verbatim>\<open>MemCheck_Alloc\<close> on its own page, its jump already patched.\<close>

definition chain_engine :: "exec_ctx engine" where
  "chain_engine = guest_engine\<lparr>translated_code := (\<lambda>t q. if t = 0 then Done (Goto_tb 0) (q\<lparr>eip := 0xc0100000\<rparr>)
     else Done Exit_tb (q\<lparr>eip := 0xc0100040\<rparr>))\<rparr>"

definition chain_cpu :: exec_ctx where
  "chain_cpu = guest_cpu\<lparr>eip := 0xc0100080, nb_tbs := 2, current_tb := Some 0,
     tbs := (\<lambda>t. if t = 0 then guest_block\<lparr>tb_pc := 0xc0100080, tb_next_offset := (\<lambda>_. 16), tb_next := (\<lambda>_. 0x8000040)\<rparr>
       else guest_block\<lparr>tc_ptr := 0x8000040\<rparr>)\<rparr>"


end
