(* ===== verification/I8259.thy ===== *)
theory I8259
  imports Prelude
begin

text \<open>
  The interrupt controllers of the PC (\<^verbatim>\<open>hw/i8259.c\<close>): two chips of eight inputs, the second one
  connected to input 2 of the first. The CPU takes its hardware interrupts from here.

  \<open>None\<close> as a result stands for an operation that does not return: a search that never ends, or
  \<^verbatim>\<open>hw_error\<close>, which ends the emulator.
\<close>

unbundle bit_operations_syntax

section \<open>State\<close>

record PicState =
  last_irr :: u8
  irr :: u8
  imr :: u8
  isr :: u8
  priority_add :: u8
  irq_base :: u8
  read_reg_select :: u8
  poll :: u8
  special_mask :: u8
  init_state :: u8
  auto_eoi :: u8
  rotate_on_auto_eoi :: u8
  special_fully_nested_mode :: u8
  init4 :: u8
  single_mode :: u8
  elcr :: u8
  elcr_mask :: u8

text \<open>
  What the controllers tell others: the level of the line to the CPU (\<^verbatim>\<open>parent_irq\<close>), and the level
  of an input to the I/O APIC (\<^verbatim>\<open>alt_irq_func\<close>, where \<open>has_alt\<close> tells that it is set).
\<close>

datatype pic_event = Parent bool | Alt_irq nat bool

record PicState2 =
  pics :: "nat \<Rightarrow> PicState"
  has_alt :: bool
  pic_out :: "pic_event list"

definition set_pic :: "nat \<Rightarrow> (PicState \<Rightarrow> PicState) \<Rightarrow> PicState2 \<Rightarrow> PicState2" where
  "set_pic i f S = S\<lparr>pics := (pics S)(i := f (pics S i))\<rparr>"

definition pic_emit :: "pic_event \<Rightarrow> PicState2 \<Rightarrow> PicState2" where
  "pic_emit e S = S\<lparr>pic_out := pic_out S @ [e]\<rparr>"

definition line :: "nat \<Rightarrow> u8" where
  "line n = push_bit n 1"

section \<open>Requests and priorities\<close>

definition pic_set_irq1 :: "nat \<Rightarrow> bool \<Rightarrow> PicState \<Rightarrow> PicState" where
  "pic_set_irq1 irq level s =
     (if elcr s AND line irq \<noteq> 0 then
        if level then s\<lparr>irr := irr s OR line irq, last_irr := last_irr s OR line irq\<rparr>
        else s\<lparr>irr := irr s AND NOT (line irq), last_irr := last_irr s AND NOT (line irq)\<rparr>
      else
        if level then
          (if last_irr s AND line irq = 0 then s\<lparr>irr := irr s OR line irq\<rparr> else s)
            \<lparr>last_irr := last_irr s OR line irq\<rparr>
        else s\<lparr>last_irr := last_irr s AND NOT (line irq)\<rparr>)"

partial_function (option) priority_search :: "u8 \<Rightarrow> u8 \<Rightarrow> nat \<Rightarrow> nat option" where
  "priority_search add m priority =
     (if m AND line ((priority + unat add) mod 8) = 0 then priority_search add m (priority + 1)
      else Some priority)"

definition get_priority :: "PicState \<Rightarrow> u8 \<Rightarrow> nat option" where
  "get_priority s m = (if m = 0 then Some 8 else priority_search (priority_add s) m 0)"

text \<open>\<open>master\<close> tells that the chip is the first one. The result is -1 if no interrupt is wanted.\<close>

definition pic_get_irq :: "bool \<Rightarrow> PicState \<Rightarrow> int option" where
  "pic_get_irq master s =
     Option.bind (get_priority s (irr s AND NOT (imr s))) (\<lambda>priority.
       if priority = 8 then Some (-1)
       else Option.bind
         (get_priority s (if special_fully_nested_mode s \<noteq> 0 \<and> master then isr s AND NOT (line 2) else isr s))
         (\<lambda>cur_priority.
            if priority < cur_priority then Some (int ((priority + unat (priority_add s)) mod 8)) else Some (-1)))"

definition pic_update_irq :: "PicState2 \<Rightarrow> PicState2 option" where
  "pic_update_irq S =
     Option.bind (pic_get_irq False (pics S 1)) (\<lambda>irq2.
       let S1 = (if 0 \<le> irq2 then set_pic 0 (pic_set_irq1 2 False) (set_pic 0 (pic_set_irq1 2 True) S) else S) in
       Option.bind (pic_get_irq True (pics S1 0)) (\<lambda>irq.
         Some (if 0 \<le> irq then pic_emit (Parent True) S1 else S1)))"

definition i8259_set_irq :: "nat \<Rightarrow> bool \<Rightarrow> PicState2 \<Rightarrow> PicState2 option" where
  "i8259_set_irq irq level S =
     (let S1 = set_pic (irq div 8) (pic_set_irq1 (irq mod 8) level) S;
          S2 = (if has_alt S1 then pic_emit (Alt_irq irq level) S1 else S1) in
      pic_update_irq S2)"

section \<open>Acknowledging\<close>

definition pic_intack :: "nat \<Rightarrow> PicState \<Rightarrow> PicState" where
  "pic_intack irq s =
     (let s1 = (if auto_eoi s \<noteq> 0
                then if rotate_on_auto_eoi s \<noteq> 0 then s\<lparr>priority_add := of_nat ((irq + 1) mod 8)\<rparr> else s
                else s\<lparr>isr := isr s OR line irq\<rparr>) in
      if elcr s1 AND line irq = 0 then s1\<lparr>irr := irr s1 AND NOT (line irq)\<rparr> else s1)"

definition pic_read_irq :: "PicState2 \<Rightarrow> (int \<times> PicState2) option" where
  "pic_read_irq S =
     Option.bind (pic_get_irq True (pics S 0)) (\<lambda>irq.
       if 0 \<le> irq then
         let S1 = set_pic 0 (pic_intack (nat irq)) S in
         if irq = 2 then
           Option.bind (pic_get_irq False (pics S1 1)) (\<lambda>irq2.
             let S2 = (if 0 \<le> irq2 then set_pic 1 (pic_intack (nat irq2)) S1 else S1);
                 intno = uint (irq_base (pics S2 1)) + (if 0 \<le> irq2 then irq2 else 7) in
             map_option (\<lambda>S3. (intno, S3)) (pic_update_irq S2))
         else map_option (\<lambda>S3. (uint (irq_base (pics S1 0)) + irq, S3)) (pic_update_irq S1)
       else map_option (\<lambda>S3. (uint (irq_base (pics S 0)) + 7, S3)) (pic_update_irq S))"

section \<open>Ports\<close>

definition pic_reset :: "PicState \<Rightarrow> PicState" where
  "pic_reset s =
     s\<lparr>last_irr := 0, irr := 0, imr := 0, isr := 0, priority_add := 0, irq_base := 0, read_reg_select := 0,
       poll := 0, special_mask := 0, init_state := 0, auto_eoi := 0, rotate_on_auto_eoi := 0,
       special_fully_nested_mode := 0, init4 := 0, single_mode := 0\<rparr>"

text \<open>A command to port 0 that is neither an initialisation nor a mode word.\<close>

definition pic_command :: "nat \<Rightarrow> u32 \<Rightarrow> PicState2 \<Rightarrow> PicState2 option" where
  "pic_command i val S =
     (let cmd = drop_bit 5 val; irq = unat (val AND 7) in
      if cmd = 0 \<or> cmd = 4 then Some (set_pic i (\<lambda>s. s\<lparr>rotate_on_auto_eoi := ucast (drop_bit 2 cmd)\<rparr>) S)
      else if cmd = 1 \<or> cmd = 5 then
        Option.bind (get_priority (pics S i) (isr (pics S i))) (\<lambda>priority.
          if priority \<noteq> 8 then
            let n = (priority + unat (priority_add (pics S i))) mod 8;
                S1 = set_pic i (\<lambda>s. s\<lparr>isr := isr s AND NOT (line n)\<rparr>) S;
                S2 = (if cmd = 5 then set_pic i (\<lambda>s. s\<lparr>priority_add := of_nat ((n + 1) mod 8)\<rparr>) S1 else S1) in
            pic_update_irq S2
          else Some S)
      else if cmd = 3 then pic_update_irq (set_pic i (\<lambda>s. s\<lparr>isr := isr s AND NOT (line irq)\<rparr>) S)
      else if cmd = 6 then pic_update_irq (set_pic i (\<lambda>s. s\<lparr>priority_add := ucast ((val + 1) AND 7)\<rparr>) S)
      else if cmd = 7 then
        pic_update_irq (set_pic i (\<lambda>s. s\<lparr>isr := isr s AND NOT (line irq), priority_add := of_nat ((irq + 1) mod 8)\<rparr>) S)
      else Some S)"

definition pic_ioport_write :: "nat \<Rightarrow> u32 \<Rightarrow> u32 \<Rightarrow> PicState2 \<Rightarrow> PicState2 option" where
  "pic_ioport_write i addr val S =
     (let s = pics S i in
      if addr AND 1 = 0 then
        if val AND 0x10 \<noteq> 0 then
          let S1 = pic_emit (Parent False) (set_pic i pic_reset S);
              S2 = set_pic i (\<lambda>s. s\<lparr>init_state := 1, init4 := ucast (val AND 1), single_mode := ucast (val AND 2)\<rparr>) S1 in
          if val AND 0x08 \<noteq> 0 then None else Some S2
        else if val AND 0x08 \<noteq> 0 then
          let S1 = (if val AND 0x04 \<noteq> 0 then set_pic i (\<lambda>s. s\<lparr>poll := 1\<rparr>) S else S);
              S2 = (if val AND 0x02 \<noteq> 0 then set_pic i (\<lambda>s. s\<lparr>read_reg_select := ucast (val AND 1)\<rparr>) S1 else S1) in
          Some (if val AND 0x40 \<noteq> 0 then set_pic i (\<lambda>s. s\<lparr>special_mask := ucast (drop_bit 5 val AND 1)\<rparr>) S2 else S2)
        else pic_command i val S
      else
        if init_state s = 0 then pic_update_irq (set_pic i (\<lambda>s. s\<lparr>imr := ucast val\<rparr>) S)
        else if init_state s = 1 then
          Some (set_pic i (\<lambda>s. s\<lparr>irq_base := ucast (val AND 0xf8),
            init_state := (if single_mode s \<noteq> 0 then if init4 s \<noteq> 0 then 3 else 0 else 2)\<rparr>) S)
        else if init_state s = 2 then
          Some (set_pic i (\<lambda>s. s\<lparr>init_state := (if init4 s \<noteq> 0 then 3 else 0)\<rparr>) S)
        else if init_state s = 3 then
          Some (set_pic i (\<lambda>s. s\<lparr>special_fully_nested_mode := ucast (drop_bit 4 val AND 1),
            auto_eoi := ucast (drop_bit 1 val AND 1), init_state := 0\<rparr>) S)
        else Some S)"

definition pic_poll_read :: "nat \<Rightarrow> u32 \<Rightarrow> PicState2 \<Rightarrow> (int \<times> PicState2) option" where
  "pic_poll_read i addr1 S =
     Option.bind (pic_get_irq (i = 0) (pics S i)) (\<lambda>ret.
       if 0 \<le> ret then
         let S1 = (if drop_bit 7 addr1 \<noteq> 0
                   then set_pic 0 (\<lambda>s. s\<lparr>isr := isr s AND NOT (line 2), irr := irr s AND NOT (line 2)\<rparr>) S else S);
             S2 = set_pic i (\<lambda>s. s\<lparr>irr := irr s AND NOT (line (nat ret)), isr := isr s AND NOT (line (nat ret))\<rparr>) S1 in
         if drop_bit 7 addr1 \<noteq> 0 \<or> ret \<noteq> 2 then map_option (\<lambda>S3. (ret, S3)) (pic_update_irq S2) else Some (ret, S2)
       else map_option (\<lambda>S3. (7, S3)) (pic_update_irq S))"

definition pic_ioport_read :: "nat \<Rightarrow> u32 \<Rightarrow> PicState2 \<Rightarrow> (int \<times> PicState2) option" where
  "pic_ioport_read i addr1 S =
     (let s = pics S i in
      if poll s \<noteq> 0 then
        map_option (\<lambda>(ret, S1). (ret, set_pic i (\<lambda>s. s\<lparr>poll := 0\<rparr>) S1)) (pic_poll_read i addr1 S)
      else if addr1 AND 1 = 0 then
        Some (if read_reg_select s \<noteq> 0 then uint (isr s) else uint (irr s), S)
      else Some (uint (imr s), S))"

definition pic_intack_read :: "PicState2 \<Rightarrow> (int \<times> PicState2) option" where
  "pic_intack_read S =
     Option.bind (pic_poll_read 0 0 S) (\<lambda>(ret, S1).
       Option.bind (if ret = 2 then map_option (\<lambda>(r, S2). (r + 8, S2)) (pic_poll_read 1 0x80 S1) else Some (ret, S1))
         (\<lambda>(ret, S2). Some (ret, set_pic 0 (\<lambda>s. s\<lparr>read_reg_select := 1\<rparr>) S2)))"

definition elcr_ioport_write :: "nat \<Rightarrow> u32 \<Rightarrow> PicState2 \<Rightarrow> PicState2" where
  "elcr_ioport_write i val S = set_pic i (\<lambda>s. s\<lparr>elcr := ucast val AND elcr_mask s\<rparr>) S"

definition elcr_ioport_read :: "nat \<Rightarrow> PicState2 \<Rightarrow> u32" where
  "elcr_ioport_read i S = ucast (elcr (pics S i))"

section \<open>Saved state and set-up\<close>

definition pic_save :: "PicState \<Rightarrow> u8 list" where
  "pic_save s =
     [last_irr s, irr s, imr s, isr s, priority_add s, irq_base s, read_reg_select s, poll s, special_mask s,
      init_state s, auto_eoi s, rotate_on_auto_eoi s, special_fully_nested_mode s, init4 s, single_mode s, elcr s]"

text \<open>Past the end of the file every byte reads as zero. The result is the return value: -22 is \<^verbatim>\<open>-EINVAL\<close>.\<close>

definition pic_load :: "u8 list \<Rightarrow> nat \<Rightarrow> PicState \<Rightarrow> int \<times> PicState" where
  "pic_load bs version_id s =
     (let b = (\<lambda>n. if n < length bs then bs ! n else 0) in
      if version_id \<noteq> 1 then (-22, s)
      else (0, s\<lparr>last_irr := b 0, irr := b 1, imr := b 2, isr := b 3, priority_add := b 4, irq_base := b 5,
        read_reg_select := b 6, poll := b 7, special_mask := b 8, init_state := b 9, auto_eoi := b 10,
        rotate_on_auto_eoi := b 11, special_fully_nested_mode := b 12, init4 := b 13, single_mode := b 14, elcr := b 15\<rparr>))"

definition empty_pic :: "u8 \<Rightarrow> PicState" where
  "empty_pic m = \<lparr>last_irr = 0, irr = 0, imr = 0, isr = 0, priority_add = 0, irq_base = 0, read_reg_select = 0,
     poll = 0, special_mask = 0, init_state = 0, auto_eoi = 0, rotate_on_auto_eoi = 0,
     special_fully_nested_mode = 0, init4 = 0, single_mode = 0, elcr = 0, elcr_mask = m\<rparr>"

definition i8259_init :: PicState2 where
  "i8259_init = \<lparr>pics = (\<lambda>i. empty_pic (if i = 0 then 0xf8 else 0xde)), has_alt = False, pic_out = []\<rparr>"

definition pic_set_alt_irq_func :: "bool \<Rightarrow> PicState2 \<Rightarrow> PicState2" where
  "pic_set_alt_irq_func f S = S\<lparr>has_alt := f\<rparr>"

end
