(* ===== verification/I8259Props.thy ===== *)
theory I8259Props
  imports I8259
begin

text \<open>
  What the interrupt controllers guarantee: every operation returns and keeps the registers within
  their ranges, and the CPU is given the request of the highest priority that is neither masked nor
  held back by an interrupt in service.
\<close>

section \<open>Priorities\<close>

lemma line_test: "(m AND line n = 0) = (\<not> bit (m :: u8) n)"
  using bit_iff_and_push_bit_not_eq_0 [of m n] by (simp add: line_def)

lemma bit_line: "bit (line n) k \<longleftrightarrow> n = k \<and> k < 8"
  by (auto simp: line_def bit_simps)

text \<open>The rank of an input: 0 is the highest priority.\<close>

definition rank :: "PicState \<Rightarrow> nat \<Rightarrow> nat" where
  "rank s n = (n + (8 - unat (priority_add s) mod 8)) mod 8"

abbreviation input_of :: "u8 \<Rightarrow> nat \<Rightarrow> nat" where "input_of add p \<equiv> (p + unat add) mod 8"

lemma rotate8: "a < 8 \<Longrightarrow> n < 8 \<Longrightarrow> ((n + (8 - a)) mod 8 + a) mod 8 = n" "a < 8 \<Longrightarrow> n < 8 \<Longrightarrow> ((n + a) mod 8 + (8 - a)) mod 8 = (n :: nat)"
proof -
  assume a: "a < 8" and n: "n < 8"
  have "((n + (8 - a)) mod 8 + a) mod 8 = (n + (8 - a) + a) mod 8" by (simp only: mod_add_left_eq)
  also have "n + (8 - a) + a = n + 8" using a by simp
  finally show "((n + (8 - a)) mod 8 + a) mod 8 = n" using n by simp
  have "((n + a) mod 8 + (8 - a)) mod 8 = (n + a + (8 - a)) mod 8" by (simp only: mod_add_left_eq)
  also have "n + a + (8 - a) = n + 8" using a by simp
  finally show "((n + a) mod 8 + (8 - a)) mod 8 = n" using n by simp
qed

lemma input_rank: "n < 8 \<Longrightarrow> input_of (priority_add s) (rank s n) = n"
proof -
  assume n: "n < 8"
  have "input_of (priority_add s) (rank s n) = (rank s n + unat (priority_add s) mod 8) mod 8" by (simp only: mod_add_right_eq)
  then show ?thesis using rotate8(1) [OF _ n, of "unat (priority_add s) mod 8"] by (simp add: rank_def)
qed

lemma rank_less: "rank s n < 8"
  by (simp add: rank_def)

lemma rank_input: "p < 8 \<Longrightarrow> rank s (input_of (priority_add s) p) = p"
proof -
  assume p: "p < 8"
  have "input_of (priority_add s) p = (p + unat (priority_add s) mod 8) mod 8" by (simp only: mod_add_right_eq)
  then show ?thesis using rotate8(2) [OF _ p, of "unat (priority_add s) mod 8"] by (simp add: rank_def)
qed

lemma priority_search_least:
  "bit m (input_of add p) \<Longrightarrow> \<forall>j<p. \<not> bit m (input_of add j) \<Longrightarrow> j \<le> p \<Longrightarrow> priority_search add m j = Some p"
proof (induction "p - j" arbitrary: j)
  case 0
  then show ?case by (subst priority_search.simps) (simp add: line_test)
next
  case (Suc d)
  then have "j < p" by simp
  then show ?case using Suc by (subst priority_search.simps) (simp add: line_test)
qed

text \<open>The search returns the smallest rank of an input in the mask, or 8 if there is none.\<close>

lemma get_priority_spec:
  "\<exists>p. get_priority s m = Some p \<and> (\<forall>n<8. bit m n \<longrightarrow> p \<le> rank s n) \<and>
     (p = 8 \<or> p < 8 \<and> bit m (input_of (priority_add s) p))"
proof (cases "m = 0")
  case True
  then show ?thesis by (auto simp: get_priority_def)
next
  case False
  then obtain k where k: "bit m k" unfolding bit_eq_iff by (auto simp: bit_0_eq)
  then have k8: "k < 8" using bit_imp_le_length [of m k] by simp
  let ?Q = "\<lambda>p. bit m (input_of (priority_add s) p)"
  define p where "p = (LEAST p. ?Q p)"
  have "?Q (rank s k)" using input_rank [OF k8, of s] k by simp
  then have p: "?Q p" unfolding p_def by (rule LeastI)
  have least: "p \<le> j" if "?Q j" for j unfolding p_def using that by (rule Least_le)
  have "\<forall>j<p. \<not> ?Q j" using least by (meson not_le)
  then have "get_priority s m = Some p"
    using False priority_search_least [OF p, of 0] by (simp add: get_priority_def)
  moreover have "p \<le> rank s n" if "n < 8" "bit m n" for n using least [of "rank s n"] input_rank [OF that(1), of s] that(2) by simp
  moreover have "p < 8" using least [OF \<open>?Q (rank s k)\<close>] rank_less [of s k] by simp
  ultimately show ?thesis using p by auto
qed

section \<open>The wanted interrupt\<close>

definition pending :: "PicState \<Rightarrow> nat \<Rightarrow> bool" where
  "pending s n \<longleftrightarrow> bit (irr s) n \<and> \<not> bit (imr s) n"

text \<open>In special fully nested mode an interrupt of the second chip does not hold back others of it.\<close>

definition in_service :: "bool \<Rightarrow> PicState \<Rightarrow> nat \<Rightarrow> bool" where
  "in_service master s n \<longleftrightarrow> bit (isr s) n \<and> \<not> (special_fully_nested_mode s \<noteq> 0 \<and> master \<and> n = 2)"

definition wants :: "bool \<Rightarrow> PicState \<Rightarrow> nat \<Rightarrow> bool" where
  "wants master s n \<longleftrightarrow> pending s n \<and> (\<forall>k. pending s k \<longrightarrow> rank s n \<le> rank s k) \<and>
     (\<forall>k. in_service master s k \<longrightarrow> rank s n < rank s k)"

lemma bit8: "bit (m :: u8) n \<Longrightarrow> n < 8"
  using bit_imp_le_length [of m n] by simp

lemma pic_get_irq_spec:
  "\<exists>r. pic_get_irq master s = Some r \<and>
     (r = -1 \<and> (\<forall>n. \<not> wants master s n) \<or> (\<exists>n<8. r = int n \<and> wants master s n))"
proof -
  let ?m = "irr s AND NOT (imr s)"
  let ?i = "if special_fully_nested_mode s \<noteq> 0 \<and> master then isr s AND NOT (line 2) else isr s"
  have m: "bit ?m n = pending s n" for n using bit8 [of "irr s" n] by (auto simp: pending_def bit_simps)
  have i: "bit ?i n = in_service master s n" for n
    using bit8 [of "isr s" n] by (auto simp: in_service_def bit_and_iff bit_not_iff bit_line)
  obtain p where p: "get_priority s ?m = Some p" "\<forall>n<8. pending s n \<longrightarrow> p \<le> rank s n"
    "p = 8 \<or> p < 8 \<and> pending s (input_of (priority_add s) p)"
    using get_priority_spec [of s ?m] unfolding m by blast
  obtain c where c: "get_priority s ?i = Some c" "\<forall>n<8. in_service master s n \<longrightarrow> c \<le> rank s n"
    "c = 8 \<or> c < 8 \<and> in_service master s (input_of (priority_add s) c)"
    using get_priority_spec [of s ?i] unfolding i by blast
  have p8: "pending s n \<Longrightarrow> n < 8" "in_service master s n \<Longrightarrow> n < 8" for n
    using bit8 by (auto simp: pending_def in_service_def)
  have rp: "p \<le> rank s k" if "pending s k" for k using p(2) p8(1) that by blast
  have rc: "c \<le> rank s k" if "in_service master s k" for k using c(2) p8(2) that by blast
  let ?n = "input_of (priority_add s) p"
  consider "p = 8" | "p < 8" "p < c" | "p < 8" "c \<le> p" using p(3) by linarith
  then show ?thesis
  proof cases
    case 1
    have "\<not> wants master s n" for n
    proof
      assume "wants master s n"
      then show False using rp [of n] rank_less [of s n] 1 by (simp add: wants_def)
    qed
    then show ?thesis using 1 p(1) by (simp add: pic_get_irq_def)
  next
    case 2
    have r: "rank s ?n = p" "pending s ?n" using rank_input [of p s] p(3) 2 by auto
    have "wants master s ?n" unfolding wants_def r(1)
      by (intro conjI allI impI r(2) rp less_le_trans [OF 2(2) rc])
    moreover have "pic_get_irq master s = Some (int ?n)" using 2 p(1) c(1) by (simp add: pic_get_irq_def)
    ultimately show ?thesis using p8(1) [OF r(2)] by blast
  next
    case 3
    have b: "in_service master s (input_of (priority_add s) c)" "rank s (input_of (priority_add s) c) = c"
      using c(3) rank_input [of c s] 3 by auto
    have "\<not> wants master s n" for n
    proof
      assume w: "wants master s n"
      then have "rank s n < rank s (input_of (priority_add s) c)" using b(1) unfolding wants_def by blast
      moreover have "p \<le> rank s n" using rp w by (simp add: wants_def)
      ultimately show False using b(2) 3 by simp
    qed
    then show ?thesis using 3 p(1) c(1) by (simp add: pic_get_irq_def)
  qed
qed

lemma wants_unique: "wants master s n \<Longrightarrow> wants master s k \<Longrightarrow> n = k"
proof -
  assume a: "wants master s n" "wants master s k"
  have p: "pending s n" "pending s k" using a by (simp_all add: wants_def)
  have "rank s n \<le> rank s k" using a(1) p(2) unfolding wants_def by blast
  moreover have "rank s k \<le> rank s n" using a(2) p(1) unfolding wants_def by blast
  ultimately have r: "rank s n = rank s k" by (rule antisym)
  have b: "n < 8" "k < 8" using p bit8 [of "irr s" n] bit8 [of "irr s" k] by (simp_all add: pending_def)
  show ?thesis using input_rank [OF b(1), of s] input_rank [OF b(2), of s] unfolding r by (rule trans [OF sym])
qed

lemma pic_get_irq_iff: "pic_get_irq master s = Some (int n) \<longleftrightarrow> wants master s n"
  using pic_get_irq_spec [of master s] wants_unique by auto

lemma pic_get_irq_none: "pic_get_irq master s = Some (-1) \<longleftrightarrow> (\<forall>n. \<not> wants master s n)"
  using pic_get_irq_spec [of master s] by auto

section \<open>The registers\<close>

text \<open>The range of each register; \<open>irq_base\<close> leaves room for the number of the input.\<close>

definition pic_ok :: "PicState \<Rightarrow> bool" where
  "pic_ok s \<longleftrightarrow> priority_add s AND NOT 7 = 0 \<and> irq_base s AND 7 = 0 \<and> init_state s AND NOT 3 = 0 \<and>
     read_reg_select s AND NOT 1 = 0 \<and> poll s AND NOT 1 = 0 \<and> special_mask s AND NOT 1 = 0 \<and>
     auto_eoi s AND NOT 1 = 0 \<and> rotate_on_auto_eoi s AND NOT 1 = 0 \<and> special_fully_nested_mode s AND NOT 1 = 0 \<and>
     init4 s AND NOT 1 = 0 \<and> single_mode s AND NOT 2 = 0 \<and> elcr s AND NOT (elcr_mask s) = 0"

definition pics_ok :: "PicState2 \<Rightarrow> bool" where
  "pics_ok S \<longleftrightarrow> pic_ok (pics S 0) \<and> pic_ok (pics S 1)"

lemma mod8_word: "(of_nat (n mod 8) :: u8) AND - 8 = 0"
proof -
  have n: "n mod 8 = take_bit 3 n" by (simp add: take_bit_eq_mod)
  have "(of_nat (n mod 8) :: u8) = take_bit 3 (of_nat n)" by (simp only: n take_bit_of_nat)
  also have "\<dots> = of_nat n AND 7" by (simp add: take_bit_eq_mask mask_eq_exp_minus_1)
  finally show ?thesis by (simp add: and.assoc)
qed

lemma ucast_small: "(ucast (v AND m :: u32) :: u8) = ucast v AND ucast m"
  by (simp add: unsigned_and_eq)

lemma pic_ok_frame [simp]:
  "pic_ok (s\<lparr>irr := x\<rparr>) = pic_ok s" "pic_ok (s\<lparr>isr := x\<rparr>) = pic_ok s" "pic_ok (s\<lparr>last_irr := x\<rparr>) = pic_ok s"
  "pic_ok (s\<lparr>imr := x\<rparr>) = pic_ok s"
  by (simp_all add: pic_ok_def)

lemma set_irq1_ok [simp]: "pic_ok (pic_set_irq1 n l s) = pic_ok s"
  by (simp add: pic_set_irq1_def pic_ok_def)

lemma intack_ok: "pic_ok s \<Longrightarrow> pic_ok (pic_intack n s)"
  by (simp add: pic_intack_def Let_def pic_ok_def mod8_word)

lemma reset_ok: "elcr s AND NOT (elcr_mask s) = 0 \<Longrightarrow> pic_ok (pic_reset s)"
  by (simp add: pic_ok_def pic_reset_def)

lemma pics_set_pic [simp]: "pics (set_pic i f S) j = (if j = i then f (pics S i) else pics S j)" "has_alt (set_pic i f S) = has_alt S"
  by (simp_all add: set_pic_def)

lemma pics_emit [simp]: "pics (pic_emit e S) = pics S" "has_alt (pic_emit e S) = has_alt S"
  by (simp_all add: pic_emit_def)

text \<open>The update always returns; it may pulse input 2 of the first chip, nothing else.\<close>

lemma pic_update_spec:
  "\<exists>S'. pic_update_irq S = Some S' \<and> (\<forall>i. i \<noteq> 0 \<longrightarrow> pics S' i = pics S i) \<and>
     (pics S' 0 = pics S 0 \<or> pics S' 0 = pic_set_irq1 2 False (pic_set_irq1 2 True (pics S 0)))"
proof -
  obtain r where r: "pic_get_irq False (pics S 1) = Some r" using pic_get_irq_spec by blast
  define S1 where "S1 = (if 0 \<le> r then set_pic 0 (pic_set_irq1 2 False) (set_pic 0 (pic_set_irq1 2 True) S) else S)"
  obtain t where "pic_get_irq True (pics S1 0) = Some t" using pic_get_irq_spec by blast
  then have "pic_update_irq S = Some (if 0 \<le> t then pic_emit (Parent True) S1 else S1)"
    using r by (simp add: pic_update_irq_def Let_def S1_def)
  then show ?thesis by (auto simp: S1_def)
qed

lemma pic_update_ok: "pics_ok S \<Longrightarrow> \<exists>S'. pic_update_irq S = Some S' \<and> pics_ok S'"
  using pic_update_spec [of S] by (auto simp: pics_ok_def)

lemma set_pic_ok: "pics_ok S \<Longrightarrow> (\<And>s. pic_ok s \<Longrightarrow> pic_ok (f s)) \<Longrightarrow> pics_ok (set_pic i f S)"
  by (auto simp: pics_ok_def)

lemma emit_ok [simp]: "pics_ok (pic_emit e S) = pics_ok S"
  by (simp add: pics_ok_def)

lemma update_set_ok:
  assumes "pics_ok S" "\<And>s. pic_ok s \<Longrightarrow> pic_ok (f s)"
  shows "\<exists>S'. pic_update_irq (set_pic i f S) = Some S' \<and> pics_ok S'"
  by (rule pic_update_ok [OF set_pic_ok [OF assms]])

lemma command_ok:
  assumes "pics_ok S"
  shows "\<exists>S'. pic_command i v S = Some S' \<and> pics_ok S'"
proof -
  have d: "drop_bit 7 v = drop_bit 2 (drop_bit 5 v)" by simp
  have rot: "pic_ok s \<Longrightarrow> pic_ok (s\<lparr>rotate_on_auto_eoi := ucast (drop_bit 7 v)\<rparr>)" if "drop_bit 5 v = 0 \<or> drop_bit 5 v = 4" for s
    using that unfolding d by (auto simp: pic_ok_def simp del: drop_bit_drop_bit)
  have add: "pic_ok s \<Longrightarrow> pic_ok (s\<lparr>priority_add := of_nat (n mod 8)\<rparr>)" for s n by (simp add: pic_ok_def mod8_word)
  have add': "pic_ok s \<Longrightarrow> pic_ok (s\<lparr>priority_add := ucast ((v + 1) AND 7)\<rparr>)" for s
    by (simp add: pic_ok_def ucast_small and.assoc)
  obtain p where p: "get_priority (pics S i) (isr (pics S i)) = Some p" using get_priority_spec by blast
  have eoi: "\<exists>S'. pic_update_irq (set_pic i f (set_pic i g S)) = Some S' \<and> pics_ok S'"
    if "\<And>s. pic_ok s \<Longrightarrow> pic_ok (f s)" "\<And>s. pic_ok s \<Longrightarrow> pic_ok (g s)" for f g
    using that by (intro update_set_ok set_pic_ok assms)
  show ?thesis
    unfolding pic_command_def Let_def p
    by (auto intro!: update_set_ok eoi assms set_pic_ok rot add add' simp: add)
qed

lemma write_ok:
  assumes "pics_ok S" "addr AND 1 \<noteq> 0 \<or> v AND 0x10 = 0 \<or> v AND 0x08 = 0"
  shows "\<exists>S'. pic_ioport_write i addr v S = Some S' \<and> pics_ok S'"
proof -
  have init: "pic_ok s \<Longrightarrow> pic_ok ((pic_reset s)\<lparr>init_state := 1, init4 := ucast (v AND 1), single_mode := ucast (v AND 2)\<rparr>)" for s
    by (simp add: pic_ok_def pic_reset_def ucast_small and.assoc)
  have sel: "pic_ok s \<Longrightarrow> pic_ok (s\<lparr>read_reg_select := ucast (v AND 1)\<rparr>)" for s by (simp add: pic_ok_def ucast_small and.assoc)
  have msk: "pic_ok s \<Longrightarrow> pic_ok (s\<lparr>special_mask := ucast (drop_bit 5 v AND 1)\<rparr>)" for s
    by (simp add: pic_ok_def ucast_small and.assoc)
  have w1: "pic_ok s \<Longrightarrow> pic_ok (s\<lparr>irq_base := ucast (v AND 0xf8),
      init_state := (if single_mode s \<noteq> 0 then if init4 s \<noteq> 0 then 3 else 0 else 2)\<rparr>)" for s
    by (simp add: pic_ok_def ucast_small and.assoc)
  have w2: "pic_ok s \<Longrightarrow> pic_ok (s\<lparr>init_state := (if init4 s \<noteq> 0 then 3 else 0)\<rparr>)" for s by (simp add: pic_ok_def)
  have w3: "pic_ok s \<Longrightarrow> pic_ok (s\<lparr>special_fully_nested_mode := ucast (drop_bit 4 v AND 1),
      auto_eoi := ucast (drop_bit (Suc 0) v AND 1), init_state := 0\<rparr>)" for s
    by (simp add: pic_ok_def ucast_small and.assoc)
  have poll: "pic_ok s \<Longrightarrow> pic_ok (s\<lparr>poll := 1\<rparr>)" for s by (simp add: pic_ok_def)
  have icw1: "pics_ok (set_pic i (\<lambda>s. s\<lparr>init_state := 1, init4 := ucast (v AND 1), single_mode := ucast (v AND 2)\<rparr>)
      (pic_emit (Parent False) (set_pic i pic_reset S)))"
    using assms(1) init by (auto simp: pics_ok_def)
  show ?thesis
  proof (cases "addr AND 1 = 0")
    case True
    then show ?thesis
      using assms icw1 command_ok [OF assms(1), of i v] sel msk poll
      by (auto simp: pic_ioport_write_def Let_def intro!: set_pic_ok)
  next
    case False
    then show ?thesis
      unfolding pic_ioport_write_def Let_def
      by (auto intro!: update_set_ok set_pic_ok assms(1) w1 w2 w3)
  qed
qed

lemma poll_ok:
  assumes "pics_ok S"
  shows "\<exists>r S'. pic_poll_read i a S = Some (r, S') \<and> pics_ok S'"
proof -
  obtain r where r: "pic_get_irq (i = 0) (pics S i) = Some r" using pic_get_irq_spec by blast
  define S1 where "S1 = (if drop_bit 7 a \<noteq> 0
      then set_pic 0 (\<lambda>s. s\<lparr>isr := isr s AND NOT (line 2), irr := irr s AND NOT (line 2)\<rparr>) S else S)"
  have S1: "pics_ok S1" using assms by (auto simp: S1_def intro!: set_pic_ok)
  let ?S2 = "set_pic i (\<lambda>s. s\<lparr>irr := irr s AND NOT (line (nat r)), isr := isr s AND NOT (line (nat r))\<rparr>) S1"
  have S2: "pics_ok ?S2" by (rule set_pic_ok [OF S1]) simp
  show ?thesis
    using pic_update_ok [OF S2] pic_update_ok [OF assms] S2
    by (auto simp: pic_poll_read_def r Let_def S1_def [symmetric])
qed

section \<open>Operations\<close>

text \<open>
  Everything that reaches the controllers: a device changes the level of an input, the CPU takes an
  interrupt, the guest reads and writes the ports of a chip, the acknowledge register, the trigger
  register, a reset.
\<close>

datatype pic_op = Irq nat bool | Ack | Out nat u32 u32 | In nat u32 | Ack_read | Elcr_out nat u32 | Reset nat | Alt bool

fun pic_step :: "pic_op \<Rightarrow> PicState2 \<Rightarrow> PicState2 option" where
  "pic_step (Irq n level) S = i8259_set_irq n level S"
| "pic_step Ack S = map_option snd (pic_read_irq S)"
| "pic_step (Out i addr v) S = pic_ioport_write i addr v S"
| "pic_step (In i addr) S = map_option snd (pic_ioport_read i addr S)"
| "pic_step Ack_read S = map_option snd (pic_intack_read S)"
| "pic_step (Elcr_out i v) S = Some (elcr_ioport_write i v S)"
| "pic_step (Reset i) S = Some (set_pic i pic_reset S)"
| "pic_step (Alt f) S = Some (pic_set_alt_irq_func f S)"

text \<open>The one command that the emulator refuses: an initialisation with level-triggered inputs.\<close>

fun refused :: "pic_op \<Rightarrow> bool" where
  "refused (Out i addr v) = (addr AND 1 = 0 \<and> v AND 0x10 \<noteq> 0 \<and> v AND 0x08 \<noteq> 0)"
| "refused _ = False"

lemma read_irq_ok:
  assumes "pics_ok S"
  shows "\<exists>v S'. pic_read_irq S = Some (v, S') \<and> pics_ok S'"
proof -
  obtain r where r: "pic_get_irq True (pics S 0) = Some r" using pic_get_irq_spec by blast
  define S1 where "S1 = set_pic 0 (pic_intack (nat r)) S"
  have S1: "pics_ok S1" unfolding S1_def by (rule set_pic_ok [OF assms intack_ok])
  obtain t where t: "pic_get_irq False (pics S1 1) = Some t" using pic_get_irq_spec by blast
  define S2 where "S2 = (if 0 \<le> t then set_pic 1 (pic_intack (nat t)) S1 else S1)"
  have S2: "pics_ok S2" using set_pic_ok [OF S1 intack_ok] S1 by (simp add: S2_def)
  show ?thesis
    unfolding pic_read_irq_def Let_def r S1_def [symmetric] bind.bind_lunit t S2_def [symmetric]
    using pic_update_ok [OF S2] pic_update_ok [OF S1] pic_update_ok [OF assms] by auto
qed

lemma intack_read_ok:
  assumes "pics_ok S"
  shows "\<exists>v S'. pic_intack_read S = Some (v, S') \<and> pics_ok S'"
proof -
  have sel: "pic_ok s \<Longrightarrow> pic_ok (s\<lparr>read_reg_select := 1\<rparr>)" for s by (simp add: pic_ok_def)
  obtain r S1 where 1: "pic_poll_read 0 0 S = Some (r, S1)" "pics_ok S1" using poll_ok [OF assms] by blast
  obtain t S2 where 2: "pic_poll_read 1 0x80 S1 = Some (t, S2)" "pics_ok S2" using poll_ok [OF 1(2)] by blast
  show ?thesis using 1 2 by (auto simp: pic_intack_read_def intro!: set_pic_ok sel)
qed

lemma step_ok:
  assumes "pics_ok S" "\<not> refused x"
  shows "\<exists>S'. pic_step x S = Some S' \<and> pics_ok S'"
proof (cases x)
  case (Irq n l)
  let ?S = "set_pic (n div 8) (pic_set_irq1 (n mod 8) l) S"
  have "pics_ok ?S" by (rule set_pic_ok [OF assms(1)]) simp
  then show ?thesis using Irq pic_update_ok [of ?S] pic_update_ok [of "pic_emit (Alt_irq n l) ?S"]
    by (auto simp: i8259_set_irq_def Let_def)
next
  case (Out i a v)
  then show ?thesis using write_ok [OF assms(1), of a v i] assms(2) by auto
next
  case (In i a)
  obtain r S1 where "pic_poll_read i a S = Some (r, S1)" "pics_ok S1" using poll_ok [OF assms(1)] by blast
  moreover have "pic_ok s \<Longrightarrow> pic_ok (s\<lparr>poll := 0\<rparr>)" for s by (simp add: pic_ok_def)
  ultimately show ?thesis using In assms(1) by (auto simp: pic_ioport_read_def Let_def intro!: set_pic_ok)
next
  case (Elcr_out i v)
  have "pic_ok s \<Longrightarrow> pic_ok (s\<lparr>elcr := ucast v AND elcr_mask s\<rparr>)" for s by (simp add: pic_ok_def and.assoc)
  then show ?thesis using Elcr_out assms(1) by (auto simp: elcr_ioport_write_def intro!: set_pic_ok)
next
  case (Reset i)
  have "pic_ok s \<Longrightarrow> pic_ok (pic_reset s)" for s by (rule reset_ok) (simp add: pic_ok_def)
  then show ?thesis using Reset assms(1) by (auto intro!: set_pic_ok)
next
  case (Alt f)
  then show ?thesis using assms(1) by (simp add: pic_set_alt_irq_func_def pics_ok_def)
qed (use read_irq_ok [OF assms(1)] intack_read_ok [OF assms(1)] in auto)

fun pic_steps :: "pic_op list \<Rightarrow> PicState2 \<Rightarrow> PicState2 option" where
  "pic_steps [] S = Some S"
| "pic_steps (x # xs) S = Option.bind (pic_step x S) (pic_steps xs)"

lemma init_ok: "pics_ok i8259_init"
  by (simp add: pics_ok_def i8259_init_def empty_pic_def pic_ok_def)

lemma steps_ok: "pics_ok S \<Longrightarrow> \<forall>x\<in>set xs. \<not> refused x \<Longrightarrow> \<exists>S'. pic_steps xs S = Some S' \<and> pics_ok S'"
proof (induction xs arbitrary: S)
  case (Cons x xs)
  then obtain S1 where "pic_step x S = Some S1" "pics_ok S1" using step_ok [of S x] by auto
  then show ?case using Cons by simp
qed simp

text \<open>
  \<^bold>\<open>C28\<close>. The registers of the interrupt controllers keep their types: after any sequence of operations from
  power-on (the levels of the inputs, acknowledges, port accesses with any values in any order) each
  operation has returned, so the search for the highest priority always ends, and every register is
  in its range: the priority and the state of the initialisation sequence within their bits, the
  flags 0 or 1, the interrupt base a multiple of 8, no level-triggered input outside the mask. Only
  the initialisation with level-triggered inputs is excluded, which stops the emulator.
\<close>

theorem pics_stay_well_formed:
  assumes "\<forall>x\<in>set xs. \<not> refused x"
  shows "\<exists>S. pic_steps xs i8259_init = Some S \<and> pics_ok S"
  by (rule steps_ok [OF init_ok assms])

theorem pics_stay_well_formed_witness:
  "\<exists>S. pic_steps [Out 0 0x20 0x11, Out 0 0x21 0x08, Out 0 0x21 0x04, Out 0 0x21 0x01, Irq 1 True, Ack, Out 0 0x20 0x20] i8259_init = Some S \<and>
     pics_ok S"
  by (rule pics_stay_well_formed) simp

section \<open>Acknowledging\<close>

text \<open>
  What it means that the CPU has been given input \<open>n\<close> of a chip: an edge-triggered request is gone,
  and without automatic end of interrupt the input is in service, so that only inputs of higher
  priority are wanted.
\<close>

definition taken :: "bool \<Rightarrow> nat \<Rightarrow> PicState \<Rightarrow> PicState \<Rightarrow> bool" where
  "taken master n s s' \<longleftrightarrow> (\<not> bit (elcr s) n \<longrightarrow> \<not> bit (irr s') n) \<and>
     (auto_eoi s = 0 \<longrightarrow> bit (isr s') n \<and> (\<forall>k. wants master s' k \<longrightarrow> rank s' k < rank s' n))"

lemma intack_taken: "n < 8 \<Longrightarrow> master = False \<or> n \<noteq> 2 \<Longrightarrow> taken master n s (pic_intack n s)"
proof -
  assume n: "n < 8" "master = False \<or> n \<noteq> 2"
  have b: "bit (isr (pic_intack n s)) n" if "auto_eoi s = 0"
    using that n by (simp add: pic_intack_def Let_def bit_or_iff bit_line)
  then have "in_service master (pic_intack n s) n" if "auto_eoi s = 0" using that n(2) by (auto simp: in_service_def)
  moreover have "\<not> bit (irr (pic_intack n s)) n" if "\<not> bit (elcr s) n"
    using that n(1) by (simp add: pic_intack_def Let_def line_test bit_and_iff bit_not_iff bit_line)
  ultimately show ?thesis using b unfolding taken_def wants_def by blast
qed

text \<open>The pulse on input 2 changes neither the other inputs nor what is in service.\<close>

lemma pulse_fields:
  fixes s :: PicState
  defines "s' \<equiv> pic_set_irq1 2 False (pic_set_irq1 2 True s)"
  shows "isr s' = isr s" "priority_add s' = priority_add s" "special_fully_nested_mode s' = special_fully_nested_mode s"
    "irq_base s' = irq_base s" "n \<noteq> 2 \<Longrightarrow> bit (irr s') n = bit (irr s) n"
proof -
  have l: "n \<noteq> 2 \<Longrightarrow> \<not> bit (line 2) n" for n by (simp add: bit_line)
  have nl: "n \<noteq> 2 \<Longrightarrow> bit (irr s) n \<Longrightarrow> bit (NOT (line 2)) n" using bit8 [of "irr s" n] by (simp add: bit_not_iff bit_line)
  show "isr s' = isr s" "priority_add s' = priority_add s" "special_fully_nested_mode s' = special_fully_nested_mode s"
    "irq_base s' = irq_base s"
    by (simp_all add: s'_def pic_set_irq1_def)
  show "n \<noteq> 2 \<Longrightarrow> bit (irr s') n = bit (irr s) n"
    using l nl by (auto simp: s'_def pic_set_irq1_def bit_and_iff bit_or_iff)
qed

lemma taken_pulse:
  assumes "taken True n s s1" "n \<noteq> 2"
    and "s' = s1 \<or> s' = pic_set_irq1 2 False (pic_set_irq1 2 True s1)"
  shows "taken True n s s'"
  using assms(3)
proof
  assume e: "s' = pic_set_irq1 2 False (pic_set_irq1 2 True s1)"
  note f = pulse_fields [where s = s1, folded e]
  have "in_service True s' n" if "auto_eoi s = 0" using assms(1,2) that f(1) by (simp add: taken_def in_service_def)
  then have "\<forall>k. wants True s' k \<longrightarrow> rank s' k < rank s' n" if "auto_eoi s = 0" using that unfolding wants_def by blast
  then show ?thesis using assms f by (simp add: taken_def)
qed (use assms(1) in simp)

lemma wants_less: "wants master s n \<Longrightarrow> n < 8"
  using bit8 [of "irr s" n] by (simp add: wants_def pending_def)

text \<open>
  \<^bold>\<open>C29\<close>. The CPU is given the right interrupt. Taking an interrupt always returns. If the first chip
  wants an input other than 2 (the request of the highest priority that is not masked, and above
  everything in service), the result is its number and the input has been taken: only higher
  priorities can interrupt it until its end is announced. If it wants input 2, the same holds of the
  second chip, and its input; if that wants none, the result is its spurious interrupt 7, as it is
  for the first chip if that wants none.
\<close>

theorem highest_priority_is_taken:
  "\<exists>v S'. pic_read_irq S = Some (v, S') \<and>
     (\<forall>n. wants True (pics S 0) n \<longrightarrow> n \<noteq> 2 \<longrightarrow> v = uint (irq_base (pics S 0)) + int n \<and> taken True n (pics S 0) (pics S' 0)) \<and>
     (\<forall>n. wants True (pics S 0) 2 \<longrightarrow> wants False (pics S 1) n \<longrightarrow>
        v = uint (irq_base (pics S 1)) + int n \<and> taken False n (pics S 1) (pics S' 1)) \<and>
     (wants True (pics S 0) 2 \<longrightarrow> (\<forall>n. \<not> wants False (pics S 1) n) \<longrightarrow> v = uint (irq_base (pics S 1)) + 7 \<and> pics S' 1 = pics S 1) \<and>
     ((\<forall>n. \<not> wants True (pics S 0) n) \<longrightarrow> v = uint (irq_base (pics S 0)) + 7 \<and> isr (pics S' 0) = isr (pics S 0))"
proof -
  consider (none) "\<forall>n. \<not> wants True (pics S 0) n" | (some) n where "wants True (pics S 0) n" "n \<noteq> 2"
    | (slave) n where "wants True (pics S 0) 2" "wants False (pics S 1) n" | (spurious) "wants True (pics S 0) 2" "\<forall>n. \<not> wants False (pics S 1) n"
    by blast
  then show ?thesis
  proof cases
    case none
    obtain S' where S': "pic_update_irq S = Some S'" "pics S' 0 = pics S 0 \<or> pics S' 0 = pic_set_irq1 2 False (pic_set_irq1 2 True (pics S 0))"
      using pic_update_spec [of S] by blast
    have "pic_read_irq S = Some (uint (irq_base (pics S 0)) + 7, S')"
      using none S'(1) pic_get_irq_none [of True "pics S 0"] by (simp add: pic_read_irq_def)
    moreover have "isr (pics S' 0) = isr (pics S 0)" using S'(2) pulse_fields(1) by metis
    ultimately show ?thesis
      by (intro exI [of _ "uint (irq_base (pics S 0)) + 7"] exI [of _ S']) (simp add: none)
  next
    case some
    define S1 where "S1 = set_pic 0 (pic_intack n) S"
    obtain S' where S': "pic_update_irq S1 = Some S'" "pics S' 0 = pics S1 0 \<or> pics S' 0 = pic_set_irq1 2 False (pic_set_irq1 2 True (pics S1 0))"
      using pic_update_spec [of S1] by blast
    have g: "pic_get_irq True (pics S 0) = Some (int n)" using some(1) by (simp add: pic_get_irq_iff)
    have "irq_base (pics S1 0) = irq_base (pics S 0)" by (simp add: S1_def pic_intack_def Let_def)
    then have "pic_read_irq S = Some (uint (irq_base (pics S 0)) + int n, S')"
      using some(2) S'(1) by (simp add: pic_read_irq_def g Let_def S1_def)
    moreover have "taken True n (pics S 0) (pics S1 0)" using intack_taken [OF wants_less [OF some(1)], of True] some(2) by (simp add: S1_def)
    then have "taken True n (pics S 0) (pics S' 0)" by (rule taken_pulse [OF _ some(2) S'(2)])
    moreover have u: "wants True (pics S 0) k \<longleftrightarrow> k = n" for k using some(1) wants_unique by blast
    ultimately show ?thesis
      by (intro exI [of _ "uint (irq_base (pics S 0)) + int n"] exI [of _ S']) (simp add: u some(2) some(2) [symmetric])
  next
    case slave
    define S1 where "S1 = set_pic 0 (pic_intack 2) S"
    define S2 where "S2 = set_pic 1 (pic_intack n) S1"
    obtain S' where S': "pic_update_irq S2 = Some S'" "\<forall>i. i \<noteq> 0 \<longrightarrow> pics S' i = pics S2 i"
      using pic_update_spec [of S2] by blast
    have g: "pic_get_irq True (pics S 0) = Some (int 2)" "pic_get_irq False (pics S1 1) = Some (int n)"
      using slave pic_get_irq_iff [of True "pics S 0" 2] pic_get_irq_iff [of False "pics S 1" n] by (simp_all add: S1_def)
    have "irq_base (pics S2 1) = irq_base (pics S 1)" by (simp add: S2_def S1_def pic_intack_def Let_def)
    then have "pic_read_irq S = Some (uint (irq_base (pics S 1)) + int n, S')"
      using S'(1) g(2) by (simp add: pic_read_irq_def g(1) Let_def S1_def S2_def)
    moreover have "taken False n (pics S 1) (pics S' 1)"
      using intack_taken [OF wants_less [OF slave(2)], of False] S'(2) by (simp add: S2_def S1_def)
    moreover have u: "wants True (pics S 0) k \<longleftrightarrow> k = 2" "wants False (pics S 1) k \<longleftrightarrow> k = n" for k
      using slave wants_unique by blast+
    ultimately show ?thesis
      by (intro exI [of _ "uint (irq_base (pics S 1)) + int n"] exI [of _ S']) (simp only: u, simp)
  next
    case spurious
    define S1 where "S1 = set_pic 0 (pic_intack 2) S"
    obtain S' where S': "pic_update_irq S1 = Some S'" "\<forall>i. i \<noteq> 0 \<longrightarrow> pics S' i = pics S1 i"
      using pic_update_spec [of S1] by blast
    have g: "pic_get_irq True (pics S 0) = Some (int 2)" "pic_get_irq False (pics S1 1) = Some (-1)"
      using spurious pic_get_irq_iff [of True "pics S 0" 2] pic_get_irq_none [of False "pics S 1"] by (simp_all add: S1_def)
    have "pic_read_irq S = Some (uint (irq_base (pics S 1)) + 7, S')"
      using S'(1) g(2) by (simp add: pic_read_irq_def g(1) Let_def S1_def)
    moreover have u: "wants True (pics S 0) k \<longleftrightarrow> k = 2" for k using spurious(1) wants_unique by blast
    moreover have "pics S' 1 = pics S 1" using S'(2) by (simp add: S1_def)
    ultimately show ?thesis
      by (intro exI [of _ "uint (irq_base (pics S 1)) + 7"] exI [of _ S']) (simp only: u spurious(2), simp)
  qed
qed

definition two_requests :: PicState2 where
  "two_requests = set_pic 0 (\<lambda>s. s\<lparr>irr := 0x0a, irq_base := 8\<rparr>) i8259_init"

theorem highest_priority_is_taken_witness:
  "\<exists>S'. pic_read_irq two_requests = Some (9, S') \<and> \<not> bit (irr (pics S' 0)) 1 \<and> bit (isr (pics S' 0)) 1"
proof -
  have f: "irr (pics two_requests 0) = 0x0a" "imr (pics two_requests 0) = 0" "isr (pics two_requests 0) = 0"
    "priority_add (pics two_requests 0) = 0" "elcr (pics two_requests 0) = 0" "auto_eoi (pics two_requests 0) = 0"
    "irq_base (pics two_requests 0) = 8"
    by (simp_all add: two_requests_def i8259_init_def empty_pic_def)
  have "priority_search 0 0x0a 0 = Some 1"
    by (subst priority_search.simps, simp add: line_def, subst priority_search.simps, simp add: line_def)
  then have "pic_get_irq True (pics two_requests 0) = Some (int 1)"
    by (simp add: pic_get_irq_def get_priority_def f)
  then have "wants True (pics two_requests 0) 1" by (simp only: pic_get_irq_iff)
  then show ?thesis using highest_priority_is_taken [of two_requests] f by (auto simp: taken_def)
qed

text \<open>Saving and loading gives the registers back, whatever the chip held before.\<close>

lemma pic_save_load: "elcr_mask t = elcr_mask s \<Longrightarrow> pic_load (pic_save s) 1 t = (0, s)"
  by (simp add: pic_load_def pic_save_def Let_def)

end
