(* ===== verification/PS2.thy ===== *)
theory PS2
  imports Prelude
begin

text \<open>
  The keyboard and the mouse of the PC (\<^verbatim>\<open>hw/ps2.c\<close>): the queue of bytes for the guest, the commands
  of both devices, key codes and mouse packets, and the saved state.

  \<open>None\<close> as a result stands for an access outside the array of the queue. C integers that only count
  or accumulate are HOL integers.
\<close>

section \<open>State\<close>

text \<open>
  \<open>irqs\<close> records the calls of \<^verbatim>\<open>update_irq\<close>. The states of the devices extend the common state.
\<close>

record PS2State =
  q_data :: "u8 list"
  q_rptr :: int
  q_wptr :: int
  q_count :: int
  write_cmd :: int
  irqs :: "bool list"

record PS2KbdState = PS2State +
  scan_enabled :: int
  translate_mode :: int

record PS2MouseState = PS2State +
  mouse_status :: u8
  mouse_resolution :: u8
  mouse_sample_rate :: u8
  mouse_wrap :: u8
  mouse_type :: u8
  mouse_detect_state :: u8
  mouse_dx :: int
  mouse_dy :: int
  mouse_dz :: int
  mouse_buttons :: u8

abbreviation (input) PS2_QUEUE_SIZE :: int where "PS2_QUEUE_SIZE \<equiv> 256"

definition ps2_raw_keycode :: "int list" where
  "ps2_raw_keycode =
     [0, 118, 22, 30, 38, 37, 46, 54, 61, 62, 70, 69, 78, 85, 102, 13,
      21, 29, 36, 45, 44, 53, 60, 67, 68, 77, 84, 91, 90, 20, 28, 27,
      35, 43, 52, 51, 59, 66, 75, 76, 82, 14, 18, 93, 26, 34, 33, 42,
      50, 49, 58, 65, 73, 74, 89, 124, 17, 41, 88, 5, 6, 4, 12, 3,
      11, 2, 10, 1, 9, 119, 126, 108, 117, 125, 123, 107, 115, 116, 121, 105,
      114, 122, 112, 113, 127, 96, 97, 120, 7, 15, 23, 31, 39, 47, 55, 63,
      71, 79, 86, 94, 8, 16, 24, 32, 40, 48, 56, 64, 72, 80, 87, 111,
      19, 25, 57, 81, 83, 92, 95, 98, 99, 100, 101, 103, 104, 106, 109, 110]"

section \<open>The queue\<close>

definition ps2_queue :: "int \<Rightarrow> 'a PS2State_scheme \<Rightarrow> 'a PS2State_scheme option" where
  "ps2_queue b s =
     (if PS2_QUEUE_SIZE \<le> q_count s then Some s
      else if q_wptr s < 0 \<or> PS2_QUEUE_SIZE \<le> q_wptr s then None
      else
        let w = q_wptr s + 1 in
        Some (s\<lparr>q_data := (q_data s)[nat (q_wptr s) := of_int b],
                q_wptr := (if w = PS2_QUEUE_SIZE then 0 else w),
                q_count := q_count s + 1, irqs := irqs s @ [True]\<rparr>))"

fun ps2_queue_all :: "int list \<Rightarrow> 'a PS2State_scheme \<Rightarrow> 'a PS2State_scheme option" where
  "ps2_queue_all [] s = Some s"
| "ps2_queue_all (b # bs) s = Option.bind (ps2_queue b s) (ps2_queue_all bs)"

definition ps2_read_data :: "'a PS2State_scheme \<Rightarrow> (u8 \<times> 'a PS2State_scheme) option" where
  "ps2_read_data s =
     (if q_count s = 0 then
        let index = (if q_rptr s - 1 < 0 then PS2_QUEUE_SIZE - 1 else q_rptr s - 1) in
        if PS2_QUEUE_SIZE \<le> index then None else Some (q_data s ! nat index, s)
      else if q_rptr s < 0 \<or> PS2_QUEUE_SIZE \<le> q_rptr s then None
      else
        let r = q_rptr s + 1 in
        Some (q_data s ! nat (q_rptr s),
              s\<lparr>q_rptr := (if r = PS2_QUEUE_SIZE then 0 else r), q_count := q_count s - 1,
                irqs := irqs s @ [False, q_count s - 1 \<noteq> 0]\<rparr>))"

definition ps2_reset :: "'a PS2State_scheme \<Rightarrow> 'a PS2State_scheme" where
  "ps2_reset s = s\<lparr>write_cmd := -1, q_rptr := 0, q_wptr := 0, q_count := 0\<rparr>"

section \<open>The keyboard\<close>

definition ps2_put_keycode :: "int \<Rightarrow> 'a PS2KbdState_scheme \<Rightarrow> 'a PS2KbdState_scheme option" where
  "ps2_put_keycode keycode s =
     (if translate_mode s = 0 \<and> keycode < 0xe0
      then Option.bind (if keycode AND 0x80 \<noteq> 0 then ps2_queue 0xf0 s else Some s)
             (ps2_queue (ps2_raw_keycode ! nat (keycode AND 0x7f)))
      else ps2_queue keycode s)"

definition ps2_reset_keyboard :: "'a PS2KbdState_scheme \<Rightarrow> 'a PS2KbdState_scheme" where
  "ps2_reset_keyboard s = s\<lparr>scan_enabled := 1\<rparr>"

definition ps2_write_keyboard :: "int \<Rightarrow> 'a PS2KbdState_scheme \<Rightarrow> 'a PS2KbdState_scheme option" where
  "ps2_write_keyboard val s =
     (if write_cmd s = 0xed \<or> write_cmd s = 0xf3 then
        map_option (\<lambda>s. s\<lparr>write_cmd := -1\<rparr>) (ps2_queue 0xfa s)
      else if val = 0x00 then ps2_queue 0xfa s
      else if val = 0x05 then ps2_queue 0xfe s
      else if val = 0xf2 then ps2_queue_all [0xfa, 0xab, 0x83] s
      else if val = 0xee then ps2_queue 0xee s
      else if val = 0xf4 then ps2_queue 0xfa (s\<lparr>scan_enabled := 1\<rparr>)
      else if val = 0xed \<or> val = 0xf3 then ps2_queue 0xfa (s\<lparr>write_cmd := val\<rparr>)
      else if val = 0xf5 then ps2_queue 0xfa ((ps2_reset_keyboard s)\<lparr>scan_enabled := 0\<rparr>)
      else if val = 0xf6 then ps2_queue 0xfa ((ps2_reset_keyboard s)\<lparr>scan_enabled := 1\<rparr>)
      else if val = 0xff then ps2_queue_all [0xfa, 0xaa] (ps2_reset_keyboard s)
      else ps2_queue 0xfa s)"

definition ps2_keyboard_set_translation :: "int \<Rightarrow> 'a PS2KbdState_scheme \<Rightarrow> 'a PS2KbdState_scheme" where
  "ps2_keyboard_set_translation mode s = s\<lparr>translate_mode := mode\<rparr>"

section \<open>The mouse\<close>

abbreviation (input) MOUSE_STATUS_REMOTE :: u8 where "MOUSE_STATUS_REMOTE \<equiv> 0x40"
abbreviation (input) MOUSE_STATUS_ENABLED :: u8 where "MOUSE_STATUS_ENABLED \<equiv> 0x20"
abbreviation (input) MOUSE_STATUS_SCALE21 :: u8 where "MOUSE_STATUS_SCALE21 \<equiv> 0x10"

definition clamp :: "int \<Rightarrow> int \<Rightarrow> int" where
  "clamp m d = (if m < d then m else if d < -m then -m else d)"

definition ps2_mouse_send_packet :: "'a PS2MouseState_scheme \<Rightarrow> 'a PS2MouseState_scheme option" where
  "ps2_mouse_send_packet s =
     (let dx1 = clamp 127 (mouse_dx s); dy1 = clamp 127 (mouse_dy s);
          dz1 = (if mouse_type s = 3 then clamp 127 (mouse_dz s)
                 else if mouse_type s = 4 then clamp 7 (mouse_dz s) else mouse_dz s);
          b = 0x08 OR push_bit 4 (of_bool (dx1 < 0)) OR push_bit 5 (of_bool (dy1 < 0)) OR uint (mouse_buttons s AND 7);
          extra = (if mouse_type s = 3 then [dz1 AND 0xff]
                   else if mouse_type s = 4 then [(dz1 AND 0x0f) OR push_bit 1 (uint (mouse_buttons s AND 0x18))] else []) in
      map_option (\<lambda>s. s\<lparr>mouse_dx := mouse_dx s - dx1, mouse_dy := mouse_dy s - dy1, mouse_dz := mouse_dz s - dz1\<rparr>)
        (ps2_queue_all ([b, dx1 AND 0xff, dy1 AND 0xff] @ extra) s))"

lemma queue_more: "ps2_queue b s = Some s' \<Longrightarrow> PS2State.more s' = PS2State.more s"
  by (auto simp: ps2_queue_def Let_def split: if_splits)

lemma queue_all_more: "ps2_queue_all bs s = Some s' \<Longrightarrow> PS2State.more s' = PS2State.more s"
  by (induction bs arbitrary: s) (auto simp: bind_eq_Some_conv dest: queue_more)

lemma mouse_more: "PS2State.more s' = PS2State.more s \<Longrightarrow> mouse_dx s' = mouse_dx s \<and> mouse_dy s' = mouse_dy s \<and>
    mouse_dz s' = mouse_dz s \<and> mouse_type s' = mouse_type s \<and> mouse_buttons s' = mouse_buttons (s :: 'a PS2MouseState_scheme)"
  by (cases s, cases s') simp

text \<open>A packet takes away as much of each movement as it can carry.\<close>

lemma send_packet_moves:
  assumes "ps2_mouse_send_packet s = Some s'"
  shows "mouse_dx s' = mouse_dx s - clamp 127 (mouse_dx s)" "mouse_dy s' = mouse_dy s - clamp 127 (mouse_dy s)"
    "mouse_dz s' = mouse_dz s - (if mouse_type s = 3 then clamp 127 (mouse_dz s)
       else if mouse_type s = 4 then clamp 7 (mouse_dz s) else mouse_dz s)"
proof -
  obtain bs z dx dy dz where z: "ps2_queue_all bs s = Some z"
    "s' = z\<lparr>mouse_dx := mouse_dx z - dx, mouse_dy := mouse_dy z - dy, mouse_dz := mouse_dz z - dz\<rparr>"
    and d: "dx = clamp 127 (mouse_dx s)" "dy = clamp 127 (mouse_dy s)" "dz = (if mouse_type s = 3 then clamp 127 (mouse_dz s)
       else if mouse_type s = 4 then clamp 7 (mouse_dz s) else mouse_dz s)"
    using assms unfolding ps2_mouse_send_packet_def Let_def map_option_eq_Some by blast
  note k = mouse_more [OF queue_all_more [OF z(1)]]
  show "mouse_dx s' = mouse_dx s - clamp 127 (mouse_dx s)" "mouse_dy s' = mouse_dy s - clamp 127 (mouse_dy s)"
    "mouse_dz s' = mouse_dz s - (if mouse_type s = 3 then clamp 127 (mouse_dz s)
       else if mouse_type s = 4 then clamp 7 (mouse_dz s) else mouse_dz s)"
    unfolding z(2) d [symmetric] using k by simp_all
qed

text \<open>The loop that sends packets until the movement is used up.\<close>

definition mouse_rest :: "'a PS2MouseState_scheme \<Rightarrow> nat" where
  "mouse_rest s = nat (\<bar>mouse_dx s\<bar> + \<bar>mouse_dy s\<bar> + \<bar>mouse_dz s\<bar>)"

lemma clamp_less: "0 < m \<Longrightarrow> \<bar>d - clamp m d\<bar> \<le> \<bar>d\<bar>" "0 < m \<Longrightarrow> d - clamp m d \<noteq> 0 \<Longrightarrow> \<bar>d - clamp m d\<bar> < \<bar>d\<bar>"
  by (auto simp: clamp_def)

lemma sum_less: "a' \<le> a \<Longrightarrow> b' \<le> b \<Longrightarrow> c' \<le> c \<Longrightarrow> a' < a \<or> b' < b \<or> c' < c \<Longrightarrow> 0 \<le> a' \<Longrightarrow> 0 \<le> b' \<Longrightarrow> 0 \<le> c' \<Longrightarrow>
    nat (a' + b' + c') < nat (a + b + c)"
  by auto

lemma send_packet_rest:
  assumes "ps2_mouse_send_packet s = Some s'" "\<not> (mouse_dx s' = 0 \<and> mouse_dy s' = 0 \<and> mouse_dz s' = 0)"
  shows "mouse_rest s' < mouse_rest s"
proof -
  note m = send_packet_moves [OF assms(1)]
  have z: "\<bar>mouse_dz s'\<bar> \<le> \<bar>mouse_dz s\<bar>" "mouse_dz s' \<noteq> 0 \<Longrightarrow> \<bar>mouse_dz s'\<bar> < \<bar>mouse_dz s\<bar>"
    using clamp_less [of 127 "mouse_dz s"] clamp_less [of 7 "mouse_dz s"] by (auto simp: m(3))
  have x: "\<bar>mouse_dx s'\<bar> \<le> \<bar>mouse_dx s\<bar>" "mouse_dx s' \<noteq> 0 \<Longrightarrow> \<bar>mouse_dx s'\<bar> < \<bar>mouse_dx s\<bar>"
    using clamp_less [of 127 "mouse_dx s"] by (simp_all add: m(1))
  have y: "\<bar>mouse_dy s'\<bar> \<le> \<bar>mouse_dy s\<bar>" "mouse_dy s' \<noteq> 0 \<Longrightarrow> \<bar>mouse_dy s'\<bar> < \<bar>mouse_dy s\<bar>"
    using clamp_less [of 127 "mouse_dy s"] by (simp_all add: m(2))
  show ?thesis unfolding mouse_rest_def by (rule sum_less [OF x(1) y(1) z(1)]) (use x(2) y(2) z(2) assms(2) in auto)
qed

function send_packets :: "'a PS2MouseState_scheme \<Rightarrow> 'a PS2MouseState_scheme option" where
  "send_packets s =
     (case ps2_mouse_send_packet s of
        None \<Rightarrow> None
      | Some s1 \<Rightarrow> if mouse_dx s1 = 0 \<and> mouse_dy s1 = 0 \<and> mouse_dz s1 = 0 then Some s1 else send_packets s1)"
  by pat_completeness auto
termination
  by (relation "measure mouse_rest") (simp_all add: send_packet_rest)

declare send_packets.simps [simp del]

definition ps2_mouse_event :: "int \<Rightarrow> int \<Rightarrow> int \<Rightarrow> int \<Rightarrow> 'a PS2MouseState_scheme \<Rightarrow> 'a PS2MouseState_scheme option" where
  "ps2_mouse_event dx dy dz buttons_state s =
     (if mouse_status s AND MOUSE_STATUS_ENABLED = 0 then Some s
      else
        let s1 = s\<lparr>mouse_dx := mouse_dx s + dx, mouse_dy := mouse_dy s - dy, mouse_dz := mouse_dz s + dz\<rparr> in
        if mouse_dx s1 = 0 \<and> mouse_dy s1 = 0 \<and> mouse_dz s1 = 0 \<and> uint (mouse_buttons s1) = buttons_state then Some s1
        else
          let s2 = s1\<lparr>mouse_buttons := of_int buttons_state\<rparr> in
          if mouse_status s2 AND MOUSE_STATUS_REMOTE = 0 \<and> q_count s2 < PS2_QUEUE_SIZE - 16 then send_packets s2
          else Some s2)"

definition ps2_mouse_fake_event :: "'a PS2MouseState_scheme \<Rightarrow> 'a PS2MouseState_scheme option" where
  "ps2_mouse_fake_event s = ps2_mouse_event 1 0 0 0 s"

text \<open>A command outside wrap mode.\<close>

definition ps2_mouse_command :: "int \<Rightarrow> 'a PS2MouseState_scheme \<Rightarrow> 'a PS2MouseState_scheme option" where
  "ps2_mouse_command val s =
     (if val = 0xe6 then ps2_queue 0xfa (s\<lparr>mouse_status := mouse_status s AND NOT MOUSE_STATUS_SCALE21\<rparr>)
      else if val = 0xe7 then ps2_queue 0xfa (s\<lparr>mouse_status := mouse_status s OR MOUSE_STATUS_SCALE21\<rparr>)
      else if val = 0xea then ps2_queue 0xfa (s\<lparr>mouse_status := mouse_status s AND NOT MOUSE_STATUS_REMOTE\<rparr>)
      else if val = 0xee then ps2_queue 0xfa (s\<lparr>mouse_wrap := 1\<rparr>)
      else if val = 0xf0 then ps2_queue 0xfa (s\<lparr>mouse_status := mouse_status s OR MOUSE_STATUS_REMOTE\<rparr>)
      else if val = 0xf2 then ps2_queue_all [0xfa, uint (mouse_type s)] s
      else if val = 0xe8 \<or> val = 0xf3 then ps2_queue 0xfa (s\<lparr>write_cmd := val\<rparr>)
      else if val = 0xe9 then
        ps2_queue_all [0xfa, uint (mouse_status s), uint (mouse_resolution s), uint (mouse_sample_rate s)] s
      else if val = 0xeb then Option.bind (ps2_queue 0xfa s) ps2_mouse_send_packet
      else if val = 0xf4 then ps2_queue 0xfa (s\<lparr>mouse_status := mouse_status s OR MOUSE_STATUS_ENABLED\<rparr>)
      else if val = 0xf5 then ps2_queue 0xfa (s\<lparr>mouse_status := mouse_status s AND NOT MOUSE_STATUS_ENABLED\<rparr>)
      else if val = 0xf6 then ps2_queue 0xfa (s\<lparr>mouse_sample_rate := 100, mouse_resolution := 2, mouse_status := 0\<rparr>)
      else if val = 0xff then
        let s1 = s\<lparr>mouse_sample_rate := 100, mouse_resolution := 2, mouse_status := 0, mouse_type := 0\<rparr> in
        ps2_queue_all [0xfa, 0xaa, uint (mouse_type s1)] s1
      else Some s)"

text \<open>The sequence of sample rates by which a driver asks for the other protocols.\<close>

definition mouse_detect :: "int \<Rightarrow> 'a PS2MouseState_scheme \<Rightarrow> 'a PS2MouseState_scheme" where
  "mouse_detect val s =
     (if mouse_detect_state s = 1 then
        s\<lparr>mouse_detect_state := (if val = 100 then 2 else if val = 200 then 3 else 0)\<rparr>
      else if mouse_detect_state s = 2 then
        (if val = 80 then s\<lparr>mouse_type := 3\<rparr> else s)\<lparr>mouse_detect_state := 0\<rparr>
      else if mouse_detect_state s = 3 then
        (if val = 80 then s\<lparr>mouse_type := 4\<rparr> else s)\<lparr>mouse_detect_state := 0\<rparr>
      else if val = 200 then s\<lparr>mouse_detect_state := 1\<rparr> else s)"

definition ps2_write_mouse :: "int \<Rightarrow> 'a PS2MouseState_scheme \<Rightarrow> 'a PS2MouseState_scheme option" where
  "ps2_write_mouse val s =
     (if write_cmd s = 0xf3 then
        map_option (\<lambda>s. s\<lparr>write_cmd := -1\<rparr>)
          (ps2_queue 0xfa (mouse_detect val (s\<lparr>mouse_sample_rate := of_int val\<rparr>)))
      else if write_cmd s = 0xe8 then
        map_option (\<lambda>s. s\<lparr>write_cmd := -1\<rparr>) (ps2_queue 0xfa (s\<lparr>mouse_resolution := of_int val\<rparr>))
      else if mouse_wrap s \<noteq> 0 \<and> val = 0xec then ps2_queue 0xfa (s\<lparr>mouse_wrap := 0\<rparr>)
      else if mouse_wrap s \<noteq> 0 \<and> val \<noteq> 0xff then ps2_queue val s
      else ps2_mouse_command val s)"

section \<open>Saved state\<close>

definition put_be32 :: "int \<Rightarrow> u8 list" where
  "put_be32 v = (let w = of_int v :: u32 in
     [ucast (drop_bit 24 w), ucast (drop_bit 16 w), ucast (drop_bit 8 w), ucast w])"

text \<open>Reading: a byte past the end of the file is zero. The position is an index into the file.\<close>

definition get_byte :: "u8 list \<Rightarrow> nat \<Rightarrow> u8" where
  "get_byte f p = (if p < length f then f ! p else 0)"

definition get_be32 :: "u8 list \<Rightarrow> nat \<Rightarrow> int" where
  "get_be32 f p =
     sint (push_bit 24 (ucast (get_byte f p)) OR push_bit 16 (ucast (get_byte f (p + 1))) OR
           push_bit 8 (ucast (get_byte f (p + 2))) OR ucast (get_byte f (p + 3)) :: u32)"

definition ps2_common_save :: "'a PS2State_scheme \<Rightarrow> u8 list" where
  "ps2_common_save s = put_be32 (write_cmd s) @ put_be32 (q_rptr s) @ put_be32 (q_wptr s) @ put_be32 (q_count s) @ q_data s"

text \<open>\<^verbatim>\<open>qemu_get_buffer\<close> fills the array as far as the file goes.\<close>

definition ps2_common_load :: "u8 list \<Rightarrow> 'a PS2State_scheme \<Rightarrow> 'a PS2State_scheme" where
  "ps2_common_load f s =
     s\<lparr>write_cmd := get_be32 f 0, q_rptr := get_be32 f 4, q_wptr := get_be32 f 8, q_count := get_be32 f 12,
       q_data := take 256 (drop 16 f) @ drop (length (take 256 (drop 16 f))) (q_data s)\<rparr>"

definition ps2_kbd_save :: "'a PS2KbdState_scheme \<Rightarrow> u8 list" where
  "ps2_kbd_save s = ps2_common_save s @ put_be32 (scan_enabled s) @ put_be32 (translate_mode s)"

definition ps2_kbd_load :: "u8 list \<Rightarrow> nat \<Rightarrow> 'a PS2KbdState_scheme \<Rightarrow> int \<times> 'a PS2KbdState_scheme" where
  "ps2_kbd_load f version_id s =
     (if version_id \<noteq> 2 then (-22, s)
      else (0, (ps2_common_load f s)\<lparr>scan_enabled := get_be32 f 272, translate_mode := get_be32 f 276\<rparr>))"

definition ps2_mouse_save :: "'a PS2MouseState_scheme \<Rightarrow> u8 list" where
  "ps2_mouse_save s =
     ps2_common_save s @ [mouse_status s, mouse_resolution s, mouse_sample_rate s, mouse_wrap s, mouse_type s,
       mouse_detect_state s] @ put_be32 (mouse_dx s) @ put_be32 (mouse_dy s) @ put_be32 (mouse_dz s) @ [mouse_buttons s]"

definition ps2_mouse_load :: "u8 list \<Rightarrow> nat \<Rightarrow> 'a PS2MouseState_scheme \<Rightarrow> int \<times> 'a PS2MouseState_scheme" where
  "ps2_mouse_load f version_id s =
     (if version_id \<noteq> 2 then (-22, s)
      else (0, (ps2_common_load f s)\<lparr>mouse_status := get_byte f 272, mouse_resolution := get_byte f 273,
        mouse_sample_rate := get_byte f 274, mouse_wrap := get_byte f 275, mouse_type := get_byte f 276,
        mouse_detect_state := get_byte f 277, mouse_dx := get_be32 f 278, mouse_dy := get_be32 f 282,
        mouse_dz := get_be32 f 286, mouse_buttons := get_byte f 290\<rparr>))"

section \<open>Set-up\<close>

definition ps2_kbd_init :: PS2KbdState where
  "ps2_kbd_init = ps2_reset \<lparr>q_data = replicate 256 0, q_rptr = 0, q_wptr = 0, q_count = 0, write_cmd = 0, irqs = [],
     scan_enabled = 0, translate_mode = 0\<rparr>"

definition ps2_mouse_init :: PS2MouseState where
  "ps2_mouse_init = ps2_reset \<lparr>q_data = replicate 256 0, q_rptr = 0, q_wptr = 0, q_count = 0, write_cmd = 0, irqs = [],
     mouse_status = 0, mouse_resolution = 0, mouse_sample_rate = 0, mouse_wrap = 0, mouse_type = 0, mouse_detect_state = 0,
     mouse_dx = 0, mouse_dy = 0, mouse_dz = 0, mouse_buttons = 0\<rparr>"

end
