(* ===== verification/PS2Props.thy ===== *)
theory PS2Props
  imports PS2
begin

text \<open>
  The ring buffer of the keyboard and the mouse is a bounded queue: what the devices put in comes out
  in order, and nothing is read or written outside the array. No operation of the devices breaks this.
\<close>

section \<open>Bounded queues\<close>

text \<open>
  What a client of a bounded queue relies on: a full queue drops what is put in, anything else is
  appended, and the oldest element is taken.
\<close>

locale bounded_queue =
  fixes ok :: "'s \<Rightarrow> bool" and contents :: "'s \<Rightarrow> 'b list" and cap :: nat
    and put :: "'b \<Rightarrow> 's \<Rightarrow> 's option" and get :: "'s \<Rightarrow> ('b \<times> 's) option"
  assumes put_law: "ok s \<Longrightarrow> \<exists>s'. put b s = Some s' \<and> ok s' \<and>
      contents s' = (if length (contents s) < cap then contents s @ [b] else contents s)"
    and get_law: "ok s \<Longrightarrow> contents s = x # xs \<Longrightarrow> \<exists>s'. get s = Some (x, s') \<and> ok s' \<and> contents s' = xs"
    and cap_law: "ok s \<Longrightarrow> length (contents s) \<le> cap"
begin

fun put_all :: "'b list \<Rightarrow> 's \<Rightarrow> 's option" where
  "put_all [] s = Some s"
| "put_all (b # bs) s = Option.bind (put b s) (put_all bs)"

fun get_all :: "nat \<Rightarrow> 's \<Rightarrow> ('b list \<times> 's) option" where
  "get_all 0 s = Some ([], s)"
| "get_all (Suc n) s = Option.bind (get s) (\<lambda>(b, s1). map_option (\<lambda>(bs, s2). (b # bs, s2)) (get_all n s1))"

lemma put_all_spec:
  "ok s \<Longrightarrow> \<exists>s'. put_all bs s = Some s' \<and> ok s' \<and> contents s' = contents s @ take (cap - length (contents s)) bs"
proof (induction bs arbitrary: s)
  case (Cons b bs)
  obtain s1 where s1: "put b s = Some s1" "ok s1"
    "contents s1 = (if length (contents s) < cap then contents s @ [b] else contents s)"
    using put_law [OF Cons.prems] by blast
  obtain s' where s': "put_all bs s1 = Some s'" "ok s'" "contents s' = contents s1 @ take (cap - length (contents s1)) bs"
    using Cons.IH [OF s1(2)] by blast
  have "contents s' = contents s @ take (cap - length (contents s)) (b # bs)"
    using s'(3) s1(3) cap_law [OF Cons.prems] by (cases "length (contents s) < cap") (simp_all add: take_Cons')
  then show ?case using s1(1) s'(1,2) by simp
qed simp

lemma get_all_spec:
  "ok s \<Longrightarrow> contents s = xs @ ys \<Longrightarrow> \<exists>s'. get_all (length xs) s = Some (xs, s') \<and> ok s' \<and> contents s' = ys"
proof (induction xs arbitrary: s)
  case (Cons x xs)
  then obtain s1 where s1: "get s = Some (x, s1)" "ok s1" "contents s1 = xs @ ys" using get_law [of s x "xs @ ys"] by auto
  obtain s' where "get_all (length xs) s1 = Some (xs, s')" "ok s'" "contents s' = ys" using Cons.IH [OF s1(2,3)] by blast
  then show ?case using s1 by simp
qed simp

text \<open>Everything that fits comes out again, in order, after what was there before.\<close>

lemma fifo:
  assumes "ok s" "length (contents s) + length bs \<le> cap"
  shows "\<exists>s1 s2. put_all bs s = Some s1 \<and> get_all (length (contents s) + length bs) s1 = Some (contents s @ bs, s2) \<and>
    ok s2 \<and> contents s2 = []"
proof -
  obtain s1 where s1: "put_all bs s = Some s1" "ok s1" "contents s1 = (contents s @ bs) @ []"
    using put_all_spec [OF assms(1), of bs] assms(2) by auto
  show ?thesis using get_all_spec [OF s1(2,3)] s1(1) by simp
qed

end

section \<open>The ring buffer\<close>

definition queue_ok :: "'a PS2State_scheme \<Rightarrow> bool" where
  "queue_ok s \<longleftrightarrow> length (q_data s) = 256 \<and> 0 \<le> q_rptr s \<and> q_rptr s < 256 \<and> 0 \<le> q_count s \<and> q_count s \<le> 256 \<and>
     q_wptr s = (q_rptr s + q_count s) mod 256"

definition bytes :: "'a PS2State_scheme \<Rightarrow> u8 list" where
  "bytes s = map (\<lambda>i. q_data s ! ((nat (q_rptr s) + i) mod 256)) [0..<nat (q_count s)]"

lemma length_bytes: "length (bytes s) = nat (q_count s)"
  by (simp add: bytes_def)

lemma ring_apart: "i < c \<Longrightarrow> c < 256 \<Longrightarrow> (r + i) mod 256 \<noteq> (r + c) mod (256 :: nat)"
proof
  assume a: "i < c" "c < 256" "(r + i) mod 256 = (r + c) mod 256"
  then have "256 dvd (r + c) - (r + i)" using mod_eq_dvd_iff_nat [of "r + i" "r + c" 256] by simp
  then have "256 dvd c - i" by simp
  then show False using a(1,2) by (auto dest: dvd_imp_le)
qed

lemma wptr_nat: "queue_ok s \<Longrightarrow> nat (q_wptr s) = (nat (q_rptr s) + nat (q_count s)) mod 256"
  by (simp add: queue_ok_def nat_mod_distrib nat_add_distrib)

lemma put_spec:
  assumes "queue_ok s"
  shows "\<exists>s'. ps2_queue b s = Some s' \<and> queue_ok s' \<and>
    bytes s' = (if length (bytes s) < 256 then bytes s @ [of_int b] else bytes s)"
proof (cases "256 \<le> q_count s")
  case True
  then show ?thesis using assms by (simp add: ps2_queue_def length_bytes)
next
  case False
  define c where "c = nat (q_count s)"
  define r where "r = nat (q_rptr s)"
  have o: "length (q_data s) = 256" "0 \<le> q_rptr s" "q_rptr s < 256" "0 \<le> q_count s" "q_wptr s = (q_rptr s + q_count s) mod 256"
    using assms by (simp_all add: queue_ok_def)
  have w: "0 \<le> q_wptr s" "q_wptr s < 256" "nat (q_wptr s) = (r + c) mod 256"
    using o(5) wptr_nat [OF assms] by (simp_all add: c_def r_def)
  define s' where "s' = s\<lparr>q_data := (q_data s)[nat (q_wptr s) := of_int b],
      q_wptr := (if q_wptr s + 1 = 256 then 0 else q_wptr s + 1), q_count := q_count s + 1, irqs := irqs s @ [True]\<rparr>"
  have p: "ps2_queue b s = Some s'" using False w(1,2) by (simp add: ps2_queue_def s'_def)
  have step: "(if x mod 256 + 1 = 256 then 0 else x mod 256 + 1) = (x + 1) mod (256 :: int)" for x
    using pos_mod_bound [of 256 x] by (auto simp: mod_add_left_eq [of x 256 1, symmetric])
  have "q_wptr s' = (if q_wptr s + 1 = 256 then 0 else q_wptr s + 1)" by (simp add: s'_def)
  then have "q_wptr s' = (q_rptr s + q_count s + 1) mod 256" unfolding o(5) step .
  then have ok: "queue_ok s'" using o False by (simp add: queue_ok_def s'_def add.assoc)
  have n: "nat (q_count s + 1) = Suc c" using o(4) by (simp add: c_def)
  have c: "c < 256" using False o(4) by (simp add: c_def)
  have "bytes s' = map (\<lambda>i. (q_data s)[(r + c) mod 256 := of_int b] ! ((r + i) mod 256)) [0..<c] @ [of_int b]"
    using o(1) w(3) by (simp add: bytes_def s'_def n r_def)
  also have "map (\<lambda>i. (q_data s)[(r + c) mod 256 := of_int b] ! ((r + i) mod 256)) [0..<c] = bytes s"
    unfolding bytes_def c_def [symmetric] r_def [symmetric]
    by (rule map_cong [OF refl], rule nth_list_update_neq, rule not_sym, rule ring_apart [OF _ c]) simp
  finally show ?thesis using p ok c by (simp add: length_bytes c_def)
qed

lemma get_spec:
  assumes "queue_ok s" "bytes s = x # xs"
  shows "\<exists>s'. ps2_read_data s = Some (x, s') \<and> queue_ok s' \<and> bytes s' = xs"
proof -
  have o: "length (q_data s) = 256" "0 \<le> q_rptr s" "q_rptr s < 256" "0 \<le> q_count s" "q_count s \<le> 256"
    "q_wptr s = (q_rptr s + q_count s) mod 256"
    using assms by (simp_all add: queue_ok_def)
  have l: "nat (q_count s) = Suc (length xs)" using assms(2) length_bytes [of s] by simp
  then have c: "q_count s = 1 + int (length xs)" using o(4) by simp
  define s' where "s' = s\<lparr>q_rptr := (if q_rptr s + 1 = 256 then 0 else q_rptr s + 1), q_count := q_count s - 1,
      irqs := irqs s @ [False, q_count s - 1 \<noteq> 0]\<rparr>"
  have u: "[0..<Suc (length xs)] = 0 # map Suc [0..<length xs]" by (simp only: map_Suc_upt upt_conv_Cons zero_less_Suc)
  have b: "x = q_data s ! nat (q_rptr s)" "xs = map (\<lambda>i. q_data s ! ((nat (q_rptr s) + Suc i) mod 256)) [0..<length xs]"
    using assms(2) o(2,3) unfolding bytes_def l u by (simp_all add: comp_def nat_less_iff)
  have p: "ps2_read_data s = Some (x, s')" using o(2,3) c b(1) by (simp add: ps2_read_data_def s'_def)
  have "q_wptr s = (q_rptr s' + q_count s') mod 256" 
  proof (cases "q_rptr s = 255")
    case True
    have "(255 + q_count s) mod 256 = (q_count s - 1 + 256) mod 256" by (simp add: algebra_simps)
    also have "\<dots> = (q_count s - 1) mod 256" by (rule mod_add_self2)
    finally show ?thesis using True o(6) by (simp add: s'_def)
  qed (use o(6) in \<open>simp add: s'_def\<close>)
  then have ok: "queue_ok s'" using o c by (simp add: queue_ok_def s'_def)
  have "(nat (q_rptr s') + i) mod 256 = (nat (q_rptr s) + Suc i) mod 256" for i
    using o(2) by (auto simp: s'_def nat_add_distrib)
  then have "bytes s' = xs" using b(2) c by (simp add: bytes_def s'_def)
  then show ?thesis using p ok by blast
qed

interpretation ps2: bounded_queue queue_ok bytes 256 "\<lambda>b. ps2_queue (uint b)" ps2_read_data
proof
  fix s :: "'a PS2State_scheme" and b x :: u8 and xs
  assume a: "queue_ok s"
  show "\<exists>s'. ps2_queue (uint b) s = Some s' \<and> queue_ok s' \<and> bytes s' = (if length (bytes s) < 256 then bytes s @ [b] else bytes s)"
    using put_spec [OF a, of "uint b"] by (simp only: word_of_int_uint)
  show "\<exists>s'. ps2_read_data s = Some (x, s') \<and> queue_ok s' \<and> bytes s' = xs" if "bytes s = x # xs" by (rule get_spec [OF a that])
  show "length (bytes s) \<le> 256" using a by (simp add: length_bytes queue_ok_def nat_le_iff)
qed

section \<open>The devices\<close>

lemma queue_ok_frame [simp]:
  "queue_ok (s\<lparr>write_cmd := x\<rparr>) = queue_ok s" "queue_ok (k\<lparr>scan_enabled := y\<rparr>) = queue_ok k"
  "queue_ok (k\<lparr>translate_mode := y\<rparr>) = queue_ok k" "queue_ok (ps2_reset_keyboard k) = queue_ok k"
  "queue_ok (m\<lparr>mouse_status := b\<rparr>) = queue_ok m" "queue_ok (m\<lparr>mouse_resolution := b\<rparr>) = queue_ok m"
  "queue_ok (m\<lparr>mouse_sample_rate := b\<rparr>) = queue_ok m" "queue_ok (m\<lparr>mouse_wrap := b\<rparr>) = queue_ok m"
  "queue_ok (m\<lparr>mouse_type := b\<rparr>) = queue_ok m" "queue_ok (m\<lparr>mouse_detect_state := b\<rparr>) = queue_ok m"
  "queue_ok (m\<lparr>mouse_buttons := b\<rparr>) = queue_ok m" "queue_ok (m\<lparr>mouse_dx := d\<rparr>) = queue_ok m"
  "queue_ok (m\<lparr>mouse_dy := d\<rparr>) = queue_ok m" "queue_ok (m\<lparr>mouse_dz := d\<rparr>) = queue_ok m"
  by (simp_all add: queue_ok_def ps2_reset_keyboard_def)

lemma reset_queue_ok: "length (q_data s) = 256 \<Longrightarrow> queue_ok (ps2_reset s)"
  by (simp add: queue_ok_def ps2_reset_def)

text \<open>An operation that returns and keeps the queue.\<close>

definition keeps_queue :: "'a PS2State_scheme option \<Rightarrow> bool" where
  "keeps_queue r \<longleftrightarrow> (\<exists>s. r = Some s \<and> queue_ok s)"

lemma keeps_Some [simp]: "keeps_queue (Some s) = queue_ok s"
  by (simp add: keeps_queue_def)

lemma keeps_put: "queue_ok s \<Longrightarrow> keeps_queue (ps2_queue b s)"
  using put_spec [of s b] by (auto simp: keeps_queue_def)

lemma keeps_bind: "keeps_queue r \<Longrightarrow> (\<And>s. queue_ok s \<Longrightarrow> keeps_queue (f s)) \<Longrightarrow> keeps_queue (Option.bind r f)"
  by (auto simp: keeps_queue_def)

lemma keeps_map: "keeps_queue r \<Longrightarrow> (\<And>s. queue_ok s \<Longrightarrow> queue_ok (f s)) \<Longrightarrow> keeps_queue (map_option f r)"
  by (auto simp: keeps_queue_def)

lemma keeps_put_all: "queue_ok s \<Longrightarrow> keeps_queue (ps2_queue_all bs s)"
  by (induction bs arbitrary: s) (auto intro: keeps_bind keeps_put)

lemmas keeps = keeps_put keeps_put_all keeps_bind keeps_map

lemma keyboard_keeps:
  assumes "queue_ok s"
  shows "keeps_queue (ps2_put_keycode c s)" "keeps_queue (ps2_write_keyboard v s)"
  using assms by (auto simp: ps2_put_keycode_def ps2_write_keyboard_def simp del: ps2_queue_all.simps intro!: keeps)

lemma packet_keeps: "queue_ok s \<Longrightarrow> keeps_queue (ps2_mouse_send_packet s)"
  unfolding ps2_mouse_send_packet_def Let_def by (rule keeps_map [OF keeps_put_all]) simp_all

lemma packets_keep: "queue_ok s \<Longrightarrow> keeps_queue (send_packets s)"
proof (induction s rule: send_packets.induct)
  case (1 s)
  obtain s1 where "ps2_mouse_send_packet s = Some s1" "queue_ok s1"
    using packet_keeps [OF 1(2)] by (auto simp: keeps_queue_def)
  then show ?case using 1(1) by (subst send_packets.simps) auto
qed

lemma detect_ok: "queue_ok (mouse_detect v s) = queue_ok s"
  by (simp add: mouse_detect_def)

lemma mouse_keeps:
  assumes "queue_ok s"
  shows "keeps_queue (ps2_mouse_event dx dy dz b s)" "keeps_queue (ps2_write_mouse v s)"
proof -
  show "keeps_queue (ps2_mouse_event dx dy dz b s)"
    using assms by (auto simp: ps2_mouse_event_def Let_def intro!: packets_keep)
  have "keeps_queue (ps2_mouse_command v s)" for v
    using assms unfolding ps2_mouse_command_def Let_def
    by (auto simp del: ps2_queue_all.simps intro!: keeps packet_keeps)
  then show "keeps_queue (ps2_write_mouse v s)"
    using assms by (auto simp: ps2_write_mouse_def detect_ok intro!: keeps)
qed

lemma read_keeps: "queue_ok s \<Longrightarrow> \<exists>b s'. ps2_read_data s = Some (b, s') \<and> queue_ok s'"
proof (cases "bytes s")
  case Nil
  assume o: "queue_ok s"
  then have "q_count s = 0" using Nil length_bytes [of s] by (simp add: queue_ok_def)
  then show ?thesis using o by (auto simp: ps2_read_data_def queue_ok_def Let_def)
qed (use get_spec in blast)

text \<open>What reaches the keyboard: keys, commands and reads of the guest, the mode, resets.\<close>

datatype kbd_op = Key int | Command int | Read | Set_mode int | Kbd_reset

fun kbd_step :: "kbd_op \<Rightarrow> PS2KbdState \<Rightarrow> PS2KbdState option" where
  "kbd_step (Key c) s = ps2_put_keycode c s"
| "kbd_step (Command v) s = ps2_write_keyboard v s"
| "kbd_step Read s = map_option snd (ps2_read_data s)"
| "kbd_step (Set_mode m) s = Some (ps2_keyboard_set_translation m s)"
| "kbd_step Kbd_reset s = Some (ps2_reset s)"

fun kbd_steps :: "kbd_op list \<Rightarrow> PS2KbdState \<Rightarrow> PS2KbdState option" where
  "kbd_steps [] s = Some s"
| "kbd_steps (x # xs) s = Option.bind (kbd_step x s) (kbd_steps xs)"

fun read_all :: "nat \<Rightarrow> 'a PS2State_scheme \<Rightarrow> (u8 list \<times> 'a PS2State_scheme) option" where
  "read_all 0 s = Some ([], s)"
| "read_all (Suc n) s = Option.bind (ps2_read_data s) (\<lambda>(b, s1). map_option (\<lambda>(bs, s2). (b # bs, s2)) (read_all n s1))"

lemma kbd_step_keeps: "queue_ok s \<Longrightarrow> keeps_queue (kbd_step x s)"
proof (cases x)
  case Read
  assume "queue_ok s"
  then show ?thesis using Read read_keeps [of s] by auto
next
  case Kbd_reset
  assume "queue_ok s"
  then show ?thesis using Kbd_reset reset_queue_ok [of s] by (simp add: queue_ok_def)
qed (auto simp: keyboard_keeps ps2_keyboard_set_translation_def)

lemma kbd_steps_keep: "queue_ok s \<Longrightarrow> keeps_queue (kbd_steps xs s)"
  by (induction xs arbitrary: s) (auto intro: keeps_bind kbd_step_keeps)

lemma put_all_queue_all: "ps2.put_all bs s = ps2_queue_all (map uint bs) s"
  by (induction bs arbitrary: s) (auto split: bind_split)

lemma get_all_read_all: "ps2.get_all n s = read_all n s"
  by (induction n arbitrary: s) auto

lemma kbd_init_ok: "queue_ok ps2_kbd_init"
  unfolding ps2_kbd_init_def by (rule reset_queue_ok) simp

text \<open>
  \<^bold>\<open>C30\<close>. The ring buffer of the keyboard is a bounded queue: after any sequence of keys, commands, reads and
  resets from power-on every operation has returned without an access outside the array, at most
  256 bytes wait, and further bytes that fit are read by the guest in order, after those that waited.
\<close>

theorem keyboard_queue_is_fifo:
  "\<exists>s. kbd_steps xs ps2_kbd_init = Some s \<and> length (bytes s) \<le> 256 \<and>
     (length (bytes s) + length bs \<le> 256 \<longrightarrow>
       (\<exists>s1 s2. ps2_queue_all (map uint bs) s = Some s1 \<and>
          read_all (length (bytes s) + length bs) s1 = Some (bytes s @ bs, s2) \<and> bytes s2 = []))"
proof -
  obtain s where s: "kbd_steps xs ps2_kbd_init = Some s" "queue_ok s"
    using kbd_steps_keep [OF kbd_init_ok, of xs] by (auto simp: keeps_queue_def)
  show ?thesis
    using s ps2.cap_law [OF s(2)] ps2.fifo [OF s(2), of bs] unfolding put_all_queue_all get_all_read_all by blast
qed

theorem keyboard_queue_is_fifo_witness:
  "\<exists>s s1 s2. kbd_steps [Key 0x1e, Key 0x9e] ps2_kbd_init = Some s \<and> ps2_queue_all [1, 2] s = Some s1 \<and>
     read_all (length (bytes s) + 2) s1 = Some (bytes s @ [1, 2], s2) \<and> bytes s = [0x1c, 0xf0, 0x1c]"
proof -
  obtain s where s: "kbd_steps [Key 0x1e, Key 0x9e] ps2_kbd_init = Some s" "bytes s = [0x1c, 0xf0, 0x1c]"
    by (simp add: ps2_kbd_init_def ps2_reset_def ps2_put_keycode_def ps2_queue_def ps2_raw_keycode_def bytes_def upt_rec)
      (simp add: numeral_2_eq_2)
  then show ?thesis
    using keyboard_queue_is_fifo [of "[Key 0x1e, Key 0x9e]" "[1, 2]"] by auto
qed

end
