(* ===== verification/Spec2Isabelle.thy ===== *)
theory Spec2Isabelle
  imports Machines TBTheorems LoopLookup I8259Props PS2Props
begin

text \<open>
  A verification development of MemCheck (\<^verbatim>\<open>src/MemCheck-qemu\<close>): a checker for heap errors of a
  guest kernel, and the parts of the QEMU 0.9.1 fork that it is built into.

  \<^bold>\<open>The program.\<close> MemCheck (\<^verbatim>\<open>contrib/MemCheck\<close>) watches a guest from inside the emulator. Hooks at
  the entry and at the return address of the allocation functions of the guest kernel record
  allocations and frees in a shadow memory; every load and store of the guest is checked against
  it. It is called from the soft MMU (\<^verbatim>\<open>softmmu_header.h\<close>, \<^verbatim>\<open>softmmu_template.h\<close>) on each access
  and from the main loop on each block, and it reads registers and the stack of the guest through
  the class \<^verbatim>\<open>MachineQEMU\<close>, by the debug walk of the page tables.

  \<^bold>\<open>Theories.\<close>
  \<^item> \<open>Prelude\<close>, \<open>OrderedMap\<close>, \<open>Simulation\<close>: shared lemmas, \<^verbatim>\<open>std::map\<close> as an ordered association
    list with its range lookups, and the interface of a simulation.
  \<^item> \<open>ShadowMemory\<close>, \<open>ShadowSpec\<close>, \<open>ShadowProps\<close>: \<^verbatim>\<open>ShadowMemory.cpp\<close>, the abstract heap it
    implements, the refinement and its consequences.
  \<^item> \<open>SymbolTable\<close>, \<open>SymbolLoad\<close>: \<^verbatim>\<open>SymbolTable.cpp\<close>: parsing of a \<^verbatim>\<open>System.map\<close>, lookups and the
    round trip of loading.
  \<^item> \<open>Machine\<close>, \<open>MemCheckCore\<close>, \<open>MemCheckProps\<close>, \<open>CallNesting\<close>: \<^verbatim>\<open>MemCheck.cpp\<close>,
    \<^verbatim>\<open>FunctionInterceptor.cpp\<close>, \<^verbatim>\<open>Machine.h\<close>: hooks, nesting of calls, the check of an access.
  \<^item> \<open>Checker\<close>, \<open>CheckerInit\<close>: \<^verbatim>\<open>MemCheckLinuxKernel.cpp\<close>, \<^verbatim>\<open>MemCheckLinuxKernelQEMU.cpp\<close> and the C
    entry points, as runs of guest events.
  \<^item> \<open>LittleEndian\<close>, \<open>Pages\<close>, \<open>ExecPhys\<close>, \<open>ExecPhysProps\<close>, \<open>DebugRead\<close>: the accessors of
    \<^verbatim>\<open>cpu-all.h\<close>, physical memory and the debug read of \<^verbatim>\<open>exec.c\<close>.
  \<^item> \<open>ExecTLB\<close>, \<open>TLBProps\<close>, \<open>MemoryProps\<close>: the TLB of \<^verbatim>\<open>exec.c\<close> with its dirty tracking.
  \<^item> \<open>X86MMU\<close>, \<open>X86MMUProps\<close>: \<^verbatim>\<open>target-i386/helper2.c\<close>: faults, the two page walks, their agreement.
  \<^item> \<open>SoftMMU\<close>, \<open>SoftMMUProps\<close>, \<open>SoftMMUData\<close>: loads and stores of the guest with the call of
    MemCheck: they return, the inline path agrees with the full one, a store is read back.
  \<^item> \<open>MachineI386\<close>, \<open>MachineI386Props\<close>, \<open>MachineMips\<close>, \<open>MachinePpc\<close>, \<open>Machines\<close>: the class
    \<^verbatim>\<open>MachineQEMU\<close> for the three targets and what they have in common (locale \<open>guest_machine\<close>).
  \<^item> \<open>TBCache\<close>, \<open>TBInvalidate\<close>: the cache of translated code of \<^verbatim>\<open>exec.c\<close> and \<^verbatim>\<open>exec-all.h\<close>.
    \<open>TBChains\<close>, \<open>TBShape\<close>, \<open>TBProps\<close>, \<open>TBLink\<close>: linked lists in the array of blocks as HOL lists,
    the shape invariant, and that each operation returns and keeps it. \<open>TBRange\<close>, \<open>TBBitmap\<close>,
    \<open>TBStore\<close>: the bytes a block translates, the code bitmap, stores to code. \<open>TBRuns\<close>,
    \<open>TBTheorems\<close>: histories of the cache and their properties.
  \<^item> \<open>CpuExec\<close>: the main loop of \<^verbatim>\<open>cpu-exec.c\<close>: exceptions, interrupts, the search for a block, the
    call of MemCheck, the run of blocks along patched jumps. \<open>LoopChecker\<close>, \<open>LoopTheorems\<close>: runs of
    the loop (\<open>exec_run\<close>) are runs of the checker, so an access of the guest is reported exactly when
    it should be. \<open>LoopLookup\<close>: the search finds a block of the CPU's state; a hook reached along a
    patched jump is missed.
  \<^item> \<open>I8259\<close>, \<open>I8259Props\<close>: the interrupt controllers of \<^verbatim>\<open>hw/i8259.c\<close>, the ranges of their
    registers, the interrupt that the CPU is given.
  \<^item> \<open>PS2\<close>, \<open>PS2Props\<close>: keyboard and mouse of \<^verbatim>\<open>hw/ps2.c\<close>; the ring buffer as a bounded queue
    (locale \<open>bounded_queue\<close>).

  \<^bold>\<open>How code becomes definitions.\<close> Structures are records, with the fields and names of the source;
  the CPU state grows by record extension (\<open>phys\<close>, \<open>cpu_common\<close>, \<open>cpu_x86\<close>, \<open>tb_ctx\<close>, \<open>exec_ctx\<close>). Machine
  integers are words, so additions wrap as in C; the counters of \<^verbatim>\<open>ps2.c\<close> are integers. Functions pass the state explicitly. A page fault
  leaves a function by \<^verbatim>\<open>longjmp\<close>; it is a value of a sum type. A result \<open>None\<close> of a
  \<^theory_text>\<open>partial_function\<close> means that the code follows a null pointer or loops, in \<open>PS2\<close> that it
  leaves an array; the theorems show that it does not occur. The main loop does not end, so it is a
  step function, and theorems about it speak of every state of a run. Uninitialised values are parameters. There is no fuel.

  \<^bold>\<open>Configuration.\<close> A little-endian 32-bit host without direct jumps (Windows, where MemCheck is
  built), the i386 target without the 64-bit extensions, system emulation, one CPU, no kqemu.

  \<^bold>\<open>Parameters.\<close> Devices (\<open>io_mem_read\<close>, \<open>io_mem_write\<close>), the translator \<open>cpu_gen_code\<close>,
  \<open>cpu_restore_state\<close>, the generated code and the delivery of interrupts (\<open>engine\<close>), host time, the page walk of MIPS and PowerPC, and the contents of
  uninitialised locals are arguments of the definitions. The hypotheses on them are named:
  \<open>io_quiet\<close> (reading a page table does not go to a device that changes the CPU), \<open>good_map\<close>
  (descriptors of physical pages as the registration makes them), \<open>restore_ok\<close> (restoring the CPU
  state does not change the cache), \<open>board_quiet\<close> and \<open>engine_quiet\<close> (devices, the translator,
  generated code and the delivery of interrupts reach the checker only by accesses of the guest),
  \<open>view_quiet\<close> and \<open>gen_keeps\<close> (a device access during a page walk and the translator keep the
  registers that select a block).

  \<^bold>\<open>Not modelled.\<close> The translators, the generated operations and the other helpers of all targets
  (they are the guest's instruction set, a far larger development); the targets other than i386
  except for the class \<^verbatim>\<open>MachineQEMU\<close> of MIPS and PowerPC; the registration of memory and of
  device callbacks, the CPU models and dumps; devices other than the interrupt controllers and the
  keyboard and mouse, block drivers, audio, network and display (\<^verbatim>\<open>hw\<close>, \<^verbatim>\<open>block*.c\<close>, \<^verbatim>\<open>audio\<close>, \<^verbatim>\<open>slirp\<close>, \<^verbatim>\<open>sdl.c\<close>, \<^verbatim>\<open>vnc.c\<close>): pure I/O of the
  host or hardware models that MemCheck does not touch; floating point (\<^verbatim>\<open>fpu\<close>); user emulation
  (\<^verbatim>\<open>linux-user\<close>, \<^verbatim>\<open>darwin-user\<close>), which MemCheck does not support; the monitor, the debugger stub
  and the start-up code in \<^verbatim>\<open>vl.c\<close>.
\<close>

end
